(* ===== verification/Rayd_Prelude.thy ===== *)
theory Rayd_Prelude
imports Main "HOL-Library.Word" "HOL-Library.AList" "HOL-Library.List_Lexorder"
begin

text \<open>
  Shared ground of the development: bytes and their little-endian integers, the checked and
  saturating arithmetic of Rust's unsigned types, UTF-8 validity of Rust strings, lowercase
  hexadecimal formatting, hash maps as association lists with distinct keys, and the two codec
  contracts that the wire formats of the crates fulfil.  Rust's \<open>Result\<close> is the sum type, with the
  error on the left; \<open>Option\<close> is the option type; \<open>usize\<close> lengths of in-memory buffers are natural
  numbers; integers whose overflow matters are words of their width.
\<close>

named_theorems hm_simps "lookup and membership in hash maps"
named_theorems le_simps "little-endian encodings"

section \<open>Bytes and results\<close>

type_synonym byte = "8 word"
type_synonym bytes = "8 word list"
type_synonym u16 = "16 word"
type_synonym u32 = "32 word"
type_synonym u64 = "64 word"
type_synonym ('e, 'a) result = "'e + 'a"

text \<open>A string literal of the source as its UTF-8 bytes (every literal of the model is ASCII).\<close>

definition ascii :: "string \<Rightarrow> bytes" where
  "ascii s = map of_char s"

definition map_ok :: "('a \<Rightarrow> 'b) \<Rightarrow> ('e, 'a) result \<Rightarrow> ('e, 'b) result" where
  "map_ok f r = (case r of Inl e \<Rightarrow> Inl e | Inr x \<Rightarrow> Inr (f x))"

definition map_err :: "('e \<Rightarrow> 'f) \<Rightarrow> ('e, 'a) result \<Rightarrow> ('f, 'a) result" where
  "map_err f r = (case r of Inl e \<Rightarrow> Inl (f e) | Inr x \<Rightarrow> Inr x)"

definition is_ok :: "('e, 'a) result \<Rightarrow> bool" where
  "is_ok r = (case r of Inl e \<Rightarrow> False | Inr x \<Rightarrow> True)"

text \<open>A slice of bytes: the language bounds its length by \<open>isize::MAX\<close>.\<close>

definition rust_slice :: "bytes \<Rightarrow> bool" where
  "rust_slice bs \<longleftrightarrow> length bs < 2 ^ 63"

section \<open>Little-endian integers\<close>

primrec to_le :: "nat \<Rightarrow> nat \<Rightarrow> bytes" where
  "to_le 0 n = []"
| "to_le (Suc k) n = of_nat (n mod 256) # to_le k (n div 256)"

primrec from_le :: "bytes \<Rightarrow> nat" where
  "from_le [] = 0"
| "from_le (b # bs) = unat b + 256 * from_le bs"

definition u16_to_le_bytes :: "u16 \<Rightarrow> bytes" where
  "u16_to_le_bytes w = to_le 2 (unat w)"

definition u16_from_le_bytes :: "bytes \<Rightarrow> u16" where
  "u16_from_le_bytes bs = of_nat (from_le bs)"

definition u32_to_le_bytes :: "u32 \<Rightarrow> bytes" where
  "u32_to_le_bytes w = to_le 4 (unat w)"

definition u32_from_le_bytes :: "bytes \<Rightarrow> u32" where
  "u32_from_le_bytes bs = of_nat (from_le bs)"

definition u64_to_le_bytes :: "u64 \<Rightarrow> bytes" where
  "u64_to_le_bytes w = to_le 8 (unat w)"

definition u64_from_le_bytes :: "bytes \<Rightarrow> u64" where
  "u64_from_le_bytes bs = of_nat (from_le bs)"

text \<open>\<open>u32::try_from(usize)\<close>: the conversion fails from \<open>2 ^ 32\<close> on.\<close>

definition u32_try_from :: "nat \<Rightarrow> u32 option" where
  "u32_try_from n = (if n < 2 ^ 32 then Some (of_nat n) else None)"

lemma length_to_le [simp, le_simps]: "length (to_le k n) = k"
  by (induction k arbitrary: n) auto

lemma unat_lt2p: "unat (w :: 'a :: len word) < 2 ^ LENGTH('a)"
  by (rule unsigned_less)

lemma unat_byte_lt: "unat (b :: byte) < 256"
  using unat_lt2p [of b] by simp

lemma from_le_to_le [le_simps]: "from_le (to_le k n) = n mod 256 ^ k"
proof (induction k arbitrary: n)
  case 0
  then show ?case by simp
next
  case (Suc k)
  have "unat (of_nat (n mod 256) :: byte) = n mod 256"
    by (simp add: unat_of_nat)
  then show ?case
    using Suc mod_mult2_eq [of n 256 "256 ^ k"] by simp
qed

lemma from_le_bound: "from_le bs < 256 ^ length bs"
proof (induction bs)
  case (Cons b bs)
  have "unat b + 256 * from_le bs < 256 * (from_le bs + 1)"
    using unat_byte_lt [of b] by simp
  also have "\<dots> \<le> 256 * 256 ^ length bs"
    using Cons by (intro mult_le_mono2) simp
  finally show ?case by simp
qed simp

lemma to_le_from_le [le_simps]: "k = length bs \<Longrightarrow> to_le k (from_le bs) = bs"
proof (induction bs arbitrary: k)
  case (Cons b bs)
  have "(unat b + 256 * from_le bs) mod 256 = unat b"
    "(unat b + 256 * from_le bs) div 256 = from_le bs"
    using unat_byte_lt [of b] by simp_all
  with Cons show ?case by simp
qed simp

lemma length_u16_to_le [simp, le_simps]: "length (u16_to_le_bytes w) = 2"
  by (simp add: u16_to_le_bytes_def)

lemma length_u32_to_le [simp, le_simps]: "length (u32_to_le_bytes w) = 4"
  by (simp add: u32_to_le_bytes_def)

lemma length_u64_to_le [simp, le_simps]: "length (u64_to_le_bytes w) = 8"
  by (simp add: u64_to_le_bytes_def)

lemma u16_le_round_trip [simp, le_simps]: "u16_from_le_bytes (u16_to_le_bytes w) = w"
  using unat_lt2p [of w]
  by (simp add: u16_to_le_bytes_def u16_from_le_bytes_def from_le_to_le)

lemma u32_le_round_trip [simp, le_simps]: "u32_from_le_bytes (u32_to_le_bytes w) = w"
  using unat_lt2p [of w]
  by (simp add: u32_to_le_bytes_def u32_from_le_bytes_def from_le_to_le)

lemma u64_le_round_trip [simp, le_simps]: "u64_from_le_bytes (u64_to_le_bytes w) = w"
  using unat_lt2p [of w]
  by (simp add: u64_to_le_bytes_def u64_from_le_bytes_def from_le_to_le)

lemma u16_le_bytes_inverse [simp, le_simps]:
  "length bs = 2 \<Longrightarrow> u16_to_le_bytes (u16_from_le_bytes bs) = bs"
  using from_le_bound [of bs]
  by (simp add: u16_to_le_bytes_def u16_from_le_bytes_def unat_of_nat to_le_from_le)

lemma u32_le_bytes_inverse [simp, le_simps]:
  "length bs = 4 \<Longrightarrow> u32_to_le_bytes (u32_from_le_bytes bs) = bs"
  using from_le_bound [of bs]
  by (simp add: u32_to_le_bytes_def u32_from_le_bytes_def unat_of_nat to_le_from_le)

lemma u64_le_bytes_inverse [simp, le_simps]:
  "length bs = 8 \<Longrightarrow> u64_to_le_bytes (u64_from_le_bytes bs) = bs"
  using from_le_bound [of bs]
  by (simp add: u64_to_le_bytes_def u64_from_le_bytes_def unat_of_nat to_le_from_le)

lemma u32_to_le_inj: "u32_to_le_bytes v = u32_to_le_bytes w \<Longrightarrow> v = w"
  by (metis u32_le_round_trip)

lemma u64_to_le_inj: "u64_to_le_bytes v = u64_to_le_bytes w \<Longrightarrow> v = w"
  by (metis u64_le_round_trip)

lemma u32_try_from_unat: "u32_try_from n = Some w \<Longrightarrow> unat w = n"
  by (auto simp: u32_try_from_def unat_of_nat split: if_splits)

lemma u32_try_from_of_unat [simp]: "u32_try_from (unat (w :: u32)) = Some w"
  using unat_lt2p [of w] by (simp add: u32_try_from_def)

section \<open>Unsigned arithmetic of Rust\<close>

definition checked_add :: "'a :: len word \<Rightarrow> 'a word \<Rightarrow> 'a word option" where
  "checked_add a b =
     (let s = unat a + unat b in if s < 2 ^ LENGTH('a) then Some (of_nat s) else None)"

definition saturating_add :: "'a :: len word \<Rightarrow> 'a word \<Rightarrow> 'a word" where
  "saturating_add a b = (case checked_add a b of Some s \<Rightarrow> s | None \<Rightarrow> - 1)"

definition saturating_sub :: "'a :: len word \<Rightarrow> 'a word \<Rightarrow> 'a word" where
  "saturating_sub a b = (if a \<le> b then 0 else a - b)"

lemma checked_add_Some: "checked_add a b = Some s \<Longrightarrow> unat s = unat a + unat b"
  by (auto simp: checked_add_def Let_def unat_add_lem [symmetric] split: if_splits)

lemma checked_add_None:
  "checked_add (a :: 'a :: len word) b = None \<longleftrightarrow> 2 ^ LENGTH('a) \<le> unat a + unat b"
  by (auto simp: checked_add_def Let_def)

lemma unat_saturating_add:
  "unat (saturating_add (a :: 'a :: len word) b) = min (unat a + unat b) (2 ^ LENGTH('a) - 1)"
proof (cases "checked_add a b")
  case None
  moreover from this have "2 ^ LENGTH('a) \<le> unat a + unat b"
    by (simp add: checked_add_None)
  ultimately show ?thesis
    by (simp add: saturating_add_def unsigned_minus_1_eq_mask mask_eq_exp_minus_1)
next
  case (Some s)
  then have "unat s = unat a + unat b" and "unat s < 2 ^ LENGTH('a)"
    by (auto dest: checked_add_Some intro: unat_lt2p)
  with Some show ?thesis
    by (simp add: saturating_add_def)
qed

lemma unat_saturating_sub: "unat (saturating_sub a b) = unat a - unat b"
  by (auto simp: saturating_sub_def unat_sub word_le_nat_alt)

lemma unat_inc: "unat (w :: u64) + 1 < 2 ^ 64 \<Longrightarrow> unat (w + 1) = unat w + 1"
  by (simp add: unat_word_ariths)

section \<open>UTF-8\<close>

definition utf8_cont :: "byte \<Rightarrow> bool" where
  "utf8_cont b \<longleftrightarrow> 0x80 \<le> b \<and> b \<le> 0xBF"

text \<open>The well-formed byte sequences accepted by \<open>core::str::from_utf8\<close> (Unicode, table 3-7).\<close>

fun valid_utf8 :: "bytes \<Rightarrow> bool" where
  "valid_utf8 [] = True"
| "valid_utf8 (b0 # bs) =
    (if b0 < 0x80 then valid_utf8 bs
     else if 0xC2 \<le> b0 \<and> b0 \<le> 0xDF then
       (case bs of b1 # r \<Rightarrow> utf8_cont b1 \<and> valid_utf8 r | _ \<Rightarrow> False)
     else if 0xE0 \<le> b0 \<and> b0 \<le> 0xEF then
       (case bs of b1 # b2 # r \<Rightarrow>
          (if b0 = 0xE0 then 0xA0 \<le> b1 \<and> b1 \<le> 0xBF
           else if b0 = 0xED then 0x80 \<le> b1 \<and> b1 \<le> 0x9F else utf8_cont b1)
          \<and> utf8_cont b2 \<and> valid_utf8 r
        | _ \<Rightarrow> False)
     else if 0xF0 \<le> b0 \<and> b0 \<le> 0xF4 then
       (case bs of b1 # b2 # b3 # r \<Rightarrow>
          (if b0 = 0xF0 then 0x90 \<le> b1 \<and> b1 \<le> 0xBF
           else if b0 = 0xF4 then 0x80 \<le> b1 \<and> b1 \<le> 0x8F else utf8_cont b1)
          \<and> utf8_cont b2 \<and> utf8_cont b3 \<and> valid_utf8 r
        | _ \<Rightarrow> False)
     else False)"

lemma valid_utf8_ascii: "list_all (\<lambda>b. b < 0x80) bs \<Longrightarrow> valid_utf8 bs"
  by (induction bs) auto

lemma valid_utf8_ascii_append: "list_all (\<lambda>b. b < 0x80) bs \<Longrightarrow> valid_utf8 (bs @ r) = valid_utf8 r"
  by (induction bs) auto

section \<open>Lowercase hexadecimal\<close>

text \<open>Two-digit lowercase formatting of each byte: \<open>format!("{b:02x}")\<close>.\<close>

definition hex_digit :: "nat \<Rightarrow> byte" where
  "hex_digit n = of_nat (if n < 10 then 48 + n else 87 + n)"

definition hex_byte :: "byte \<Rightarrow> bytes" where
  "hex_byte b = [hex_digit (unat b div 16), hex_digit (unat b mod 16)]"

definition hex_lower :: "bytes \<Rightarrow> bytes" where
  "hex_lower bs = concat (map hex_byte bs)"

lemma hex_digit_inj: "m < 16 \<Longrightarrow> n < 16 \<Longrightarrow> hex_digit m = hex_digit n \<Longrightarrow> m = n"
proof -
  assume mn: "m < 16" "n < 16" and eq: "hex_digit m = hex_digit n"
  have "unat (hex_digit k) = (if k < 10 then 48 + k else 87 + k)" if "k < 16" for k
    using that by (auto simp: hex_digit_def unat_of_nat simp del: of_nat_add)
  with mn eq have "(if m < 10 then 48 + m else 87 + m) = (if n < 10 then 48 + n else 87 + n)"
    by metis
  with mn show "m = n"
    by (simp split: if_splits)
qed

lemma hex_byte_inj: "hex_byte a = hex_byte b \<Longrightarrow> a = b"
proof -
  assume "hex_byte a = hex_byte b"
  then have "unat a div 16 = unat b div 16" "unat a mod 16 = unat b mod 16"
    using unat_byte_lt [of a] unat_byte_lt [of b]
    by (auto simp: hex_byte_def intro!: hex_digit_inj)
  then have "unat a = unat b"
    by (metis div_mult_mod_eq)
  then show "a = b"
    by (simp add: word_unat_eq_iff)
qed

lemma length_hex_lower [simp]: "length (hex_lower bs) = 2 * length bs"
  by (induction bs) (auto simp: hex_lower_def hex_byte_def)

lemma hex_lower_inj: "hex_lower as = hex_lower bs \<Longrightarrow> as = bs"
proof (induction as arbitrary: bs)
  case Nil
  then show ?case
    by (cases bs) (auto simp: hex_lower_def hex_byte_def)
next
  case (Cons a as)
  then obtain b bs' where bs: "bs = b # bs'"
    by (cases bs) (auto simp: hex_lower_def hex_byte_def)
  with Cons.prems have "hex_byte a = hex_byte b" "hex_lower as = hex_lower bs'"
    by (auto simp: hex_lower_def hex_byte_def)
  with Cons.IH bs show ?case
    by (auto dest: hex_byte_inj)
qed

section \<open>Decimal numerals\<close>

text \<open>\<open>format!("{n}")\<close> of an unsigned integer.\<close>

fun dec_digits :: "nat \<Rightarrow> bytes" where
  "dec_digits n = (if n < 10 then [of_nat (48 + n)] else dec_digits (n div 10) @ [of_nat (48 + n mod 10)])"

declare dec_digits.simps [simp del]

lemma dec_digits_not_Nil [simp]: "dec_digits n \<noteq> []"
  by (simp add: dec_digits.simps)

lemma last_dec_digits: "\<exists>k<10. last (dec_digits n) = of_nat (48 + k)"
proof (cases "n < 10")
  case True
  then show ?thesis by (auto simp: dec_digits.simps)
next
  case False
  then have "last (dec_digits n) = of_nat (48 + n mod 10)"
    by (subst dec_digits.simps) simp
  then show ?thesis by (intro exI [of _ "n mod 10"]) simp
qed

section \<open>Hash maps\<close>

text \<open>
  A \<open>HashMap\<close> is an association list with distinct keys.  The order of the list stands for the
  (unspecified) iteration order of the table; no property of the development depends on it.
\<close>

type_synonym ('k, 'v) hmap = "('k \<times> 'v) list"

abbreviation hm_get :: "('k, 'v) hmap \<Rightarrow> 'k \<Rightarrow> 'v option" where
  "hm_get m k \<equiv> map_of m k"

abbreviation hm_insert :: "'k \<Rightarrow> 'v \<Rightarrow> ('k, 'v) hmap \<Rightarrow> ('k, 'v) hmap" where
  "hm_insert k v m \<equiv> AList.update k v m"

abbreviation hm_remove :: "'k \<Rightarrow> ('k, 'v) hmap \<Rightarrow> ('k, 'v) hmap" where
  "hm_remove k m \<equiv> AList.delete k m"

abbreviation hm_keys :: "('k, 'v) hmap \<Rightarrow> 'k list" where
  "hm_keys m \<equiv> map fst m"

abbreviation hm_wf :: "('k, 'v) hmap \<Rightarrow> bool" where
  "hm_wf m \<equiv> distinct (map fst m)"

definition hm_contains :: "('k, 'v) hmap \<Rightarrow> 'k \<Rightarrow> bool" where
  "hm_contains m k = (hm_get m k \<noteq> None)"

text \<open>\<open>entry(k).or_insert(d)\<close> followed by an in-place update of the value.\<close>

definition hm_upsert :: "'k \<Rightarrow> 'v \<Rightarrow> ('v \<Rightarrow> 'v) \<Rightarrow> ('k, 'v) hmap \<Rightarrow> ('k, 'v) hmap" where
  "hm_upsert k d f m = hm_insert k (f (case hm_get m k of None \<Rightarrow> d | Some v \<Rightarrow> v)) m"

text \<open>The contract that the components rely on, and what follows from it.\<close>

locale hash_map =
  fixes empty :: 'm
    and get :: "'m \<Rightarrow> 'k \<Rightarrow> 'v option"
    and insert :: "'k \<Rightarrow> 'v \<Rightarrow> 'm \<Rightarrow> 'm"
    and remove :: "'k \<Rightarrow> 'm \<Rightarrow> 'm"
    and invar :: "'m \<Rightarrow> bool"
  assumes get_empty: "get empty k = None"
    and get_insert: "get (insert k v m) j = (if j = k then Some v else get m j)"
    and get_remove: "get (remove k m) j = (if j = k then None else get m j)"
    and invar_empty: "invar empty"
    and invar_insert: "invar m \<Longrightarrow> invar (insert k v m)"
    and invar_remove: "invar m \<Longrightarrow> invar (remove k m)"
begin

lemma get_insert_remove: "get (insert k v (remove k m)) j = get (insert k v m) j"
  by (simp add: get_insert get_remove)

lemma get_inserts:
  "get (fold (\<lambda>(k, v). insert k v) kvs m) j =
     (case map_of (rev kvs) j of None \<Rightarrow> get m j | Some v \<Rightarrow> Some v)"
proof (induction kvs arbitrary: m)
  case (Cons kv kvs)
  then show ?case
    by (cases kv) (auto simp: get_insert map_add_def split: option.splits)
qed simp

lemma get_removes:
  "get (fold remove ks m) j = (if j \<in> set ks then None else get m j)"
  by (induction ks arbitrary: m) (auto simp: get_remove)

lemma invar_removes: "invar m \<Longrightarrow> invar (fold remove ks m)"
  by (induction ks arbitrary: m) (auto simp: invar_remove)

end

lemma hm_get_insert [simp, hm_simps]:
  "hm_get (hm_insert k v m) j = (if j = k then Some v else hm_get m j)"
  by (simp add: update_conv)

lemma hm_get_remove [simp, hm_simps]:
  "hm_get (hm_remove k m) j = (if j = k then None else hm_get m j)"
  by (simp add: delete_conv)

interpretation hm: hash_map "[]" hm_get hm_insert hm_remove hm_wf
  by unfold_locales (auto simp: distinct_update distinct_delete)

lemma hm_contains_insert [simp, hm_simps]:
  "hm_contains (hm_insert k v m) j \<longleftrightarrow> j = k \<or> hm_contains m j"
  by (simp add: hm_contains_def)

lemma hm_contains_remove [simp, hm_simps]:
  "hm_contains (hm_remove k m) j \<longleftrightarrow> j \<noteq> k \<and> hm_contains m j"
  by (simp add: hm_contains_def)

lemma hm_contains_iff: "hm_contains m k \<longleftrightarrow> k \<in> set (hm_keys m)"
  by (simp add: hm_contains_def map_of_eq_None_iff)

lemma hm_get_upsert [simp, hm_simps]:
  "hm_get (hm_upsert k d f m) j =
     (if j = k then Some (f (case hm_get m k of None \<Rightarrow> d | Some v \<Rightarrow> v)) else hm_get m j)"
  by (simp add: hm_upsert_def)

lemma hm_wf_upsert [simp, intro]: "hm_wf m \<Longrightarrow> hm_wf (hm_upsert k d f m)"
  by (simp add: hm_upsert_def distinct_update)

lemma hm_wf_insert [simp, intro]: "hm_wf m \<Longrightarrow> hm_wf (hm_insert k v m)"
  by (rule hm.invar_insert)

lemma hm_wf_remove [simp, intro]: "hm_wf m \<Longrightarrow> hm_wf (hm_remove k m)"
  by (rule hm.invar_remove)

lemma hm_remove_id: "hm_get m k = None \<Longrightarrow> hm_remove k m = m"
  by (simp add: delete_idem map_of_eq_None_iff)

lemma hm_get_mem: "hm_wf m \<Longrightarrow> (k, v) \<in> set m \<longleftrightarrow> hm_get m k = Some v"
  by (auto dest: map_of_SomeD)

lemma hm_get_filter:
  "hm_wf m \<Longrightarrow> hm_get (filter P m) k =
     (case hm_get m k of None \<Rightarrow> None | Some v \<Rightarrow> if P (k, v) then Some v else None)"
  by (induction m) (auto simp: map_of_eq_None_iff image_iff split: option.splits)

lemma hm_wf_filter [simp, intro]: "hm_wf m \<Longrightarrow> hm_wf (filter P m)"
  by (induction m) auto

lemma snd_set_insert: "snd ` set (hm_insert k v m) \<subseteq> insert v (snd ` set m)"
  by (induction m) auto

lemma snd_set_remove: "snd ` set (hm_remove k m) \<subseteq> snd ` set m"
  by (induction m) auto

text \<open>Sums over the values of a table.\<close>

definition hm_sum :: "('v \<Rightarrow> nat) \<Rightarrow> ('k, 'v) hmap \<Rightarrow> nat" where
  "hm_sum f m = sum_list (map (f \<circ> snd) m)"

lemma hm_sum_Nil [simp]: "hm_sum f [] = 0"
  by (simp add: hm_sum_def)

lemma hm_sum_insert:
  "hm_sum f (hm_insert k v m) + (case hm_get m k of None \<Rightarrow> 0 | Some p \<Rightarrow> f p) = hm_sum f m + f v"
  by (induction m) (auto simp: hm_sum_def split: option.splits)

lemma hm_sum_remove:
  "hm_wf m \<Longrightarrow>
     hm_sum f (hm_remove k m) + (case hm_get m k of None \<Rightarrow> 0 | Some p \<Rightarrow> f p) = hm_sum f m"
proof (induction m)
  case (Cons kv m)
  then show ?case
    using hm_remove_id [of m k] by (cases kv) (auto simp: hm_sum_def map_of_eq_None_iff split: option.splits)
qed simp

lemma hm_sum_get_le: "hm_get m k = Some v \<Longrightarrow> f v \<le> hm_sum f m"
  by (induction m) (auto simp: hm_sum_def split: if_splits)

section \<open>Wire codecs\<close>

text \<open>
  \<open>decode\<close> inverts \<open>encode\<close>; with \<open>prefix_codec\<close> also when more bytes follow, which is how every
  hand-written decoder of the crates reads its buffer.
\<close>

locale codec =
  fixes encode :: "'a \<Rightarrow> bytes"
    and decode :: "bytes \<Rightarrow> ('e, 'a) result"
    and ok :: "'a \<Rightarrow> bool"
  assumes round_trip: "ok x \<Longrightarrow> decode (encode x) = Inr x"
begin

lemma encode_inj: "ok x \<Longrightarrow> ok y \<Longrightarrow> encode x = encode y \<Longrightarrow> x = y"
  by (metis round_trip sum.inject(2))

end

locale prefix_codec =
  fixes encode :: "'a \<Rightarrow> bytes"
    and decode :: "bytes \<Rightarrow> ('e, 'a) result"
    and ok :: "'a \<Rightarrow> bool"
  assumes prefix_round_trip: "ok x \<Longrightarrow> decode (encode x @ rest) = Inr x"
begin

lemma prefix_free:
  assumes "ok x" "ok y" "encode x @ r = encode y @ s"
  shows "x = y \<and> r = s"
proof -
  have "x = y"
    using assms by (metis prefix_round_trip sum.inject(2))
  with assms show ?thesis by simp
qed

end

sublocale prefix_codec \<subseteq> codec encode decode ok
proof
  show "decode (encode x) = Inr x" if "ok x" for x
    using prefix_round_trip [OF that, of "[]"] by simp
qed

text \<open>A decoder that accepts nothing but encodings (followed by anything).\<close>

locale strict_codec = prefix_codec encode decode ok
  for encode :: "'a \<Rightarrow> bytes" and decode :: "bytes \<Rightarrow> ('e, 'a) result" and ok :: "'a \<Rightarrow> bool" +
  assumes decode_sound: "decode buf = Inr x \<Longrightarrow> ok x \<and> (\<exists>rest. buf = encode x @ rest)"
begin

lemma decode_iff: "decode buf = Inr x \<longleftrightarrow> ok x \<and> (\<exists>rest. buf = encode x @ rest)"
  using decode_sound prefix_round_trip by blast

lemma truncation_rejected:
  assumes "ok x" and "k < length (encode x)"
  shows "\<exists>e. decode (take k (encode x)) = Inl e"
proof (cases "decode (take k (encode x))")
  case (Inr y)
  then obtain r where y: "ok y" and r: "take k (encode x) = encode y @ r"
    using decode_sound by blast
  have "encode x = take k (encode x) @ drop k (encode x)"
    by simp
  then have "encode x @ [] = encode y @ (r @ drop k (encode x))"
    by (simp add: r)
  then have "x = y \<and> [] = r @ drop k (encode x)"
    by (rule prefix_free [OF assms(1) y])
  with assms(2) have False by auto
  then show ?thesis ..
qed blast

end

end
