(* ===== verification/Ids.thy ===== *)
theory Ids
imports Rayd_Prelude
begin

text \<open>
  The identifiers of \<open>rayd-core/src/id.rs\<close> and the references of \<open>object_ref.rs\<close>.  A fixed-width
  byte array is a byte list; the \<open>wf\<close> predicates state its width.  The \<open>hex\<close> crate is a parameter
  of the hexadecimal conversions (\<open>hex_encode\<close>, \<open>hex_decode\<close>, and its error type).
\<close>

section \<open>Identifiers\<close>

datatype 'h IdParseError = WrongLength nat nat | Hex 'h

text \<open>The body of the \<open>define_id!\<close> macro, over the byte array of the newtype.\<close>

definition id_hex :: "(bytes \<Rightarrow> bytes) \<Rightarrow> bytes \<Rightarrow> bytes" where
  "id_hex hex_encode self = hex_encode self"

definition id_from_hex ::
  "(bytes \<Rightarrow> ('h, bytes) result) \<Rightarrow> nat \<Rightarrow> bytes \<Rightarrow> ('h IdParseError, bytes) result" where
  "id_from_hex hex_decode sz s =
     (case hex_decode s of
        Inl e \<Rightarrow> Inl (Hex e)
      | Inr bs \<Rightarrow> if length bs \<noteq> sz then Inl (WrongLength sz (length bs)) else Inr bs)"

definition id_nil :: "nat \<Rightarrow> bytes" where
  "id_nil sz = replicate sz 0"

definition id_is_nil :: "nat \<Rightarrow> bytes \<Rightarrow> bool" where
  "id_is_nil sz self \<longleftrightarrow> self = replicate sz 0"

datatype JobId = JobId (JobId_bytes: bytes)
datatype TaskId = TaskId (TaskId_bytes: bytes)
datatype WorkerId = WorkerId (WorkerId_bytes: bytes)
datatype ActorId = ActorId (ActorId_bytes: bytes)
datatype ObjectId = ObjectId (ObjectId_bytes: bytes)

definition JobId_SIZE :: nat where "JobId_SIZE = 16"
definition TaskId_SIZE :: nat where "TaskId_SIZE = 24"
definition WorkerId_SIZE :: nat where "WorkerId_SIZE = 16"
definition ActorId_SIZE :: nat where "ActorId_SIZE = 16"
definition ObjectId_SIZE :: nat where "ObjectId_SIZE = 28"

definition wf_job_id :: "JobId \<Rightarrow> bool" where
  "wf_job_id j \<longleftrightarrow> length (JobId_bytes j) = JobId_SIZE"

definition wf_task_id :: "TaskId \<Rightarrow> bool" where
  "wf_task_id t \<longleftrightarrow> length (TaskId_bytes t) = TaskId_SIZE"

definition wf_worker_id :: "WorkerId \<Rightarrow> bool" where
  "wf_worker_id w \<longleftrightarrow> length (WorkerId_bytes w) = WorkerId_SIZE"

definition wf_actor_id :: "ActorId \<Rightarrow> bool" where
  "wf_actor_id a \<longleftrightarrow> length (ActorId_bytes a) = ActorId_SIZE"

definition wf_object_id :: "ObjectId \<Rightarrow> bool" where
  "wf_object_id i \<longleftrightarrow> length (ObjectId_bytes i) = ObjectId_SIZE"

definition JobId_from_hex ::
  "(bytes \<Rightarrow> ('h, bytes) result) \<Rightarrow> bytes \<Rightarrow> ('h IdParseError, JobId) result" where
  "JobId_from_hex hex_decode s = map_ok JobId (id_from_hex hex_decode JobId_SIZE s)"

definition TaskId_from_hex ::
  "(bytes \<Rightarrow> ('h, bytes) result) \<Rightarrow> bytes \<Rightarrow> ('h IdParseError, TaskId) result" where
  "TaskId_from_hex hex_decode s = map_ok TaskId (id_from_hex hex_decode TaskId_SIZE s)"

definition WorkerId_from_hex ::
  "(bytes \<Rightarrow> ('h, bytes) result) \<Rightarrow> bytes \<Rightarrow> ('h IdParseError, WorkerId) result" where
  "WorkerId_from_hex hex_decode s = map_ok WorkerId (id_from_hex hex_decode WorkerId_SIZE s)"

definition ActorId_from_hex ::
  "(bytes \<Rightarrow> ('h, bytes) result) \<Rightarrow> bytes \<Rightarrow> ('h IdParseError, ActorId) result" where
  "ActorId_from_hex hex_decode s = map_ok ActorId (id_from_hex hex_decode ActorId_SIZE s)"

definition WorkerId_nil :: WorkerId where
  "WorkerId_nil = WorkerId (id_nil WorkerId_SIZE)"

definition WorkerId_is_nil :: "WorkerId \<Rightarrow> bool" where
  "WorkerId_is_nil w = id_is_nil WorkerId_SIZE (WorkerId_bytes w)"

subsection \<open>Object identifiers\<close>

text \<open>24 bytes of task id, then the return index in little-endian order.\<close>

definition for_return :: "TaskId \<Rightarrow> u32 \<Rightarrow> ObjectId" where
  "for_return task return_index = ObjectId (TaskId_bytes task @ u32_to_le_bytes return_index)"

definition task_id :: "ObjectId \<Rightarrow> TaskId" where
  "task_id self = TaskId (take 24 (ObjectId_bytes self))"

definition job_id :: "ObjectId \<Rightarrow> JobId" where
  "job_id self = JobId (take 16 (ObjectId_bytes self))"

definition return_index :: "ObjectId \<Rightarrow> u32" where
  "return_index self = u32_from_le_bytes (drop 24 (ObjectId_bytes self))"

definition ObjectId_hex :: "(bytes \<Rightarrow> bytes) \<Rightarrow> ObjectId \<Rightarrow> bytes" where
  "ObjectId_hex hex_encode self = hex_encode (ObjectId_bytes self)"

definition ObjectId_from_hex ::
  "(bytes \<Rightarrow> ('h, bytes) result) \<Rightarrow> bytes \<Rightarrow> ('h IdParseError, ObjectId) result" where
  "ObjectId_from_hex hex_decode s =
     (case hex_decode s of
        Inl e \<Rightarrow> Inl (Hex e)
      | Inr bs \<Rightarrow>
          if length bs \<noteq> ObjectId_SIZE then Inl (WrongLength ObjectId_SIZE (length bs))
          else Inr (ObjectId bs))"

definition ObjectId_nil :: ObjectId where
  "ObjectId_nil = ObjectId (replicate 28 0)"

definition ObjectId_is_nil :: "ObjectId \<Rightarrow> bool" where
  "ObjectId_is_nil self \<longleftrightarrow> ObjectId_bytes self = replicate 28 0"

text \<open>The derived \<open>Ord\<close>: lexicographic on the bytes.\<close>

instantiation ObjectId :: linorder
begin

definition less_eq_ObjectId :: "ObjectId \<Rightarrow> ObjectId \<Rightarrow> bool" where
  "less_eq_ObjectId a b \<longleftrightarrow> ObjectId_bytes a \<le> ObjectId_bytes b"

definition less_ObjectId :: "ObjectId \<Rightarrow> ObjectId \<Rightarrow> bool" where
  "less_ObjectId a b \<longleftrightarrow> ObjectId_bytes a < ObjectId_bytes b"

instance
  by intro_classes
    (auto simp: less_eq_ObjectId_def less_ObjectId_def ObjectId.expand)

end

section \<open>Addresses and object references\<close>

record Address =
  host :: bytes
  port :: u16
  worker_id :: WorkerId

definition Address_new :: "bytes \<Rightarrow> u16 \<Rightarrow> WorkerId \<Rightarrow> Address" where
  "Address_new h p w = \<lparr>host = h, port = p, worker_id = w\<rparr>"

definition is_resolved :: "Address \<Rightarrow> bool" where
  "is_resolved self \<longleftrightarrow> \<not> WorkerId_is_nil (worker_id self)"

record ObjectRef =
  ref_object_id :: ObjectId
  ref_owner :: Address
  ref_owner_node_id :: "bytes option"

definition ObjectRef_new :: "ObjectId \<Rightarrow> Address \<Rightarrow> ObjectRef" where
  "ObjectRef_new i o' = \<lparr>ref_object_id = i, ref_owner = o', ref_owner_node_id = None\<rparr>"

definition with_owner_node_id :: "bytes \<Rightarrow> ObjectRef \<Rightarrow> ObjectRef" where
  "with_owner_node_id node_id self = self\<lparr>ref_owner_node_id := Some node_id\<rparr>"

section \<open>Lemmas\<close>

lemmas id_size_defs =
  JobId_SIZE_def TaskId_SIZE_def WorkerId_SIZE_def ActorId_SIZE_def ObjectId_SIZE_def

lemma wf_for_return [simp, intro]: "wf_task_id t \<Longrightarrow> wf_object_id (for_return t i)"
  by (simp add: wf_task_id_def wf_object_id_def for_return_def id_size_defs)

lemma task_id_for_return [simp]: "wf_task_id t \<Longrightarrow> task_id (for_return t i) = t"
  by (simp add: wf_task_id_def for_return_def task_id_def id_size_defs)

lemma return_index_for_return [simp]: "wf_task_id t \<Longrightarrow> return_index (for_return t i) = i"
  by (simp add: wf_task_id_def for_return_def return_index_def id_size_defs)

lemma for_return_inject [simp]:
  "wf_task_id t \<Longrightarrow> wf_task_id u \<Longrightarrow> for_return t i = for_return u j \<longleftrightarrow> t = u \<and> i = j"
  by (metis task_id_for_return return_index_for_return)

lemma job_id_for_return [simp]:
  "wf_task_id t \<Longrightarrow> job_id (for_return t i) = JobId (take 16 (TaskId_bytes t))"
  by (simp add: wf_task_id_def for_return_def job_id_def id_size_defs)

lemma for_return_parts: "wf_object_id o' \<Longrightarrow> for_return (task_id o') (return_index o') = o'"
  by (simp add: wf_object_id_def for_return_def task_id_def return_index_def id_size_defs)

lemma wf_task_id_of_object [simp, intro]: "wf_object_id o' \<Longrightarrow> wf_task_id (task_id o')"
  by (simp add: wf_object_id_def wf_task_id_def task_id_def id_size_defs)

lemma ObjectId_from_hex_wf: "ObjectId_from_hex dec s = Inr i \<Longrightarrow> wf_object_id i"
  by (auto simp: ObjectId_from_hex_def wf_object_id_def split: sum.splits if_splits)

lemma id_from_hex_length: "id_from_hex dec n s = Inr b \<Longrightarrow> length b = n"
  by (auto simp: id_from_hex_def split: sum.splits if_splits)

lemma is_resolved_new [simp]:
  "is_resolved (Address_new h p w) \<longleftrightarrow> WorkerId_bytes w \<noteq> replicate 16 0"
  by (simp add: is_resolved_def Address_new_def WorkerId_is_nil_def id_is_nil_def id_size_defs)

section \<open>Properties\<close>

text \<open>An object id names its task and its return slot: \<open>for_return\<close> is injective on (task id, index),
  and \<open>task_id\<close>, \<open>return_index\<close> and \<open>job_id\<close> recover the parts it was built from.\<close>

lemma object_id_identifies_return:
  assumes "wf_task_id t" and "wf_task_id u"
  shows "(for_return t i = for_return u j \<longleftrightarrow> t = u \<and> i = j)
    \<and> wf_object_id (for_return t i) \<and> task_id (for_return t i) = t \<and> return_index (for_return t i) = i
    \<and> job_id (for_return t i) = JobId (take 16 (TaskId_bytes t))"
  using assms by simp

lemma object_id_identifies_return_witness:
  "wf_task_id (TaskId (replicate 24 1)) \<and> wf_task_id (TaskId (replicate 24 2))
   \<and> return_index (for_return (TaskId (replicate 24 1)) 7) = 7
   \<and> for_return (TaskId (replicate 24 1)) 7 \<noteq> for_return (TaskId (replicate 24 2)) 7"
  using object_id_identifies_return [of "TaskId (replicate 24 1)" "TaskId (replicate 24 2)" 7 7]
  by (simp add: wf_task_id_def TaskId_SIZE_def numeral_eq_Suc)

end
