(* ===== verification/Metadata_Codec.thy ===== *)
theory Metadata_Codec
imports Ids
begin

text \<open>
  What travels with every stored value: \<open>metadata.rs\<close>, \<open>error_info.rs\<close>, \<open>error_payload.rs\<close> and
  \<open>ray_object.rs\<close> of \<open>rayd-core\<close>.  Both wire formats are translated byte for byte.  A Rust
  \<open>String\<close> is its byte list; \<open>valid_utf8\<close> is the invariant of the type.  Reading from
  \<open>&mut &[u8]\<close> returns the remaining buffer; the \<open>expect\<close> calls of the encoder, which panic from
  \<open>2 ^ 32\<close> bytes on, are the value \<open>None\<close>.
\<close>

section \<open>Reference states and error categories\<close>

datatype RefState = Pending | ReadyLocal | ReadyRemote | Failed

definition is_ready :: "RefState \<Rightarrow> bool" where
  "is_ready self = (case self of ReadyLocal \<Rightarrow> True | ReadyRemote \<Rightarrow> True | Failed \<Rightarrow> True | _ \<Rightarrow> False)"

definition is_failed :: "RefState \<Rightarrow> bool" where
  "is_failed self = (case self of Failed \<Rightarrow> True | _ \<Rightarrow> False)"

datatype ErrorCategory =
    TaskException
  | WorkerDied
  | ActorDied
  | OwnerDied
  | TaskCancelled
  | ObjectLost
  | ObjectUnreconstructable
  | FetchTimeout
  | RuntimeEnvFailed
  | Unschedulable
  | OutOfMemory

fun as_byte :: "ErrorCategory \<Rightarrow> byte" where
  "as_byte TaskException = 1"
| "as_byte WorkerDied = 2"
| "as_byte ActorDied = 3"
| "as_byte OwnerDied = 4"
| "as_byte TaskCancelled = 5"
| "as_byte ObjectLost = 6"
| "as_byte ObjectUnreconstructable = 7"
| "as_byte FetchTimeout = 8"
| "as_byte RuntimeEnvFailed = 9"
| "as_byte Unschedulable = 10"
| "as_byte OutOfMemory = 11"

datatype MetadataDecodeError =
    Empty
  | UnknownDiscriminator byte
  | MetadataTruncated nat nat
  | UnknownErrorCategory byte

definition from_byte :: "byte \<Rightarrow> (MetadataDecodeError, ErrorCategory) result" where
  "from_byte b =
    (if b = 1 then Inr TaskException
     else if b = 2 then Inr WorkerDied
     else if b = 3 then Inr ActorDied
     else if b = 4 then Inr OwnerDied
     else if b = 5 then Inr TaskCancelled
     else if b = 6 then Inr ObjectLost
     else if b = 7 then Inr ObjectUnreconstructable
     else if b = 8 then Inr FetchTimeout
     else if b = 9 then Inr RuntimeEnvFailed
     else if b = 10 then Inr Unschedulable
     else if b = 11 then Inr OutOfMemory
     else Inl (UnknownErrorCategory b))"

section \<open>Metadata headers\<close>

datatype Metadata = Pickle5 bool | Raw | ActorHandle | Error ErrorCategory u16

definition DISCRIMINATOR_PICKLE5 :: byte where "DISCRIMINATOR_PICKLE5 = 1"
definition DISCRIMINATOR_RAW :: byte where "DISCRIMINATOR_RAW = 2"
definition DISCRIMINATOR_ACTOR_HANDLE :: byte where "DISCRIMINATOR_ACTOR_HANDLE = 3"
definition DISCRIMINATOR_ERROR :: byte where "DISCRIMINATOR_ERROR = 16"

fun encode :: "Metadata \<Rightarrow> bytes" where
  "encode (Pickle5 has_nested_refs) = [DISCRIMINATOR_PICKLE5, of_bool has_nested_refs]"
| "encode Raw = [DISCRIMINATOR_RAW]"
| "encode ActorHandle = [DISCRIMINATOR_ACTOR_HANDLE]"
| "encode (Error category raw_code) =
     (let bs = u16_to_le_bytes raw_code
      in [DISCRIMINATOR_ERROR, as_byte category, bs ! 0, bs ! 1])"

definition decode :: "bytes \<Rightarrow> (MetadataDecodeError, Metadata) result" where
  "decode buf =
    (case buf of
       [] \<Rightarrow> Inl Empty
     | disc # _ \<Rightarrow>
         if disc = DISCRIMINATOR_PICKLE5 then
           (if length buf < 2 then Inl (MetadataTruncated 2 (length buf))
            else Inr (Pickle5 (buf ! 1 \<noteq> 0)))
         else if disc = DISCRIMINATOR_RAW then Inr Raw
         else if disc = DISCRIMINATOR_ACTOR_HANDLE then Inr ActorHandle
         else if disc = DISCRIMINATOR_ERROR then
           (if length buf < 4 then Inl (MetadataTruncated 4 (length buf))
            else (case from_byte (buf ! 1) of
                    Inl e \<Rightarrow> Inl e
                  | Inr category \<Rightarrow>
                      Inr (Error category (u16_from_le_bytes [buf ! 2, buf ! 3]))))
         else Inl (UnknownDiscriminator disc))"

definition is_error :: "Metadata \<Rightarrow> bool" where
  "is_error self = (case self of Error _ _ \<Rightarrow> True | _ \<Rightarrow> False)"

definition error_category :: "Metadata \<Rightarrow> ErrorCategory option" where
  "error_category self = (case self of Error category _ \<Rightarrow> Some category | _ \<Rightarrow> None)"

section \<open>Error summaries and stored objects\<close>

definition RAW_CODE_UNSPECIFIED :: u16 where "RAW_CODE_UNSPECIFIED = 0"

record ErrorInfo =
  info_category :: ErrorCategory
  info_message :: bytes
  info_traceback :: "bytes option"
  info_raw_code :: u16

definition ErrorInfo_new :: "ErrorCategory \<Rightarrow> bytes \<Rightarrow> ErrorInfo" where
  "ErrorInfo_new c m =
     \<lparr>info_category = c, info_message = m, info_traceback = None,
      info_raw_code = RAW_CODE_UNSPECIFIED\<rparr>"

definition ErrorInfo_with_traceback :: "bytes \<Rightarrow> ErrorInfo \<Rightarrow> ErrorInfo" where
  "ErrorInfo_with_traceback tb self = self\<lparr>info_traceback := Some tb\<rparr>"

definition ErrorInfo_with_raw_code :: "u16 \<Rightarrow> ErrorInfo \<Rightarrow> ErrorInfo" where
  "ErrorInfo_with_raw_code c self = self\<lparr>info_raw_code := c\<rparr>"

record RayObject =
  obj_metadata :: Metadata
  obj_data :: bytes
  obj_nested_refs :: "ObjectRef list"

definition RayObject_new :: "Metadata \<Rightarrow> bytes \<Rightarrow> RayObject" where
  "RayObject_new m d = \<lparr>obj_metadata = m, obj_data = d, obj_nested_refs = []\<rparr>"

definition RayObject_is_error :: "RayObject \<Rightarrow> bool" where
  "RayObject_is_error self = is_error (obj_metadata self)"

definition size_bytes :: "RayObject \<Rightarrow> nat" where
  "size_bytes self =
     (case obj_metadata self of
        Pickle5 _ \<Rightarrow> 2 | Raw \<Rightarrow> 1 | ActorHandle \<Rightarrow> 1 | Error _ _ \<Rightarrow> 4)
     + length (obj_data self)"

section \<open>Error payloads\<close>

datatype ErrorPayloadCodecError =
    PayloadTruncated nat
  | LengthOverflow u64 nat
  | InvalidUtf8
  | InvalidFlag byte

record ErrorPayload =
  message :: bytes
  traceback :: "bytes option"
  raw_code :: u16
  pickled_python_exception :: "bytes option"

definition ErrorPayload_new :: "bytes \<Rightarrow> ErrorPayload" where
  "ErrorPayload_new m =
     \<lparr>message = m, traceback = None, raw_code = 0, pickled_python_exception = None\<rparr>"

definition with_traceback :: "bytes \<Rightarrow> ErrorPayload \<Rightarrow> ErrorPayload" where
  "with_traceback tb self = self\<lparr>traceback := Some tb\<rparr>"

definition with_raw_code :: "u16 \<Rightarrow> ErrorPayload \<Rightarrow> ErrorPayload" where
  "with_raw_code c self = self\<lparr>raw_code := c\<rparr>"

definition with_pickled_exception :: "bytes \<Rightarrow> ErrorPayload \<Rightarrow> ErrorPayload" where
  "with_pickled_exception p self = self\<lparr>pickled_python_exception := Some p\<rparr>"

text \<open>The capacity the encoder reserves, and the bytes it writes.\<close>

definition payload_capacity :: "ErrorPayload \<Rightarrow> nat" where
  "payload_capacity self =
     4 + length (message self) + 1
     + (case traceback self of None \<Rightarrow> 0 | Some t \<Rightarrow> 4 + length t)
     + 2 + 1
     + (case pickled_python_exception self of None \<Rightarrow> 0 | Some b \<Rightarrow> 4 + length b)"

definition put_prefixed :: "bytes \<Rightarrow> bytes option" where
  "put_prefixed bs =
     (case u32_try_from (length bs) of
        None \<Rightarrow> None | Some n \<Rightarrow> Some (u32_to_le_bytes n @ bs))"

definition put_optional :: "bytes option \<Rightarrow> bytes option" where
  "put_optional sec =
     (case sec of
        None \<Rightarrow> Some [0]
      | Some bs \<Rightarrow> (case put_prefixed bs of None \<Rightarrow> None | Some e \<Rightarrow> Some (1 # e)))"

definition payload_encode :: "ErrorPayload \<Rightarrow> bytes option" where
  "payload_encode self =
     (case put_prefixed (message self) of
        None \<Rightarrow> None
      | Some m \<Rightarrow>
          (case put_optional (traceback self) of
             None \<Rightarrow> None
           | Some t \<Rightarrow>
               (case put_optional (pickled_python_exception self) of
                  None \<Rightarrow> None
                | Some p \<Rightarrow> Some (m @ t @ u16_to_le_bytes (raw_code self) @ p))))"

type_synonym 'a reader = "bytes \<Rightarrow> (ErrorPayloadCodecError, 'a \<times> bytes) result"

definition ensure :: "bytes \<Rightarrow> nat \<Rightarrow> (ErrorPayloadCodecError, unit) result" where
  "ensure buf needed =
     (if length buf < needed then Inl (PayloadTruncated (needed - length buf)) else Inr ())"

definition read_u16_le :: "u16 reader" where
  "read_u16_le buf =
     (case ensure buf 2 of
        Inl e \<Rightarrow> Inl e
      | Inr _ \<Rightarrow> Inr (u16_from_le_bytes (take 2 buf), drop 2 buf))"

definition read_u32_le :: "u32 reader" where
  "read_u32_le buf =
     (case ensure buf 4 of
        Inl e \<Rightarrow> Inl e
      | Inr _ \<Rightarrow> Inr (u32_from_le_bytes (take 4 buf), drop 4 buf))"

definition read_flag :: "bool reader" where
  "read_flag buf =
     (case ensure buf 1 of
        Inl e \<Rightarrow> Inl e
      | Inr _ \<Rightarrow>
          (let v = buf ! 0
           in if v = 0 then Inr (False, drop 1 buf)
              else if v = 1 then Inr (True, drop 1 buf)
              else Inl (InvalidFlag v)))"

definition read_length_prefixed :: "bytes reader" where
  "read_length_prefixed buf =
     (case read_u32_le buf of
        Inl e \<Rightarrow> Inl e
      | Inr (n, rest) \<Rightarrow>
          (let len = unat n
           in if length rest < len then Inl (LengthOverflow (of_nat len) (length rest))
              else Inr (take len rest, drop len rest)))"

definition read_string :: "bytes reader" where
  "read_string buf =
     (case read_length_prefixed buf of
        Inl e \<Rightarrow> Inl e
      | Inr (bs, rest) \<Rightarrow> if valid_utf8 bs then Inr (bs, rest) else Inl InvalidUtf8)"

definition read_bytes :: "bytes reader" where
  "read_bytes buf = read_length_prefixed buf"

definition read_optional :: "bytes reader \<Rightarrow> bytes option reader" where
  "read_optional rd buf =
     (case read_flag buf of
        Inl e \<Rightarrow> Inl e
      | Inr (present, rest) \<Rightarrow>
          if present then
            (case rd rest of Inl e \<Rightarrow> Inl e | Inr (x, rest') \<Rightarrow> Inr (Some x, rest'))
          else Inr (None, rest))"

definition payload_decode :: "bytes \<Rightarrow> (ErrorPayloadCodecError, ErrorPayload) result" where
  "payload_decode input =
     (case read_string input of
        Inl e \<Rightarrow> Inl e
      | Inr (m, b1) \<Rightarrow>
          (case read_optional read_string b1 of
             Inl e \<Rightarrow> Inl e
           | Inr (tb, b2) \<Rightarrow>
               (case read_u16_le b2 of
                  Inl e \<Rightarrow> Inl e
                | Inr (code, b3) \<Rightarrow>
                    (case read_optional read_bytes b3 of
                       Inl e \<Rightarrow> Inl e
                     | Inr (pick, b4) \<Rightarrow>
                         Inr \<lparr>message = m, traceback = tb, raw_code = code,
                              pickled_python_exception = pick\<rparr>))))"

text \<open>The type invariant of the payload: its strings are UTF-8.\<close>

definition wf_payload :: "ErrorPayload \<Rightarrow> bool" where
  "wf_payload p \<longleftrightarrow> valid_utf8 (message p) \<and>
     (case traceback p of None \<Rightarrow> True | Some t \<Rightarrow> valid_utf8 t)"

section \<open>Lemmas on metadata headers\<close>

lemmas discriminator_defs =
  DISCRIMINATOR_PICKLE5_def DISCRIMINATOR_RAW_def DISCRIMINATOR_ACTOR_HANDLE_def
  DISCRIMINATOR_ERROR_def

lemma from_byte_as_byte [simp]: "from_byte (as_byte c) = Inr c"
  by (cases c) (simp_all add: from_byte_def)

lemma from_byte_iff: "from_byte b = Inr c \<longleftrightarrow> b = as_byte c"
proof
  assume "from_byte b = Inr c"
  then show "b = as_byte c" by (auto simp: from_byte_def split: if_splits)
qed simp

lemma u16_le_bytes_nth: "[u16_to_le_bytes w ! 0, u16_to_le_bytes w ! 1] = u16_to_le_bytes w"
  by (simp add: u16_to_le_bytes_def numeral_2_eq_2)

lemma u16_from_le_bytes_nth [simp]:
  "u16_from_le_bytes [u16_to_le_bytes w ! 0, u16_to_le_bytes w ! 1] = w"
  by (simp only: u16_le_bytes_nth u16_le_round_trip)

lemma decode_encode_append: "decode (encode m @ rest) = Inr m"
  by (cases m) (auto simp: decode_def discriminator_defs Let_def simp del: One_nat_def)

interpretation metadata: prefix_codec encode decode "\<lambda>_. True"
  by unfold_locales (simp add: decode_encode_append)

lemma length_encode:
  "length (encode m) = (case m of Pickle5 _ \<Rightarrow> 2 | Raw \<Rightarrow> 1 | ActorHandle \<Rightarrow> 1 | Error _ _ \<Rightarrow> 4)"
  by (cases m) (simp_all add: Let_def)

lemma encode_nonempty [simp]: "encode m \<noteq> []"
  by (cases m) (simp_all add: Let_def)

section \<open>Lemmas on error payloads\<close>

lemma read_u16_le_iff: "read_u16_le buf = Inr (w, r) \<longleftrightarrow> buf = u16_to_le_bytes w @ r"
proof
  assume "read_u16_le buf = Inr (w, r)"
  then have len: "2 \<le> length buf" and w: "w = u16_from_le_bytes (take 2 buf)" and "r = drop 2 buf"
    by (auto simp: read_u16_le_def ensure_def split: if_splits)
  then show "buf = u16_to_le_bytes w @ r" by simp
qed (simp add: read_u16_le_def ensure_def)

lemma read_u32_le_iff: "read_u32_le buf = Inr (w, r) \<longleftrightarrow> buf = u32_to_le_bytes w @ r"
proof
  assume "read_u32_le buf = Inr (w, r)"
  then have len: "4 \<le> length buf" and w: "w = u32_from_le_bytes (take 4 buf)" and "r = drop 4 buf"
    by (auto simp: read_u32_le_def ensure_def split: if_splits)
  then show "buf = u32_to_le_bytes w @ r" by simp
qed (simp add: read_u32_le_def ensure_def)

lemma read_flag_iff: "read_flag buf = Inr (f, r) \<longleftrightarrow> buf = of_bool f # r"
  by (cases buf; cases f) (auto simp: read_flag_def ensure_def)

lemma put_prefixed_Some:
  "put_prefixed bs = Some e \<longleftrightarrow> length bs < 2 ^ 32 \<and> e = u32_to_le_bytes (of_nat (length bs)) @ bs"
  by (auto simp: put_prefixed_def u32_try_from_def)

lemma read_length_prefixed_iff:
  "read_length_prefixed buf = Inr (bs, r) \<longleftrightarrow> (\<exists>e. put_prefixed bs = Some e \<and> buf = e @ r)"
proof
  assume "read_length_prefixed buf = Inr (bs, r)"
  then obtain n rest where n: "read_u32_le buf = Inr (n, rest)" "unat n \<le> length rest"
      "bs = take (unat n) rest" "r = drop (unat n) rest"
    by (auto simp: read_length_prefixed_def Let_def split: sum.splits if_splits)
  then have len: "length bs = unat n" by simp
  then have "put_prefixed bs = Some (u32_to_le_bytes n @ bs)"
    by (simp add: put_prefixed_def)
  moreover have "buf = (u32_to_le_bytes n @ bs) @ r"
    using n by (simp add: read_u32_le_iff)
  ultimately show "\<exists>e. put_prefixed bs = Some e \<and> buf = e @ r" by blast
next
  assume "\<exists>e. put_prefixed bs = Some e \<and> buf = e @ r"
  then obtain n where "u32_try_from (length bs) = Some n" and buf: "buf = u32_to_le_bytes n @ bs @ r"
    by (auto simp: put_prefixed_def split: option.splits)
  then have "read_u32_le buf = Inr (n, bs @ r)" "unat n = length bs"
    by (auto simp: read_u32_le_iff dest: u32_try_from_unat)
  then show "read_length_prefixed buf = Inr (bs, r)"
    by (simp add: read_length_prefixed_def)
qed

lemma read_string_iff:
  "read_string buf = Inr (bs, r) \<longleftrightarrow>
     valid_utf8 bs \<and> (\<exists>e. put_prefixed bs = Some e \<and> buf = e @ r)"
  by (auto simp: read_string_def read_length_prefixed_iff [symmetric] split: sum.splits if_splits)

lemma read_optional_iff:
  assumes rd: "\<And>b x r. rd b = Inr (x, r) \<longleftrightarrow> P x \<and> (\<exists>e. put_prefixed x = Some e \<and> b = e @ r)"
  shows "read_optional rd buf = Inr (sec, r) \<longleftrightarrow>
    (case sec of None \<Rightarrow> True | Some x \<Rightarrow> P x) \<and> (\<exists>e. put_optional sec = Some e \<and> buf = e @ r)"
proof (cases sec)
  case None
  have "read_optional rd buf = Inr (None, r) \<longleftrightarrow> read_flag buf = Inr (False, r)"
    by (auto simp: read_optional_def split: sum.splits if_splits)
  with None show ?thesis
    by (simp add: read_flag_iff put_optional_def)
next
  case (Some x)
  have "read_optional rd buf = Inr (Some x, r) \<longleftrightarrow>
      (\<exists>b. read_flag buf = Inr (True, b) \<and> rd b = Inr (x, r))"
    by (auto simp: read_optional_def split: sum.splits if_splits)
  with Some show ?thesis
    by (auto simp: read_flag_iff rd put_optional_def split: option.splits)
qed

lemma payload_decode_iff:
  "payload_decode buf = Inr p \<longleftrightarrow>
     wf_payload p \<and> (\<exists>e rest. payload_encode p = Some e \<and> buf = e @ rest)"
proof -
  have "payload_decode buf = Inr p \<longleftrightarrow>
      (\<exists>b1 b2 b3 b4. read_string buf = Inr (message p, b1)
         \<and> read_optional read_string b1 = Inr (traceback p, b2)
         \<and> read_u16_le b2 = Inr (raw_code p, b3)
         \<and> read_optional read_bytes b3 = Inr (pickled_python_exception p, b4))"
    by (cases p) (auto simp: payload_decode_def split: sum.splits)
  also have "\<dots> \<longleftrightarrow> wf_payload p \<and> (\<exists>e rest. payload_encode p = Some e \<and> buf = e @ rest)"
    by (auto simp: read_string_iff read_optional_iff [OF read_string_iff] read_u16_le_iff
        read_optional_iff [of read_bytes "\<lambda>_. True"] read_bytes_def read_length_prefixed_iff
        payload_encode_def wf_payload_def split: option.splits)
  finally show ?thesis .
qed

interpretation payload: strict_codec "\<lambda>p. the (payload_encode p)" payload_decode
  "\<lambda>p. wf_payload p \<and> payload_encode p \<noteq> None"
  by unfold_locales (auto simp: payload_decode_iff)

lemma length_put_optional:
  "put_optional sec = Some e \<Longrightarrow>
     length e = 1 + (case sec of None \<Rightarrow> 0 | Some b \<Rightarrow> 4 + length b)"
  by (auto simp: put_optional_def put_prefixed_Some split: option.splits)

lemma payload_encode_None:
  "payload_encode p = None \<longleftrightarrow>
     2 ^ 32 \<le> length (message p)
     \<or> (\<exists>t. traceback p = Some t \<and> 2 ^ 32 \<le> length t)
     \<or> (\<exists>b. pickled_python_exception p = Some b \<and> 2 ^ 32 \<le> length b)"
  by (auto simp: payload_encode_def put_optional_def put_prefixed_def u32_try_from_def
      split: option.splits if_splits)

lemma payload_capacity_exact: "payload_encode p = Some e \<Longrightarrow> length e = payload_capacity p"
  by (auto simp: payload_encode_def payload_capacity_def put_prefixed_Some length_put_optional
      split: option.splits)

lemma decode_inversion:
  assumes "decode buf = Inr m"
  shows "(\<exists>rest. buf = encode m @ rest)
    \<or> (\<exists>b rest. m = Pickle5 (b \<noteq> 0) \<and> buf = DISCRIMINATOR_PICKLE5 # b # rest)"
proof (cases m)
  case (Pickle5 f)
  with assms have "\<exists>b rest. m = Pickle5 (b \<noteq> 0) \<and> buf = DISCRIMINATOR_PICKLE5 # b # rest"
    by (cases buf; cases "tl buf") (auto simp: decode_def split: if_splits sum.splits)
  then show ?thesis ..
next
  case (Error c w)
  with assms obtain x y r where "buf = DISCRIMINATOR_ERROR # as_byte c # x # y # r" "w = u16_from_le_bytes [x, y]"
    by (cases buf; cases "tl buf"; cases "tl (tl buf)"; cases "tl (tl (tl buf))")
      (auto simp: decode_def from_byte_iff split: if_splits sum.splits)
  moreover from this have "u16_to_le_bytes w = [x, y]" by simp
  ultimately show ?thesis
    using Error by (auto simp: Let_def)
qed (use assms in \<open>cases buf; auto simp: decode_def split: if_splits sum.splits\<close>)+

section \<open>Properties\<close>

text \<open>The metadata decoder accepts exactly the encodings, followed by anything; the only other
  accepted headers are those of \<open>Pickle5\<close> whose flag byte is not 0 or 1, which read as \<open>True\<close>.\<close>

lemma metadata_decode_exact:
  "decode buf = Inr m \<longleftrightarrow>
     (\<exists>rest. buf = encode m @ rest) \<or> (\<exists>b rest. m = Pickle5 (b \<noteq> 0) \<and> buf = DISCRIMINATOR_PICKLE5 # b # rest)"
proof
  assume "decode buf = Inr m"
  then show "(\<exists>rest. buf = encode m @ rest) \<or> (\<exists>b rest. m = Pickle5 (b \<noteq> 0) \<and> buf = DISCRIMINATOR_PICKLE5 # b # rest)"
    by (rule decode_inversion)
next
  assume "(\<exists>rest. buf = encode m @ rest) \<or> (\<exists>b rest. m = Pickle5 (b \<noteq> 0) \<and> buf = DISCRIMINATOR_PICKLE5 # b # rest)"
  then show "decode buf = Inr m"
    by (auto simp: decode_encode_append) (simp_all add: decode_def)
qed

text \<open>The budget accounting of \<open>size_bytes\<close>, which avoids encoding the header, agrees with the
  length of the encoded header plus the data.\<close>

lemma size_bytes_is_encoded_size:
  "size_bytes obj = length (encode (obj_metadata obj)) + length (obj_data obj)"
  by (simp add: size_bytes_def length_encode)


text \<open>Encoding a payload whose sections are under 4 GiB does not panic, fills exactly the reserved
  capacity, and every proper prefix of the result is rejected by the decoder.\<close>

lemma payload_encode_capacity_and_truncation:
  assumes "wf_payload p" and "length (message p) < 2 ^ 32"
    and "\<And>t. traceback p = Some t \<Longrightarrow> length t < 2 ^ 32"
    and "\<And>b. pickled_python_exception p = Some b \<Longrightarrow> length b < 2 ^ 32"
  shows "\<exists>e. payload_encode p = Some e \<and> length e = payload_capacity p
    \<and> (\<forall>k < length e. \<exists>err. payload_decode (take k e) = Inl err)"
proof -
  have some: "payload_encode p \<noteq> None"
    using assms(2-4) by (auto simp: payload_encode_None not_le [symmetric])
  then obtain e where e: "payload_encode p = Some e" by blast
  moreover have "length e = payload_capacity p"
    by (rule payload_capacity_exact [OF e])
  moreover have "\<exists>err. payload_decode (take k e) = Inl err" if "k < length e" for k
    using payload.truncation_rejected [of p k] assms(1) e that by auto
  ultimately show ?thesis by blast
qed

end
