(* ===== verification/Memory_Store.thy ===== *)
theory Memory_Store
imports Metadata_Codec "HOL-Library.Multiset"
begin

text \<open>
  The per-worker object index, \<open>rayd-core/src/store.rs\<close>.  Each method holds the mutex of \<open>Inner\<close>
  for its whole body and is one function on the record; \<open>size_of_PlasmaIndex\<close> is the layout size the
  compiler chose, a constant of the build.  The two blocking methods re-examine the store each time
  the condition variable wakes them: their loops consume the list of observations (store, clock) made
  under the lock, and having used them all up is the value \<open>None\<close>, still parked.  The last section
  models the condition variable itself, with waiters and writers as separate threads.
\<close>

section \<open>Entries and the index\<close>

record PlasmaIndex =
  idx_metadata :: Metadata
  idx_data_size :: u64

datatype StoredEntry = Inline RayObject | Plasma PlasmaIndex

definition entry_metadata :: "StoredEntry \<Rightarrow> Metadata" where
  "entry_metadata self = (case self of Inline obj \<Rightarrow> obj_metadata obj | Plasma idx \<Rightarrow> idx_metadata idx)"

definition entry_is_error :: "StoredEntry \<Rightarrow> bool" where
  "entry_is_error self = is_error (entry_metadata self)"

definition ref_state :: "StoredEntry \<Rightarrow> RefState" where
  "ref_state self = (if entry_is_error self then Failed else ReadyLocal)"

definition local_bytes :: "nat \<Rightarrow> StoredEntry \<Rightarrow> nat" where
  "local_bytes size_of_PlasmaIndex self =
     (case self of Inline obj \<Rightarrow> size_bytes obj | Plasma _ \<Rightarrow> size_of_PlasmaIndex)"

record MemoryStore =
  entries :: "(ObjectId, StoredEntry) hmap"
  store_bytes :: u64
  size_of_PlasmaIndex :: nat

record WaitOutcome =
  ready :: "ObjectId list"
  not_ready :: "ObjectId list"

definition MemoryStore_new :: "nat \<Rightarrow> MemoryStore" where
  "MemoryStore_new sz = \<lparr>entries = [], store_bytes = 0, size_of_PlasmaIndex = sz\<rparr>"

definition insert_entry :: "ObjectId \<Rightarrow> StoredEntry \<Rightarrow> MemoryStore \<Rightarrow> MemoryStore" where
  "insert_entry oid entry s =
     (let sz = size_of_PlasmaIndex s;
          added = of_nat (local_bytes sz entry) :: u64;
          bytes1 = (case hm_get (entries s) oid of
                      Some prev \<Rightarrow> saturating_sub (store_bytes s) (of_nat (local_bytes sz prev))
                    | None \<Rightarrow> store_bytes s)
      in s\<lparr>entries := hm_insert oid entry (entries s),
           store_bytes := saturating_add bytes1 added\<rparr>)"

definition put_inline :: "ObjectId \<Rightarrow> RayObject \<Rightarrow> MemoryStore \<Rightarrow> MemoryStore" where
  "put_inline oid obj s = insert_entry oid (Inline obj) s"

definition put_plasma :: "ObjectId \<Rightarrow> PlasmaIndex \<Rightarrow> MemoryStore \<Rightarrow> MemoryStore" where
  "put_plasma oid index s = insert_entry oid (Plasma index) s"

definition get_entry :: "ObjectId \<Rightarrow> MemoryStore \<Rightarrow> StoredEntry option" where
  "get_entry oid s = hm_get (entries s) oid"

definition get_inline :: "ObjectId \<Rightarrow> MemoryStore \<Rightarrow> RayObject option" where
  "get_inline oid s = (case hm_get (entries s) oid of Some (Inline obj) \<Rightarrow> Some obj | _ \<Rightarrow> None)"

definition store_contains :: "ObjectId \<Rightarrow> MemoryStore \<Rightarrow> bool" where
  "store_contains oid s = hm_contains (entries s) oid"

definition state_of :: "ObjectId \<Rightarrow> MemoryStore \<Rightarrow> RefState" where
  "state_of oid s = (case hm_get (entries s) oid of None \<Rightarrow> Pending | Some e \<Rightarrow> ref_state e)"

definition state_snapshot :: "ObjectId list \<Rightarrow> MemoryStore \<Rightarrow> (ObjectId, RefState) hmap" where
  "state_snapshot ids s =
     fold (\<lambda>(i, st). hm_insert i st) (map (\<lambda>i. (i, state_of i s)) ids) []"

definition delete_one :: "ObjectId \<Rightarrow> MemoryStore \<Rightarrow> MemoryStore" where
  "delete_one oid s =
     (case hm_get (entries s) oid of
        None \<Rightarrow> s
      | Some prev \<Rightarrow>
          s\<lparr>entries := hm_remove oid (entries s),
            store_bytes := saturating_sub (store_bytes s)
              (of_nat (local_bytes (size_of_PlasmaIndex s) prev))\<rparr>)"

definition delete :: "ObjectId list \<Rightarrow> MemoryStore \<Rightarrow> MemoryStore" where
  "delete ids s = fold delete_one ids s"

definition store_len :: "MemoryStore \<Rightarrow> nat" where
  "store_len s = length (entries s)"

definition store_is_empty :: "MemoryStore \<Rightarrow> bool" where
  "store_is_empty s \<longleftrightarrow> entries s = []"

definition used_memory :: "MemoryStore \<Rightarrow> u64" where
  "used_memory s = store_bytes s"

definition plasma_entries :: "MemoryStore \<Rightarrow> (ObjectId \<times> PlasmaIndex) list" where
  "plasma_entries s =
     List.map_filter
       (\<lambda>(i, e). case e of Plasma idx \<Rightarrow> Some (i, idx) | Inline _ \<Rightarrow> None) (entries s)"

section \<open>Blocking methods\<close>

text \<open>Instants and durations are natural numbers of a common clock.\<close>

type_synonym observation = "MemoryStore \<times> nat"

fun get_entry_loop ::
  "ObjectId \<Rightarrow> nat option \<Rightarrow> observation list \<Rightarrow> StoredEntry option option" where
  "get_entry_loop oid deadline [] = None"
| "get_entry_loop oid deadline ((s, now) # obs) =
     (case hm_get (entries s) oid of
        Some entry \<Rightarrow> Some (Some entry)
      | None \<Rightarrow>
          (case deadline of
             None \<Rightarrow> get_entry_loop oid deadline obs
           | Some d \<Rightarrow> if d \<le> now then Some None else get_entry_loop oid deadline obs))"

definition get_entry_blocking ::
  "ObjectId \<Rightarrow> nat \<Rightarrow> nat option \<Rightarrow> observation list \<Rightarrow> StoredEntry option option" where
  "get_entry_blocking oid start timeout obs = get_entry_loop oid (map_option ((+) start) timeout) obs"

definition partition_ready :: "ObjectId list \<Rightarrow> MemoryStore \<Rightarrow> WaitOutcome" where
  "partition_ready ids s =
     \<lparr>ready = filter (\<lambda>i. hm_contains (entries s) i) ids,
      not_ready = filter (\<lambda>i. \<not> hm_contains (entries s) i) ids\<rparr>"

fun wait_loop ::
  "ObjectId list \<Rightarrow> nat \<Rightarrow> nat option \<Rightarrow> observation list \<Rightarrow> WaitOutcome option" where
  "wait_loop ids target deadline [] = None"
| "wait_loop ids target deadline ((s, now) # obs) =
     (if target \<le> length (filter (\<lambda>i. hm_contains (entries s) i) ids)
      then Some (partition_ready ids s)
      else (case deadline of
              None \<Rightarrow> wait_loop ids target deadline obs
            | Some d \<Rightarrow>
                if d \<le> now then Some (partition_ready ids s)
                else wait_loop ids target deadline obs))"

definition wait ::
  "ObjectId list \<Rightarrow> nat \<Rightarrow> nat \<Rightarrow> nat option \<Rightarrow> observation list \<Rightarrow> WaitOutcome option" where
  "wait ids num_returns start timeout obs =
     wait_loop ids (min num_returns (length ids)) (map_option ((+) start) timeout) obs"

section \<open>The condition variable\<close>

text \<open>
  Threads blocked in \<open>get_entry_blocking\<close> for an id.  Checking and parking happen under the mutex,
  so they are one step; \<open>insert\<close> releases the mutex before \<open>notify_all\<close>, so they are two.
\<close>

datatype waiter = Checking ObjectId | Parked ObjectId | Done StoredEntry

record condvar_state =
  cv_store :: MemoryStore
  waiters :: "nat \<Rightarrow> waiter option"
  notifying :: nat

definition wake :: "waiter \<Rightarrow> waiter" where
  "wake w = (case w of Parked i \<Rightarrow> Checking i | _ \<Rightarrow> w)"

inductive cv_step :: "condvar_state \<Rightarrow> condvar_state \<Rightarrow> bool" where
  call: "waiters s t = None \<Longrightarrow> cv_step s (s\<lparr>waiters := (waiters s)(t \<mapsto> Checking i)\<rparr>)"
| found: "waiters s t = Some (Checking i) \<Longrightarrow> get_entry i (cv_store s) = Some e \<Longrightarrow>
    cv_step s (s\<lparr>waiters := (waiters s)(t \<mapsto> Done e)\<rparr>)"
| park: "waiters s t = Some (Checking i) \<Longrightarrow> get_entry i (cv_store s) = None \<Longrightarrow>
    cv_step s (s\<lparr>waiters := (waiters s)(t \<mapsto> Parked i)\<rparr>)"
| spurious: "waiters s t = Some (Parked i) \<Longrightarrow>
    cv_step s (s\<lparr>waiters := (waiters s)(t \<mapsto> Checking i)\<rparr>)"
| insert_locked: "cv_step s (s\<lparr>cv_store := insert_entry i e (cv_store s), notifying := Suc (notifying s)\<rparr>)"
| notify_all: "notifying s = Suc n \<Longrightarrow>
    cv_step s (s\<lparr>waiters := (\<lambda>t. map_option wake (waiters s t)), notifying := n\<rparr>)"
| delete_locked: "cv_step s (s\<lparr>cv_store := delete ids (cv_store s)\<rparr>)"

definition cv_init :: "nat \<Rightarrow> condvar_state" where
  "cv_init sz = \<lparr>cv_store = MemoryStore_new sz, waiters = (\<lambda>_. None), notifying = 0\<rparr>"

section \<open>Lemmas\<close>

definition accounted :: "MemoryStore \<Rightarrow> nat" where
  "accounted s = hm_sum (local_bytes (size_of_PlasmaIndex s)) (entries s)"

definition store_inv :: "MemoryStore \<Rightarrow> bool" where
  "store_inv s \<longleftrightarrow> hm_wf (entries s) \<and> unat (store_bytes s) = accounted s"

lemma entries_insert_entry [simp]: "entries (insert_entry i e s) = hm_insert i e (entries s)"
  by (simp add: insert_entry_def Let_def)

lemma size_of_insert_entry [simp]: "size_of_PlasmaIndex (insert_entry i e s) = size_of_PlasmaIndex s"
  by (simp add: insert_entry_def Let_def)

lemma get_entry_insert [simp]:
  "get_entry j (insert_entry i e s) = (if j = i then Some e else get_entry j s)"
  by (simp add: get_entry_def)

lemma get_entry_delete_one [simp]:
  "get_entry j (delete_one i s) = (if j = i then None else get_entry j s)"
  by (auto simp: get_entry_def delete_one_def split: option.split)

lemma delete_Nil [simp]: "delete [] s = s"
  by (simp add: delete_def)

lemma delete_Cons [simp]: "delete (i # ids) s = delete ids (delete_one i s)"
  by (simp add: delete_def)

lemma get_entry_delete [simp]:
  "get_entry j (delete ids s) = (if j \<in> set ids then None else get_entry j s)"
  by (induction ids arbitrary: s) auto

lemma state_of_get_entry:
  "state_of i s = (case get_entry i s of None \<Rightarrow> Pending | Some e \<Rightarrow> ref_state e)"
  by (simp add: state_of_def get_entry_def)

lemma unat_of_nat_u64: "n < 2 ^ 64 \<Longrightarrow> unat (of_nat n :: u64) = n"
  by (simp add: unat_of_nat)

lemma store_inv_new [simp]: "store_inv (MemoryStore_new sz)"
  by (simp add: store_inv_def MemoryStore_new_def accounted_def)

lemma local_bytes_bound:
  "store_inv s \<Longrightarrow> get_entry i s = Some p \<Longrightarrow> local_bytes (size_of_PlasmaIndex s) p < 2 ^ 64"
  using hm_sum_get_le [of "entries s" i p "local_bytes (size_of_PlasmaIndex s)"]
    unat_lt2p [of "store_bytes s"]
  by (simp add: store_inv_def accounted_def get_entry_def)

lemma store_inv_insert:
  assumes inv: "store_inv s" and fits: "accounted (insert_entry i e s) < 2 ^ 64"
  shows "store_inv (insert_entry i e s)"
proof -
  let ?f = "local_bytes (size_of_PlasmaIndex s)"
  define prev where "prev = (case get_entry i s of None \<Rightarrow> 0 | Some p \<Rightarrow> ?f p)"
  have sum: "accounted (insert_entry i e s) + prev = accounted s + ?f e"
    using hm_sum_insert [of ?f i e "entries s"]
    by (simp add: accounted_def prev_def get_entry_def)
  have le: "prev \<le> accounted s"
    by (auto simp: prev_def accounted_def get_entry_def hm_sum_get_le split: option.split)
  have e: "?f e < 2 ^ 64"
    using sum fits le by simp
  have bytes: "store_bytes (insert_entry i e s)
      = saturating_add (saturating_sub (store_bytes s) (of_nat prev)) (of_nat (?f e))"
    by (auto simp: insert_entry_def Let_def prev_def get_entry_def saturating_sub_def
        split: option.split)
  have "prev < 2 ^ 64"
    using local_bytes_bound [OF inv] by (auto simp: prev_def split: option.split)
  then have "unat (saturating_sub (store_bytes s) (of_nat prev)) = accounted s - prev"
    using inv by (simp add: unat_saturating_sub unat_of_nat_u64 store_inv_def)
  with e bytes sum fits le have "unat (store_bytes (insert_entry i e s)) = accounted (insert_entry i e s)"
    by (simp add: unat_saturating_add unat_of_nat_u64)
  with inv show ?thesis
    by (simp add: store_inv_def)
qed

lemma store_inv_delete_one: "store_inv s \<Longrightarrow> store_inv (delete_one i s)"
proof (cases "get_entry i s")
  case None
  then show "store_inv s \<Longrightarrow> ?thesis"
    by (simp add: delete_one_def get_entry_def)
next
  case (Some p)
  assume inv: "store_inv s"
  let ?f = "local_bytes (size_of_PlasmaIndex s)"
  have "unat (saturating_sub (store_bytes s) (of_nat (?f p))) = accounted s - ?f p"
    using inv local_bytes_bound [OF inv Some]
    by (simp add: unat_saturating_sub unat_of_nat_u64 store_inv_def)
  moreover have "hm_sum ?f (hm_remove i (entries s)) + ?f p = accounted s"
    using hm_sum_remove [of "entries s" ?f i] Some inv
    by (simp add: store_inv_def accounted_def get_entry_def)
  ultimately show ?thesis
    using inv Some by (auto simp: store_inv_def delete_one_def get_entry_def accounted_def)
qed

lemma store_inv_delete: "store_inv s \<Longrightarrow> store_inv (delete ids s)"
  by (induction ids arbitrary: s) (auto simp: store_inv_delete_one)

lemma plasma_entries_iff:
  "hm_wf (entries s) \<Longrightarrow> (i, idx) \<in> set (plasma_entries s) \<longleftrightarrow> get_entry i s = Some (Plasma idx)"
  by (force simp: plasma_entries_def map_filter_def get_entry_def hm_get_mem [symmetric]
      split: StoredEntry.splits)

lemma partition_ready_mset:
  "mset (ready (partition_ready ids s)) + mset (not_ready (partition_ready ids s)) = mset ids"
  by (induction ids) (auto simp: partition_ready_def)

lemma wait_loop_sound:
  "wait_loop ids target deadline obs = Some out \<Longrightarrow>
     \<exists>s now. (s, now) \<in> set obs \<and> out = partition_ready ids s
       \<and> (target \<le> length (ready out) \<or> (\<exists>d. deadline = Some d \<and> d \<le> now))"
  by (induction ids target deadline obs rule: wait_loop.induct)
    (force simp: partition_ready_def split: if_splits option.splits)+

lemma wait_loop_returns:
  "(s, now) \<in> set obs \<Longrightarrow>
     target \<le> length (ready (partition_ready ids s)) \<or> (\<exists>d. deadline = Some d \<and> d \<le> now) \<Longrightarrow>
     \<exists>out. wait_loop ids target deadline obs = Some out"
  by (induction ids target deadline obs rule: wait_loop.induct)
    (auto simp: partition_ready_def split: option.split)

lemma get_entry_loop_sound:
  "get_entry_loop i deadline obs = Some r \<Longrightarrow>
     \<exists>s now. (s, now) \<in> set obs \<and> get_entry i s = r
       \<and> (r = None \<longrightarrow> (\<exists>d. deadline = Some d \<and> d \<le> now))"
  by (induction i deadline obs rule: get_entry_loop.induct)
    (force simp: get_entry_def split: if_splits option.splits)+

lemma get_entry_loop_returns:
  "(s, now) \<in> set obs \<Longrightarrow>
     get_entry i s \<noteq> None \<or> (\<exists>d. deadline = Some d \<and> d \<le> now) \<Longrightarrow>
     \<exists>r. get_entry_loop i deadline obs = Some r"
  by (induction i deadline obs rule: get_entry_loop.induct)
    (auto simp: get_entry_def split: option.split)

section \<open>No lost wake-up\<close>

definition no_lost_wakeup :: "condvar_state \<Rightarrow> bool" where
  "no_lost_wakeup s \<longleftrightarrow>
     (\<forall>t i. waiters s t = Some (Parked i) \<longrightarrow> get_entry i (cv_store s) \<noteq> None \<longrightarrow> 0 < notifying s)"

inductive_cases cv_stepE: "cv_step s s'"

lemma wake_not_parked: "wake w \<noteq> Parked i"
  by (cases w) (auto simp: wake_def)

lemma no_lost_wakeup_step: "cv_step s s' \<Longrightarrow> no_lost_wakeup s \<Longrightarrow> no_lost_wakeup s'"
proof (induction rule: cv_step.induct)
  case (insert_locked s i e)
  then show ?case by (simp add: no_lost_wakeup_def)
next
  case (notify_all s n)
  then show ?case by (auto simp: no_lost_wakeup_def wake_not_parked)
qed (auto simp: no_lost_wakeup_def split: if_splits)

lemma no_lost_wakeup_reachable: "cv_step\<^sup>*\<^sup>* (cv_init sz) s \<Longrightarrow> no_lost_wakeup s"
proof (induction rule: rtranclp_induct)
  case base
  then show ?case by (simp add: no_lost_wakeup_def cv_init_def)
next
  case (step y z)
  then show ?case by (blast intro: no_lost_wakeup_step)
qed

section \<open>Properties\<close>

text \<open>The byte counter is exact: it equals the sum of the local sizes of the entries, is kept by an
  insertion (also one that replaces an entry) whose sum fits in 64 bits, and by every deletion.\<close>

lemma store_accounting_exact:
  assumes "store_inv s"
  shows "unat (used_memory s) = accounted s
    \<and> (accounted (insert_entry i e s) < 2 ^ 64 \<longrightarrow> store_inv (insert_entry i e s))
    \<and> store_inv (delete ids s)"
  using assms store_inv_insert store_inv_delete by (simp add: store_inv_def used_memory_def)

lemma store_accounting_exact_witness:
  "store_inv (MemoryStore_new 16) \<and> store_inv (delete [ObjectId [1]] (MemoryStore_new 16))"
  using store_accounting_exact [of "MemoryStore_new 16" "ObjectId [1]" _ "[ObjectId [1]]"] by simp



text \<open>C23. No wake-up is lost: in every reachable state of waiters and writers, a thread parked on an id
  that is in the store has a notification under way, and delivering it lets the thread return the
  entry.\<close>

theorem no_waiter_is_left_parked:
  assumes "cv_step\<^sup>*\<^sup>* (cv_init sz) s" and "waiters s t = Some (Parked i)"
    and "get_entry i (cv_store s) = Some e"
  shows "0 < notifying s \<and> (\<exists>s'. cv_step\<^sup>*\<^sup>* s s' \<and> waiters s' t = Some (Done e))"
proof
  show pos: "0 < notifying s"
    using no_lost_wakeup_reachable [OF assms(1)] assms(2,3) unfolding no_lost_wakeup_def by blast
  then obtain n where n: "notifying s = Suc n" by (cases "notifying s") auto
  let ?s1 = "s\<lparr>waiters := (\<lambda>t. map_option wake (waiters s t)), notifying := n\<rparr>"
  have "waiters ?s1 t = Some (Checking i)" "get_entry i (cv_store ?s1) = Some e"
    using assms(2,3) by (simp_all add: wake_def)
  from cv_step.found [OF this] have "cv_step ?s1 (?s1\<lparr>waiters := (waiters ?s1)(t \<mapsto> Done e)\<rparr>)" .
  with cv_step.notify_all [OF n] have "cv_step\<^sup>*\<^sup>* s (?s1\<lparr>waiters := (waiters ?s1)(t \<mapsto> Done e)\<rparr>)"
    by (rule converse_rtranclp_into_rtranclp [OF _ r_into_rtranclp])
  moreover have "waiters (?s1\<lparr>waiters := (waiters ?s1)(t \<mapsto> Done e)\<rparr>) t = Some (Done e)"
    by simp
  ultimately show "\<exists>s'. cv_step\<^sup>*\<^sup>* s s' \<and> waiters s' t = Some (Done e)"
    by blast
qed

definition example_parked :: condvar_state where
  "example_parked = \<lparr>cv_store = insert_entry (ObjectId [1]) (Inline (RayObject_new Raw [])) (MemoryStore_new 16),
     waiters = [0 \<mapsto> Parked (ObjectId [1])], notifying = 1\<rparr>"

lemma example_parked_reachable: "cv_step\<^sup>*\<^sup>* (cv_init 16) example_parked"
proof -
  let ?i = "ObjectId [1]" and ?e = "Inline (RayObject_new Raw [])"
  let ?s1 = "(cv_init 16)\<lparr>waiters := (waiters (cv_init 16))(0 \<mapsto> Checking ?i)\<rparr>"
  let ?s2 = "?s1\<lparr>waiters := (waiters ?s1)(0 \<mapsto> Parked ?i)\<rparr>"
  have "cv_step (cv_init 16) ?s1"
    by (rule cv_step.call) (simp add: cv_init_def)
  moreover have "cv_step ?s1 ?s2"
    by (rule cv_step.park) (simp_all add: cv_init_def get_entry_def MemoryStore_new_def)
  moreover have "cv_step ?s2 (?s2\<lparr>cv_store := insert_entry ?i ?e (cv_store ?s2), notifying := Suc (notifying ?s2)\<rparr>)"
    by (rule cv_step.insert_locked)
  moreover have "?s2\<lparr>cv_store := insert_entry ?i ?e (cv_store ?s2), notifying := Suc (notifying ?s2)\<rparr> = example_parked"
    by (simp add: example_parked_def cv_init_def)
  ultimately show ?thesis
    by (metis (no_types, lifting) converse_rtranclp_into_rtranclp rtranclp.rtrancl_refl)
qed

theorem no_waiter_is_left_parked_witness:
  "\<exists>s'. cv_step\<^sup>*\<^sup>* example_parked s' \<and> waiters s' 0 = Some (Done (Inline (RayObject_new Raw [])))"
  using no_waiter_is_left_parked [OF example_parked_reachable, of 0 "ObjectId [1]" "Inline (RayObject_new Raw [])"]
  by (simp add: example_parked_def)

end
