(* ===== verification/Ref_Counter.thy ===== *)
theory Ref_Counter
imports Ids
begin

text \<open>
  The owner-side reference counter, \<open>rayd-core/src/ref_counter.rs\<close>.  Every method locks the single
  mutex for its whole body, so a method is one function on the table and a concurrent execution is
  a sequence of calls.  Counters are \<open>u64\<close>: \<open>+= 1\<close> wraps (release profile), the decrements saturate.
  \<open>apply_model\<close> is the reference model that the crate's property tests replay.
\<close>

section \<open>The table\<close>

record OwnerEntry =
  local_count :: u64
  borrowers :: "WorkerId set"
  submit_dep_count :: u64

type_synonym RefCounter = "(ObjectId, OwnerEntry) hmap"

definition OwnerEntry_default :: OwnerEntry where
  "OwnerEntry_default = \<lparr>local_count = 0, borrowers = {}, submit_dep_count = 0\<rparr>"

definition is_unpinned :: "OwnerEntry \<Rightarrow> bool" where
  "is_unpinned self \<longleftrightarrow> local_count self = 0 \<and> borrowers self = {} \<and> submit_dep_count self = 0"

definition RefCounter_new :: RefCounter where
  "RefCounter_new = []"

definition add_owned :: "ObjectId \<Rightarrow> RefCounter \<Rightarrow> RefCounter" where
  "add_owned oid c = hm_upsert oid OwnerEntry_default (\<lambda>e. e\<lparr>local_count := local_count e + 1\<rparr>) c"

definition inc_local :: "ObjectId \<Rightarrow> RefCounter \<Rightarrow> RefCounter \<times> u64" where
  "inc_local oid c =
     (case hm_get c oid of
        Some e \<Rightarrow>
          (let e' = e\<lparr>local_count := local_count e + 1\<rparr> in (hm_insert oid e' c, local_count e'))
      | None \<Rightarrow> (c, 0))"

text \<open>The common end of the three releasing methods, on the entry mutated in place.\<close>

definition remove_if_unpinned :: "ObjectId \<Rightarrow> OwnerEntry \<Rightarrow> RefCounter \<Rightarrow> RefCounter \<times> bool" where
  "remove_if_unpinned oid e c =
     (if is_unpinned e then (hm_remove oid c, True) else (hm_insert oid e c, False))"

definition dec_local :: "ObjectId \<Rightarrow> RefCounter \<Rightarrow> RefCounter \<times> bool" where
  "dec_local oid c =
     (case hm_get c oid of
        None \<Rightarrow> (c, False)
      | Some e \<Rightarrow>
          remove_if_unpinned oid (e\<lparr>local_count := saturating_sub (local_count e) 1\<rparr>) c)"

definition add_borrower :: "ObjectId \<Rightarrow> WorkerId \<Rightarrow> RefCounter \<Rightarrow> RefCounter \<times> bool" where
  "add_borrower oid worker c =
     (hm_upsert oid OwnerEntry_default (\<lambda>e. e\<lparr>borrowers := insert worker (borrowers e)\<rparr>) c,
      (case hm_get c oid of None \<Rightarrow> True | Some e \<Rightarrow> worker \<notin> borrowers e))"

definition remove_borrower :: "ObjectId \<Rightarrow> WorkerId \<Rightarrow> RefCounter \<Rightarrow> RefCounter \<times> bool" where
  "remove_borrower oid worker c =
     (case hm_get c oid of
        None \<Rightarrow> (c, False)
      | Some e \<Rightarrow> remove_if_unpinned oid (e\<lparr>borrowers := borrowers e - {worker}\<rparr>) c)"

definition add_submit_dep :: "ObjectId \<Rightarrow> RefCounter \<Rightarrow> RefCounter" where
  "add_submit_dep oid c =
     hm_upsert oid OwnerEntry_default (\<lambda>e. e\<lparr>submit_dep_count := submit_dep_count e + 1\<rparr>) c"

definition complete_submit_dep :: "ObjectId \<Rightarrow> RefCounter \<Rightarrow> RefCounter \<times> bool" where
  "complete_submit_dep oid c =
     (case hm_get c oid of
        None \<Rightarrow> (c, False)
      | Some e \<Rightarrow>
          remove_if_unpinned oid (e\<lparr>submit_dep_count := saturating_sub (submit_dep_count e) 1\<rparr>) c)"

definition snapshot :: "ObjectId \<Rightarrow> RefCounter \<Rightarrow> OwnerEntry option" where
  "snapshot oid c = hm_get c oid"

definition RefCounter_len :: "RefCounter \<Rightarrow> nat" where
  "RefCounter_len c = length c"

definition RefCounter_is_empty :: "RefCounter \<Rightarrow> bool" where
  "RefCounter_is_empty c \<longleftrightarrow> c = []"

definition drain_ids :: "RefCounter \<Rightarrow> RefCounter \<times> ObjectId list" where
  "drain_ids c = ([], hm_keys c)"

section \<open>The reference model of the property tests\<close>

datatype RefOp =
    AddOwned ObjectId
  | IncLocal ObjectId
  | DecLocal ObjectId
  | AddBorrower ObjectId WorkerId
  | RemoveBorrower ObjectId WorkerId
  | AddSubmitDep ObjectId
  | CompleteSubmitDep ObjectId

text \<open>The flag is what the releasing methods return; the others report no release.\<close>

fun apply_op :: "RefOp \<Rightarrow> RefCounter \<Rightarrow> RefCounter \<times> bool" where
  "apply_op (AddOwned i) c = (add_owned i c, False)"
| "apply_op (IncLocal i) c = (fst (inc_local i c), False)"
| "apply_op (DecLocal i) c = dec_local i c"
| "apply_op (AddBorrower i w) c = (fst (add_borrower i w c), False)"
| "apply_op (RemoveBorrower i w) c = remove_borrower i w c"
| "apply_op (AddSubmitDep i) c = (add_submit_dep i c, False)"
| "apply_op (CompleteSubmitDep i) c = complete_submit_dep i c"

definition run_ops :: "RefOp list \<Rightarrow> RefCounter \<Rightarrow> RefCounter" where
  "run_ops ops c = fold (\<lambda>op c. fst (apply_op op c)) ops c"

record ModelEntry =
  model_local :: nat
  model_borrowers :: "WorkerId set"
  model_submit_dep :: nat

definition ModelEntry_default :: ModelEntry where
  "ModelEntry_default = \<lparr>model_local = 0, model_borrowers = {}, model_submit_dep = 0\<rparr>"

definition unpinned :: "ModelEntry \<Rightarrow> bool" where
  "unpinned e \<longleftrightarrow> model_local e = 0 \<and> model_borrowers e = {} \<and> model_submit_dep e = 0"

type_synonym ref_model = "ObjectId \<Rightarrow> ModelEntry option"

definition model_entry_or_default :: "ref_model \<Rightarrow> ObjectId \<Rightarrow> ModelEntry" where
  "model_entry_or_default m i = (case m i of None \<Rightarrow> ModelEntry_default | Some e \<Rightarrow> e)"

definition model_settle :: "ObjectId \<Rightarrow> ModelEntry \<Rightarrow> ref_model \<Rightarrow> ref_model" where
  "model_settle i e m = m(i := if unpinned e then None else Some e)"

fun apply_model :: "RefOp \<Rightarrow> ref_model \<Rightarrow> ref_model" where
  "apply_model (AddOwned i) m =
     (let e = model_entry_or_default m i in m(i \<mapsto> e\<lparr>model_local := model_local e + 1\<rparr>))"
| "apply_model (IncLocal i) m =
     (case m i of None \<Rightarrow> m | Some e \<Rightarrow> m(i \<mapsto> e\<lparr>model_local := model_local e + 1\<rparr>))"
| "apply_model (DecLocal i) m =
     (case m i of
        None \<Rightarrow> m | Some e \<Rightarrow> model_settle i (e\<lparr>model_local := model_local e - 1\<rparr>) m)"
| "apply_model (AddBorrower i w) m =
     (let e = model_entry_or_default m i
      in m(i \<mapsto> e\<lparr>model_borrowers := insert w (model_borrowers e)\<rparr>))"
| "apply_model (RemoveBorrower i w) m =
     (case m i of
        None \<Rightarrow> m
      | Some e \<Rightarrow> model_settle i (e\<lparr>model_borrowers := model_borrowers e - {w}\<rparr>) m)"
| "apply_model (AddSubmitDep i) m =
     (let e = model_entry_or_default m i
      in m(i \<mapsto> e\<lparr>model_submit_dep := model_submit_dep e + 1\<rparr>))"
| "apply_model (CompleteSubmitDep i) m =
     (case m i of
        None \<Rightarrow> m
      | Some e \<Rightarrow> model_settle i (e\<lparr>model_submit_dep := model_submit_dep e - 1\<rparr>) m)"

definition abs_entry :: "OwnerEntry \<Rightarrow> ModelEntry" where
  "abs_entry e =
     \<lparr>model_local = unat (local_count e), model_borrowers = borrowers e,
      model_submit_dep = unat (submit_dep_count e)\<rparr>"

definition abs_counter :: "RefCounter \<Rightarrow> ref_model" where
  "abs_counter c = (\<lambda>i. map_option abs_entry (hm_get c i))"

text \<open>No counter of the table is within \<open>n\<close> increments of wrapping around.\<close>

definition entry_room :: "nat \<Rightarrow> OwnerEntry \<Rightarrow> bool" where
  "entry_room n e \<longleftrightarrow> unat (local_count e) + n < 2 ^ 64 \<and> unat (submit_dep_count e) + n < 2 ^ 64"

definition headroom :: "nat \<Rightarrow> RefCounter \<Rightarrow> bool" where
  "headroom n c \<longleftrightarrow> (\<forall>e \<in> snd ` set c. entry_room n e)"

section \<open>Releases of one object\<close>

datatype Release = RelLocal | RelBorrower WorkerId | RelSubmitDep

fun release :: "ObjectId \<Rightarrow> Release \<Rightarrow> RefCounter \<Rightarrow> RefCounter \<times> bool" where
  "release i RelLocal c = dec_local i c"
| "release i (RelBorrower w) c = remove_borrower i w c"
| "release i RelSubmitDep c = complete_submit_dep i c"

text \<open>Running calls that report a flag, and collecting the flags.\<close>

fun run_flags :: "('op \<Rightarrow> 's \<Rightarrow> 's \<times> bool) \<Rightarrow> 'op list \<Rightarrow> 's \<Rightarrow> 's \<times> bool list" where
  "run_flags step [] s = (s, [])"
| "run_flags step (op # ops) s =
     (case step op s of
        (s1, f) \<Rightarrow> (case run_flags step ops s1 of (s2, fs) \<Rightarrow> (s2, f # fs)))"

text \<open>The pins that a sequence of releases clears.\<close>

definition clears_all :: "Release list \<Rightarrow> OwnerEntry \<Rightarrow> bool" where
  "clears_all rs e \<longleftrightarrow>
     unat (local_count e) \<le> count_list rs RelLocal
     \<and> borrowers e \<subseteq> {w. RelBorrower w \<in> set rs}
     \<and> unat (submit_dep_count e) \<le> count_list rs RelSubmitDep"

section \<open>Lemmas\<close>

lemmas ref_counter_defs =
  add_owned_def inc_local_def dec_local_def add_borrower_def remove_borrower_def
  add_submit_dep_def complete_submit_dep_def remove_if_unpinned_def

lemma unpinned_abs_entry [simp]: "unpinned (abs_entry e) \<longleftrightarrow> is_unpinned e"
  by (auto simp: unpinned_def abs_entry_def is_unpinned_def unat_eq_0)

lemma abs_entry_default [simp]: "abs_entry OwnerEntry_default = ModelEntry_default"
  by (simp add: abs_entry_def OwnerEntry_default_def ModelEntry_default_def)

lemma entry_room_mono: "entry_room n e \<Longrightarrow> m \<le> n \<Longrightarrow> entry_room m e"
  by (auto simp: entry_room_def)

lemma entry_room_inc:
  assumes "entry_room (Suc n) e"
  shows "entry_room n (e\<lparr>local_count := local_count e + 1\<rparr>)"
    and "entry_room n (e\<lparr>submit_dep_count := submit_dep_count e + 1\<rparr>)"
    and "entry_room n e"
  using assms by (auto simp: entry_room_def unat_inc)

lemma entry_room_dec:
  assumes "entry_room n e"
  shows "entry_room n (e\<lparr>local_count := saturating_sub (local_count e) 1\<rparr>)"
    and "entry_room n (e\<lparr>submit_dep_count := saturating_sub (submit_dep_count e) 1\<rparr>)"
    and "entry_room n (e\<lparr>borrowers := B\<rparr>)"
  using assms by (auto simp: entry_room_def unat_saturating_sub)

lemma entry_room_default: "n < 2 ^ 64 \<Longrightarrow> entry_room n OwnerEntry_default"
  by (simp add: entry_room_def OwnerEntry_default_def)

lemma headroom_get: "headroom n c \<Longrightarrow> hm_get c i = Some e \<Longrightarrow> entry_room n e"
  by (force simp: headroom_def dest: map_of_SomeD)

lemma headroom_mono: "headroom n c \<Longrightarrow> m \<le> n \<Longrightarrow> headroom m c"
  by (auto simp: headroom_def intro: entry_room_mono)

lemma headroom_insert: "headroom n c \<Longrightarrow> entry_room n e \<Longrightarrow> headroom n (hm_insert i e c)"
  unfolding headroom_def using snd_set_insert [of i e c] by blast

lemma headroom_remove: "headroom n c \<Longrightarrow> headroom n (hm_remove i c)"
  unfolding headroom_def using snd_set_remove [of i c] by blast

lemma headroom_Nil [simp]: "headroom n []"
  by (simp add: headroom_def)

text \<open>One operation uses at most one unit of headroom.\<close>

lemma apply_op_headroom:
  assumes "headroom (Suc n) c" and "Suc n < 2 ^ 64"
  shows "headroom n (fst (apply_op op c))"
proof -
  have c: "headroom n c"
    using assms(1) by (rule headroom_mono) simp
  have get: "entry_room (Suc n) e" "entry_room n e" if "hm_get c i = Some e" for i e
    using headroom_get [OF assms(1) that] by (auto intro: entry_room_mono)
  have dflt: "entry_room (Suc n) OwnerEntry_default" "entry_room n OwnerEntry_default"
    using assms(2) by (auto intro: entry_room_default)
  show ?thesis
    by (cases op)
      (auto simp: ref_counter_defs hm_upsert_def Let_def c
        intro!: headroom_insert headroom_remove entry_room_inc(1,2) entry_room_dec
        intro: get dflt split: option.split)
qed

lemma abs_counter_insert: "abs_counter (hm_insert i e c) = (abs_counter c)(i \<mapsto> abs_entry e)"
  by (rule ext) (simp add: abs_counter_def)

lemma abs_counter_remove: "abs_counter (hm_remove i c) = (abs_counter c)(i := None)"
  by (rule ext) (simp add: abs_counter_def)

lemma abs_counter_settle:
  "abs_counter (fst (remove_if_unpinned i e c)) = model_settle i (abs_entry e) (abs_counter c)"
  by (simp add: remove_if_unpinned_def model_settle_def abs_counter_insert abs_counter_remove)

lemma abs_counter_get: "abs_counter c i = map_option abs_entry (hm_get c i)"
  by (simp add: abs_counter_def)

lemma apply_op_refines:
  assumes "headroom 1 c"
  shows "abs_counter (fst (apply_op op c)) = apply_model op (abs_counter c)"
proof -
  note get = headroom_get [OF assms]
  have inc: "abs_entry (e\<lparr>local_count := local_count e + 1\<rparr>)
        = (abs_entry e)\<lparr>model_local := model_local (abs_entry e) + 1\<rparr>"
      "abs_entry (e\<lparr>submit_dep_count := submit_dep_count e + 1\<rparr>)
        = (abs_entry e)\<lparr>model_submit_dep := model_submit_dep (abs_entry e) + 1\<rparr>"
    if "hm_get c i = Some e" for i e
    using get [OF that] by (simp_all add: abs_entry_def entry_room_def unat_inc)
  have zero: "abs_entry (OwnerEntry_default\<lparr>local_count := local_count OwnerEntry_default + 1\<rparr>)
        = ModelEntry_default\<lparr>model_local := Suc (model_local ModelEntry_default)\<rparr>"
      "abs_entry (OwnerEntry_default\<lparr>submit_dep_count := submit_dep_count OwnerEntry_default + 1\<rparr>)
        = ModelEntry_default\<lparr>model_submit_dep := Suc (model_submit_dep ModelEntry_default)\<rparr>"
      "abs_entry (OwnerEntry_default\<lparr>borrowers := insert w (borrowers OwnerEntry_default)\<rparr>)
        = ModelEntry_default\<lparr>model_borrowers := insert w (model_borrowers ModelEntry_default)\<rparr>"
      "borrowers OwnerEntry_default = model_borrowers ModelEntry_default" for w
    by (simp_all add: abs_entry_def OwnerEntry_default_def ModelEntry_default_def)
  have rel: "abs_entry (e\<lparr>local_count := saturating_sub (local_count e) 1\<rparr>)
        = (abs_entry e)\<lparr>model_local := model_local (abs_entry e) - 1\<rparr>"
      "abs_entry (e\<lparr>submit_dep_count := saturating_sub (submit_dep_count e) 1\<rparr>)
        = (abs_entry e)\<lparr>model_submit_dep := model_submit_dep (abs_entry e) - 1\<rparr>"
      "abs_entry (e\<lparr>borrowers := B\<rparr>) = (abs_entry e)\<lparr>model_borrowers := B\<rparr>"
      "model_borrowers (abs_entry e) = borrowers e" for e B
    by (simp_all add: abs_entry_def unat_saturating_sub)
  show ?thesis
    by (cases op)
      (auto simp: add_owned_def inc_local_def dec_local_def add_borrower_def remove_borrower_def
        add_submit_dep_def complete_submit_dep_def hm_upsert_def abs_counter_insert
        abs_counter_settle abs_counter_get model_entry_or_default_def inc zero rel Let_def
        split: option.split)
qed

lemma run_ops_Cons: "run_ops (op # ops) c = run_ops ops (fst (apply_op op c))"
  by (simp add: run_ops_def)

lemma run_ops_refines:
  "headroom (length ops) c \<Longrightarrow> length ops < 2 ^ 64 \<Longrightarrow>
     abs_counter (run_ops ops c) = fold apply_model ops (abs_counter c)"
proof (induction ops arbitrary: c)
  case Nil
  then show ?case by (simp add: run_ops_def)
next
  case (Cons op ops)
  then have "headroom 1 c"
    by (auto intro: headroom_mono)
  moreover have "headroom (length ops) (fst (apply_op op c))"
    using Cons.prems by (intro apply_op_headroom) auto
  ultimately show ?case
    using Cons by (simp add: run_ops_Cons apply_op_refines)
qed

lemma run_ops_wf: "hm_wf c \<Longrightarrow> hm_wf (run_ops ops c)"
proof (induction ops arbitrary: c)
  case (Cons op ops)
  have "hm_wf (fst (apply_op op c))"
    using Cons.prems by (cases op) (auto simp: ref_counter_defs Let_def split: option.split)
  with Cons.IH show ?case by (simp add: run_ops_Cons)
qed (simp add: run_ops_def)

section \<open>Freeing exactly once\<close>

text \<open>
  What a set of releasing calls promises: a call reports \<open>true\<close> iff it is the one that removed the
  object, and no call brings a removed object back.  Then, whatever the order of the calls, at most
  one of them reports \<open>true\<close>, and one does iff the object is gone at the end.
\<close>

locale release_once =
  fixes present :: "'s \<Rightarrow> bool"
    and step :: "'op \<Rightarrow> 's \<Rightarrow> 's \<times> bool"
  assumes flag: "snd (step op s) \<longleftrightarrow> present s \<and> \<not> present (fst (step op s))"
    and no_revival: "\<not> present s \<Longrightarrow> \<not> present (fst (step op s))"
begin

lemma run_no_revival: "\<not> present s \<Longrightarrow> \<not> present (fst (run_flags step ops s))"
proof (induction ops arbitrary: s)
  case (Cons op ops)
  then show ?case
    using no_revival [of s op] by (auto split: prod.split simp: split_beta)
qed simp

lemma true_count:
  "count_list (snd (run_flags step ops s)) True =
     (if present s \<and> \<not> present (fst (run_flags step ops s)) then 1 else 0)"
proof (induction ops arbitrary: s)
  case (Cons op ops)
  obtain s1 f where s1: "step op s = (s1, f)" by (cases "step op s")
  then have f: "f \<longleftrightarrow> present s \<and> \<not> present s1" and nr: "\<not> present s \<Longrightarrow> \<not> present s1"
    using flag [of op s] no_revival [of s op] by auto
  then show ?case
    using Cons.IH [of s1] run_no_revival [of s1 ops] s1 by (auto simp: split_beta)
qed simp

end

definition release_effect :: "Release \<Rightarrow> OwnerEntry \<Rightarrow> OwnerEntry" where
  "release_effect r e =
     (case r of
        RelLocal \<Rightarrow> e\<lparr>local_count := saturating_sub (local_count e) 1\<rparr>
      | RelBorrower w \<Rightarrow> e\<lparr>borrowers := borrowers e - {w}\<rparr>
      | RelSubmitDep \<Rightarrow> e\<lparr>submit_dep_count := saturating_sub (submit_dep_count e) 1\<rparr>)"

lemma release_eq:
  "release i r c =
     (case hm_get c i of
        None \<Rightarrow> (c, False) | Some e \<Rightarrow> remove_if_unpinned i (release_effect r e) c)"
  by (cases r) (auto simp: dec_local_def remove_borrower_def complete_submit_dep_def
      release_effect_def split: option.split)

interpretation rc_release: release_once "\<lambda>c. hm_contains c i" "release i" for i
  by unfold_locales
    (auto simp: release_eq remove_if_unpinned_def hm_contains_def split: option.splits)

lemma unat_saturating_dec_le:
  "unat (saturating_sub (w :: u64) 1) \<le> n \<longleftrightarrow> unat w \<le> Suc n"
  by (auto simp: unat_saturating_sub)

lemma clears_all_Nil: "clears_all [] e \<longleftrightarrow> is_unpinned e"
  by (auto simp: clears_all_def is_unpinned_def unat_eq_0)

lemma clears_all_Cons: "clears_all (r # rs) e \<longleftrightarrow> clears_all rs (release_effect r e)"
  by (cases r) (auto simp: clears_all_def release_effect_def unat_saturating_dec_le)

lemma release_effect_unpinned: "is_unpinned e \<Longrightarrow> is_unpinned (release_effect r e)"
  by (cases r) (auto simp: is_unpinned_def release_effect_def saturating_sub_def)

lemma clears_all_unpinned: "is_unpinned e \<Longrightarrow> clears_all rs e"
  by (auto simp: clears_all_def is_unpinned_def)

lemma release_run_present:
  assumes "hm_get c i = Some e" and "\<not> is_unpinned e"
  shows "hm_contains (fst (run_flags (release i) rs c)) i \<longleftrightarrow> \<not> clears_all rs e"
  using assms
proof (induction rs arbitrary: c e)
  case Nil
  then show ?case by (simp add: hm_contains_def clears_all_Nil)
next
  case (Cons r rs)
  let ?e = "release_effect r e"
  show ?case
  proof (cases "is_unpinned ?e")
    case True
    then have "release i r c = (hm_remove i c, True)"
      using Cons.prems by (simp add: release_eq remove_if_unpinned_def)
    moreover have "\<not> hm_contains (fst (run_flags (release i) rs (hm_remove i c))) i"
      by (rule rc_release.run_no_revival) (simp add: hm_contains_def)
    ultimately show ?thesis
      using True by (simp add: split_beta clears_all_Cons clears_all_unpinned)
  next
    case False
    then have "release i r c = (hm_insert i ?e c, False)"
      using Cons.prems by (simp add: release_eq remove_if_unpinned_def)
    then show ?thesis
      using False Cons.IH [of "hm_insert i ?e c" ?e] by (simp add: split_beta clears_all_Cons)
  qed
qed

lemma release_other:
  "j \<noteq> i \<Longrightarrow> hm_get (fst (run_flags (release i) rs c)) j = hm_get c j"
proof (induction rs arbitrary: c)
  case (Cons r rs)
  have "hm_get (fst (release i r c)) j = hm_get c j"
    using Cons.prems by (auto simp: release_eq remove_if_unpinned_def split: option.split)
  then show ?case
    using Cons by (simp add: split_beta)
qed simp

section \<open>Presence and pins\<close>

definition pinned_entries :: "RefCounter \<Rightarrow> bool" where
  "pinned_entries c \<longleftrightarrow> (\<forall>i e. hm_get c i = Some e \<longrightarrow> \<not> is_unpinned e)"

lemma pinned_entries_step:
  assumes "pinned_entries c" and "headroom 1 c"
  shows "pinned_entries (fst (apply_op op c))"
proof -
  have "\<not> is_unpinned (e\<lparr>local_count := local_count e + 1\<rparr>)"
    "\<not> is_unpinned (e\<lparr>submit_dep_count := submit_dep_count e + 1\<rparr>)"
    if "entry_room 1 e" for e
    using that unat_inc [of "local_count e"] unat_inc [of "submit_dep_count e"]
    by (auto simp: is_unpinned_def entry_room_def unat_eq_0 [symmetric])
  moreover have "entry_room 1 e" if "hm_get c i = Some e" for i e
    using headroom_get [OF assms(2) that] .
  moreover have "entry_room 1 OwnerEntry_default"
    by (rule entry_room_default) simp
  moreover have "\<not> is_unpinned (e\<lparr>borrowers := insert w B\<rparr>)" for e w B
    by (simp add: is_unpinned_def)
  ultimately show ?thesis
    using assms(1) unfolding pinned_entries_def
    by (cases op) (auto simp: ref_counter_defs Let_def split: option.splits if_splits)
qed

lemma pinned_entries_run:
  "pinned_entries c \<Longrightarrow> headroom (length ops) c \<Longrightarrow> length ops < 2 ^ 64 \<Longrightarrow>
     pinned_entries (run_ops ops c)"
proof (induction ops arbitrary: c)
  case Nil
  then show ?case by (simp add: run_ops_def)
next
  case (Cons op ops)
  then have "headroom 1 c"
    by (auto intro: headroom_mono)
  moreover have "headroom (length ops) (fst (apply_op op c))"
    using Cons.prems by (intro apply_op_headroom) auto
  ultimately show ?case
    using Cons by (simp add: run_ops_Cons pinned_entries_step)
qed

lemma pinned_entries_Nil [simp]: "pinned_entries []"
  by (simp add: pinned_entries_def)

section \<open>Properties\<close>

text \<open>C2. Replaying any sequence of fewer than \<open>2 ^ 64\<close> operations on the counter and on the reference
  model gives the same table: presence, counts and borrower sets agree for every id.\<close>

theorem ref_counter_refines_model:
  assumes "length ops < 2 ^ 64"
  shows "abs_counter (run_ops ops RefCounter_new) = fold apply_model ops Map.empty"
  using run_ops_refines [of ops "[]"] assms
  by (simp add: RefCounter_new_def abs_counter_def)

theorem ref_counter_refines_model_witness:
  "abs_counter (run_ops [AddOwned (ObjectId [1]), AddBorrower (ObjectId [1]) (WorkerId [7]), DecLocal (ObjectId [1])]
      RefCounter_new) (ObjectId [1]) =
    Some \<lparr>model_local = 0, model_borrowers = {WorkerId [7]}, model_submit_dep = 0\<rparr>"
  using ref_counter_refines_model
    [of "[AddOwned (ObjectId [1]), AddBorrower (ObjectId [1]) (WorkerId [7]), DecLocal (ObjectId [1])]"]
  by (simp add: model_entry_or_default_def ModelEntry_default_def model_settle_def unpinned_def Let_def)

text \<open>After any such sequence an id is present iff it is pinned: every tracked entry has a local
  reference, a borrower or a submitted dependency, and no id occurs twice.\<close>

lemma ref_counter_present_iff_pinned:
  assumes "length ops < 2 ^ 64" and "snapshot i (run_ops ops RefCounter_new) = Some e"
  shows "\<not> is_unpinned e \<and> distinct (hm_keys (run_ops ops RefCounter_new))"
proof
  show "\<not> is_unpinned e"
    using pinned_entries_run [of "[]" ops] assms
    by (simp add: pinned_entries_def snapshot_def RefCounter_new_def)
  show "distinct (hm_keys (run_ops ops RefCounter_new))"
    by (rule run_ops_wf) (simp add: RefCounter_new_def)
qed

text \<open>C3. However the releases of an object's pins are interleaved, at most one call reports that it freed
  the object, exactly one does iff the calls clear every pin, the object is gone iff one did, and no
  other object is touched.\<close>

theorem release_frees_exactly_once:
  assumes "hm_get c i = Some e" and "\<not> is_unpinned e" and "run_flags (release i) rs c = (c', flags)"
  shows "count_list flags True = (if clears_all rs e then 1 else 0)
    \<and> (snapshot i c' = None \<longleftrightarrow> clears_all rs e)
    \<and> (\<forall>j. j \<noteq> i \<longrightarrow> snapshot j c' = snapshot j c)"
proof -
  have "hm_contains c' i \<longleftrightarrow> \<not> clears_all rs e"
    using release_run_present [OF assms(1,2), of rs] assms(3) by simp
  moreover have "hm_contains c i" using assms(1) by (simp add: hm_contains_def)
  ultimately show ?thesis
    using rc_release.true_count [of i rs c] assms(3) release_other [of _ i rs c]
    by (auto simp: hm_contains_def snapshot_def)
qed

theorem release_frees_exactly_once_witness:
  "count_list (snd (run_flags (release (ObjectId [1])) [RelBorrower (WorkerId [7]), RelLocal, RelLocal]
      [(ObjectId [1], \<lparr>local_count = 1, borrowers = {WorkerId [7]}, submit_dep_count = 0\<rparr>)])) True = 1"
proof -
  let ?e = "\<lparr>local_count = 1, borrowers = {WorkerId [7]}, submit_dep_count = 0\<rparr>"
  let ?rs = "[RelBorrower (WorkerId [7]), RelLocal, RelLocal]" and ?c = "[(ObjectId [1], ?e)]"
  have "\<not> is_unpinned ?e" "clears_all ?rs ?e"
    by (simp_all add: is_unpinned_def clears_all_def)
  with release_frees_exactly_once [of ?c "ObjectId [1]" ?e ?rs] show ?thesis
    by (cases "run_flags (release (ObjectId [1])) ?rs ?c") simp
qed

text \<open>Draining returns every tracked id once and leaves nothing: afterwards each releasing call is a
  no-op that reports \<open>false\<close>.\<close>

lemma drain_ids_takes_everything:
  "set (snd (drain_ids c)) = {i. snapshot i c \<noteq> None} \<and> RefCounter_is_empty (fst (drain_ids c))
   \<and> release i r (fst (drain_ids c)) = (fst (drain_ids c), False)"
  by (cases r) (auto simp: drain_ids_def snapshot_def RefCounter_is_empty_def map_of_eq_None_iff
      dec_local_def remove_borrower_def complete_submit_dep_def)

end
