(* ===== verification/Plasma_Arena.thy ===== *)
theory Plasma_Arena
imports Rayd_Prelude
begin

unbundle bit_operations_syntax

text \<open>
  The shared-memory arena of \<open>rayd-plasma/src/arena.rs\<close>: a bump allocator over one mapped region.
  The bytes of the mapping are a byte list; the region is mapped shared, so the server and every
  client see the same list.  The kernel calls of \<open>create\<close> (\<open>memfd_create\<close>, \<open>ftruncate\<close>, \<open>mmap\<close>)
  are parameters, as is the error type of the \<open>nix\<close> crate.  A slice expression out of range panics:
  \<open>None\<close>.
\<close>

section \<open>The arena\<close>

definition OBJECT_ALIGN :: u64 where "OBJECT_ALIGN = 16"

datatype 'k ArenaError =
    ArenaNix 'k
  | ArenaIo 'k
  | ArenaOutOfMemory u64 u64
  | InvalidName bytes

record Arena =
  arena_id :: u64
  capacity :: u64
  bump :: u64
  mmap :: bytes

definition Arena_create ::
  "(bytes \<Rightarrow> ('k, 'fd) result) \<Rightarrow> ('fd \<Rightarrow> u64 \<Rightarrow> ('k, 'fd) result) \<Rightarrow>
   ('fd \<Rightarrow> u64 \<Rightarrow> ('k, bytes) result) \<Rightarrow> 'k \<Rightarrow> u64 \<Rightarrow> u64 \<Rightarrow> bytes \<Rightarrow> ('k ArenaError, Arena) result" where
  "Arena_create memfd_create ftruncate map_mut EINVAL aid cap name =
     (if 0 \<in> set name then Inl (InvalidName name)
      else (case memfd_create name of
              Inl e \<Rightarrow> Inl (ArenaNix e)
            | Inr fd \<Rightarrow>
                if 2 ^ 63 \<le> unat cap then Inl (ArenaNix EINVAL)
                else (case ftruncate fd cap of
                        Inl e \<Rightarrow> Inl (ArenaNix e)
                      | Inr fd' \<Rightarrow>
                          (case map_mut fd' cap of
                             Inl e \<Rightarrow> Inl (ArenaIo e)
                           | Inr mem \<Rightarrow>
                               Inr \<lparr>arena_id = aid, capacity = cap, bump = 0, mmap = mem\<rparr>))))"

definition used :: "Arena \<Rightarrow> u64" where
  "used self = bump self"

definition remaining :: "Arena \<Rightarrow> u64" where
  "remaining self = saturating_sub (capacity self) (used self)"

definition align_up :: "u64 \<Rightarrow> u64" where
  "align_up b = (b + OBJECT_ALIGN - 1) AND NOT (OBJECT_ALIGN - 1)"

definition alloc :: "u64 \<Rightarrow> Arena \<Rightarrow> ('k ArenaError, u64) result \<times> Arena" where
  "alloc sz self =
     (let aligned = align_up (bump self)
      in case checked_add aligned sz of
           None \<Rightarrow> (Inl (ArenaOutOfMemory sz 0), self)
         | Some end' \<Rightarrow>
             if capacity self < end'
             then (Inl (ArenaOutOfMemory sz (saturating_sub (capacity self) (bump self))), self)
             else (Inr aligned, self\<lparr>bump := end'\<rparr>))"

definition byte_slice :: "bytes \<Rightarrow> nat \<Rightarrow> nat \<Rightarrow> bytes option" where
  "byte_slice mem off len = (if off + len \<le> length mem then Some (take len (drop off mem)) else None)"

definition read_copy :: "u64 \<Rightarrow> u64 \<Rightarrow> Arena \<Rightarrow> bytes option" where
  "read_copy off len self = byte_slice (mmap self) (unat off) (unat len)"

text \<open>A store of bytes through a mutable slice of the mapping.\<close>

definition mmap_write :: "nat \<Rightarrow> bytes \<Rightarrow> bytes \<Rightarrow> bytes option" where
  "mmap_write off bs mem =
     (if off + length bs \<le> length mem
      then Some (take off mem @ bs @ drop (off + length bs) mem) else None)"

definition arena_inv :: "Arena \<Rightarrow> bool" where
  "arena_inv self \<longleftrightarrow>
     bump self \<le> capacity self \<and> unat (capacity self) < 2 ^ 63
     \<and> length (mmap self) = unat (capacity self)"

section \<open>Lemmas\<close>

lemma and_not_mask_eq: "w AND NOT (mask n) = w - take_bit n (w :: 'a :: len word)"
proof -
  have "(w AND mask n) AND (w AND NOT (mask n)) = 0" "(w AND mask n) OR (w AND NOT (mask n)) = w"
    by (auto intro!: bit_word_eqI simp: bit_simps)
  then have "(w AND mask n) + (w AND NOT (mask n)) = w"
    using word_plus_and_or [of "w AND mask n" "w AND NOT (mask n)"] by simp
  then show ?thesis
    by (simp add: take_bit_eq_mask algebra_simps)
qed

lemma unat_align_up:
  assumes "unat b < 2 ^ 63"
  shows "unat (align_up b) = (unat b + 15) div 16 * 16"
proof -
  let ?w = "b + 15"
  have w: "unat ?w = unat b + 15"
    using assms by (simp add: unat_word_ariths)
  have "align_up b = ?w AND NOT (mask 4)"
    by (simp add: align_up_def OBJECT_ALIGN_def mask_numeral algebra_simps)
  also have "\<dots> = ?w - take_bit 4 ?w"
    by (rule and_not_mask_eq)
  finally have eq: "align_up b = ?w - take_bit 4 ?w" .
  have mod: "unat (take_bit 4 ?w) = unat ?w mod 16"
    by (simp add: take_bit_eq_mod unat_mod)
  then have "take_bit 4 ?w \<le> ?w"
    by (simp add: word_le_nat_alt)
  then have "unat (align_up b) = unat ?w - unat ?w mod 16"
    unfolding eq by (subst unat_sub) (simp_all add: mod)
  then show ?thesis
    using w by (simp add: minus_mod_eq_div_mult)
qed

lemma align_up_bounds:
  assumes "unat b < 2 ^ 63"
  shows "unat b \<le> unat (align_up b)" and "unat (align_up b) < unat b + 16"
    and "16 dvd unat (align_up b)"
  using unat_align_up [OF assms] by simp_all

lemma arena_inv_bump: "arena_inv a \<Longrightarrow> unat (bump a) < 2 ^ 63"
  by (auto simp: arena_inv_def word_le_nat_alt)

lemma alloc_ok:
  assumes "arena_inv a" and "alloc sz a = (Inr off, a')"
  shows "off = align_up (bump a)" and "unat (bump a) \<le> unat off" and "16 dvd unat off"
    and "unat (bump a') = unat off + unat sz" and "unat off + unat sz \<le> unat (capacity a)"
    and "a' = a\<lparr>bump := bump a'\<rparr>" and "arena_inv a'"
proof -
  note b = arena_inv_bump [OF assms(1)]
  from assms(2) obtain e where e: "checked_add (align_up (bump a)) sz = Some e" "\<not> capacity a < e"
      and off: "off = align_up (bump a)" and a': "a' = a\<lparr>bump := e\<rparr>"
    by (auto simp: alloc_def Let_def split: option.splits if_splits)
  then have ue: "unat e = unat off + unat sz"
    by (auto dest: checked_add_Some)
  show "off = align_up (bump a)" by (rule off)
  show "unat (bump a) \<le> unat off" "16 dvd unat off"
    using align_up_bounds [OF b] off by simp_all
  show "unat (bump a') = unat off + unat sz" using a' ue by simp
  show "unat off + unat sz \<le> unat (capacity a)" using e(2) ue by (simp add: word_less_nat_alt)
  show "a' = a\<lparr>bump := bump a'\<rparr>" using a' by simp
  show "arena_inv a'" using assms(1) a' e(2) by (simp add: arena_inv_def)
qed

lemma alloc_bump_mono:
  assumes "arena_inv a" and "alloc sz a = (Inr off, a')"
  shows "unat (bump a) \<le> unat (bump a')"
  using alloc_ok(2,4) [OF assms] by simp

lemma alloc_err: "alloc sz a = (Inl e, a') \<Longrightarrow> a' = a"
  by (auto simp: alloc_def Let_def split: option.splits if_splits)

lemma alloc_fits:
  assumes "arena_inv a"
  shows "(\<exists>off a'. alloc sz a = (Inr off, a')) \<longleftrightarrow>
    (unat (bump a) + 15) div 16 * 16 + unat sz \<le> unat (capacity a)"
proof -
  note up = unat_align_up [OF arena_inv_bump [OF assms]]
  have cap: "unat (capacity a) < 2 ^ 63" using assms by (simp add: arena_inv_def)
  show ?thesis
  proof (cases "checked_add (align_up (bump a)) sz")
    case None
    then have "2 ^ 64 \<le> unat (align_up (bump a)) + unat sz"
      by (simp add: checked_add_None)
    with None show ?thesis
      using up cap by (auto simp: alloc_def Let_def)
  next
    case (Some e)
    then have "unat e = (unat (bump a) + 15) div 16 * 16 + unat sz"
      using up by (simp add: checked_add_Some)
    with Some show ?thesis
      by (auto simp: alloc_def Let_def word_less_nat_alt)
  qed
qed

lemma alloc_keeps [simp]:
  "capacity (snd (alloc sz a)) = capacity a" "mmap (snd (alloc sz a)) = mmap a"
  "arena_id (snd (alloc sz a)) = arena_id a"
  by (auto simp: alloc_def Let_def split: option.split)

lemma alloc_mmap: "alloc sz a = (r, a') \<Longrightarrow> mmap a' = mmap a"
  by (auto simp: alloc_def Let_def split: option.splits if_splits)

lemma byte_slice_Some: "byte_slice mem off len = Some bs \<Longrightarrow> length bs = len"
  by (auto simp: byte_slice_def split: if_splits)

lemma length_mmap_write: "mmap_write off bs mem = Some mem' \<Longrightarrow> length mem' = length mem"
  by (auto simp: mmap_write_def split: if_splits)

lemma byte_slice_write_same:
  "mmap_write off bs mem = Some mem' \<Longrightarrow> byte_slice mem' off (length bs) = Some bs"
  by (auto simp: mmap_write_def byte_slice_def split: if_splits)

lemma byte_slice_write_other:
  assumes "mmap_write off bs mem = Some mem'" and "o' + len \<le> off \<or> off + length bs \<le> o'"
  shows "byte_slice mem' o' len = byte_slice mem o' len"
proof -
  have le: "off + length bs \<le> length mem"
    and mem': "mem' = take off mem @ bs @ drop (off + length bs) mem"
    using assms(1) by (auto simp: mmap_write_def split: if_splits)
  from assms(2) have "take len (drop o' mem') = take len (drop o' mem)"
  proof
    assume "o' + len \<le> off"
    then show ?thesis
      using le by (auto simp: mem' drop_take min_def)
  next
    assume "off + length bs \<le> o'"
    then have "drop o' mem' = drop o' mem"
      using le by (simp add: mem')
    then show ?thesis by simp
  qed
  then show ?thesis
    using length_mmap_write [OF assms(1)] by (simp add: byte_slice_def)
qed

lemma mmap_write_Some: "off + length bs \<le> length mem \<Longrightarrow> \<exists>mem'. mmap_write off bs mem = Some mem'"
  by (simp add: mmap_write_def)

lemma mmap_write_prefix: "mmap_write off bs mem = Some mem' \<Longrightarrow> b \<le> off \<Longrightarrow> take b mem' = take b mem"
  by (auto simp: mmap_write_def min_def split: if_splits)

lemma byte_slice_prefix:
  assumes "take b mem' = take b mem" and "length mem' = length mem" and "off + len \<le> b"
  shows "byte_slice mem' off len = byte_slice mem off len"
proof -
  have "take len (drop off (take b m)) = take len (drop off m)" for m :: bytes
    using assms(3) by (simp add: drop_take)
  from this [of mem] this [of mem'] assms(1,2) show ?thesis
    by (simp add: byte_slice_def)
qed

section \<open>Properties\<close>

text \<open>Allocation hands out 16-byte aligned regions above everything handed out before and inside the
  mapping, without arithmetic overflow; it fails exactly when the aligned request does not fit, and then
  changes nothing.\<close>

lemma arena_alloc_in_bounds:
  assumes "arena_inv a"
  shows "(alloc sz a = (Inr off, a') \<longrightarrow>
       16 dvd unat off \<and> unat (bump a) \<le> unat off \<and> unat off < unat (bump a) + 16
       \<and> unat off + unat sz = unat (bump a') \<and> unat (bump a') \<le> length (mmap a') \<and> arena_inv a')
    \<and> (alloc sz a = (Inl e, a') \<longrightarrow>
       a' = a \<and> unat (capacity a) < (unat (bump a) + 15) div 16 * 16 + unat sz)"
proof (intro conjI impI)
  assume al: "alloc sz a = (Inr off, a')"
  note ok = alloc_ok [OF assms al]
  show "16 dvd unat off" "unat (bump a) \<le> unat off" "arena_inv a'"
    "unat off + unat sz = unat (bump a')"
    using ok by simp_all
  show "unat off < unat (bump a) + 16"
    using align_up_bounds(2) [OF arena_inv_bump [OF assms]] ok(1) by simp
  show "unat (bump a') \<le> length (mmap a')"
    using ok(7) by (simp add: arena_inv_def word_le_nat_alt)
next
  assume al: "alloc sz a = (Inl e, a')"
  then show "a' = a" by (rule alloc_err)
  show "unat (capacity a) < (unat (bump a) + 15) div 16 * 16 + unat sz"
    using alloc_fits [OF assms, of sz, where 'a = 'b] al by (auto simp: not_le [symmetric])
qed

lemma arena_alloc_in_bounds_witness:
  "arena_inv \<lparr>arena_id = 0, capacity = 64, bump = 5, mmap = replicate 64 0\<rparr>
   \<and> alloc 8 \<lparr>arena_id = 0, capacity = 64, bump = 5, mmap = replicate 64 0\<rparr>
      = (Inr 16 :: unit ArenaError + u64, \<lparr>arena_id = 0, capacity = 64, bump = 24, mmap = replicate 64 0\<rparr>)
   \<and> 16 dvd unat (16 :: u64)"
proof -
  let ?a = "\<lparr>arena_id = 0, capacity = 64, bump = 5, mmap = replicate 64 0\<rparr>"
  let ?a' = "\<lparr>arena_id = 0, capacity = 64, bump = 24, mmap = replicate 64 0\<rparr>"
  have inv: "arena_inv ?a" by (simp add: arena_inv_def)
  have al: "alloc 8 ?a = (Inr 16 :: unit ArenaError + u64, ?a')"
    by (simp add: alloc_def align_up_def OBJECT_ALIGN_def checked_add_def Let_def)
  show ?thesis
    using arena_alloc_in_bounds [OF inv, of 8 16 ?a', where ?'a = unit] inv al by simp
qed

end
