(* ===== verification/Plasma_Server.thy ===== *)
theory Plasma_Server
imports Plasma_Arena
begin

text \<open>
  The object store server: messages of \<open>rayd-plasma/src/wire.rs\<close>, error kinds of \<open>error.rs\<close>, and the
  request handlers of \<open>server.rs\<close>, on the object table and the arena.  A handler returns the new state,
  the response, and whether the arena's file descriptor is attached to it.  Metrics are an optional
  record of counters and gauges, as in the code.  A panic (a slice out of range) is \<open>None\<close>.
\<close>

section \<open>Messages\<close>

type_synonym ObjectIdBytes = bytes

record AddressBlob =
  blob_host :: bytes
  blob_port :: u16
  blob_worker_id :: bytes

definition AddressBlob_nil :: AddressBlob where
  "AddressBlob_nil = \<lparr>blob_host = [], blob_port = 0, blob_worker_id = replicate 16 0\<rparr>"

datatype ServerErrorKind = NotFound | AlreadyExists | OutOfMemory | NotSealed | AlreadySealed | Internal

record CreateRequest =
  req_object_id :: ObjectIdBytes
  req_metadata_size :: u64
  req_data_size :: u64
  req_owner :: AddressBlob

datatype Request =
    Create CreateRequest
  | Seal ObjectIdBytes
  | Get ObjectIdBytes
  | Contains ObjectIdBytes
  | Release ObjectIdBytes
  | Delete ObjectIdBytes
  | List
  | Disconnect

record SlotInfo =
  info_arena_id :: u64
  info_arena_capacity :: u64
  info_metadata_offset :: u64
  info_metadata_size :: u64
  info_data_offset :: u64
  info_data_size :: u64
  info_sealed :: bool

datatype Response =
    ResponseOk
  | Created SlotInfo
  | Got SlotInfo
  | ResponseContains bool "bytes option" bool
  | Listed "ObjectIdBytes list"
  | ResponseError ServerErrorKind bytes

section \<open>Server state\<close>

record ObjectEntry =
  metadata_offset :: u64
  metadata_size :: u64
  data_offset :: u64
  data_size :: u64
  sealed :: bool

record PlasmaMetrics =
  create_total :: u64
  get_total :: u64
  delete_total :: u64
  objects_total :: nat
  arena_bytes_used :: nat

record PlasmaServer =
  objects :: "(ObjectIdBytes, ObjectEntry) hmap"
  arena :: Arena
  metrics :: "PlasmaMetrics option"

text \<open>\<open>i64::try_from(n).unwrap_or(i64::MAX)\<close>, the value written to a gauge.\<close>

definition gauge_i64 :: "nat \<Rightarrow> nat" where
  "gauge_i64 n = min n (2 ^ 63 - 1)"

text \<open>The \<open>Display\<close> form of an allocation failure.\<close>

definition oom_message :: "'k ArenaError \<Rightarrow> bytes" where
  "oom_message e =
     (case e of
        ArenaOutOfMemory requested left \<Rightarrow>
          ascii ''arena out of memory: requested '' @ dec_digits (unat requested)
          @ ascii '' bytes, only '' @ dec_digits (unat left) @ ascii '' remaining''
      | _ \<Rightarrow> [])"

section \<open>Handlers\<close>

type_synonym reply = "Response \<times> bool"

definition err_response :: "ServerErrorKind \<Rightarrow> string \<Rightarrow> Response" where
  "err_response kind msg = ResponseError kind (ascii msg)"

definition slot_info :: "Arena \<Rightarrow> ObjectEntry \<Rightarrow> bool \<Rightarrow> SlotInfo" where
  "slot_info a e sl =
     \<lparr>info_arena_id = arena_id a, info_arena_capacity = capacity a,
      info_metadata_offset = metadata_offset e, info_metadata_size = metadata_size e,
      info_data_offset = data_offset e, info_data_size = data_size e, info_sealed = sl\<rparr>"

definition count_create :: "PlasmaServer \<Rightarrow> PlasmaServer" where
  "count_create s = s\<lparr>metrics := map_option (\<lambda>m. m\<lparr>create_total := create_total m + 1\<rparr>) (metrics s)\<rparr>"

definition set_gauges :: "PlasmaServer \<Rightarrow> PlasmaServer" where
  "set_gauges s =
     s\<lparr>metrics := map_option (\<lambda>m. m\<lparr>objects_total := gauge_i64 (length (objects s)),
                                   arena_bytes_used := gauge_i64 (unat (used (arena s)))\<rparr>) (metrics s)\<rparr>"

definition handle_create :: "CreateRequest \<Rightarrow> PlasmaServer \<Rightarrow> PlasmaServer \<times> reply" where
  "handle_create req s0 =
     (let s = count_create s0
      in if hm_contains (objects s) (req_object_id req)
         then (s, (err_response AlreadyExists ''object already created'', False))
         else
           (case alloc (req_metadata_size req) (arena s) :: (unit ArenaError, u64) result \<times> Arena of
              (Inl e, a1) \<Rightarrow> (s\<lparr>arena := a1\<rparr>, (ResponseError OutOfMemory (oom_message e), False))
            | (Inr moff, a1) \<Rightarrow>
                (case alloc (req_data_size req) a1 :: (unit ArenaError, u64) result \<times> Arena of
                   (Inl e, a2) \<Rightarrow> (s\<lparr>arena := a2\<rparr>, (ResponseError OutOfMemory (oom_message e), False))
                 | (Inr doff, a2) \<Rightarrow>
                     (let entry = \<lparr>metadata_offset = moff, metadata_size = req_metadata_size req,
                                   data_offset = doff, data_size = req_data_size req, sealed = False\<rparr>;
                          s' = set_gauges
                                 (s\<lparr>arena := a2,
                                    objects := hm_insert (req_object_id req) entry (objects s)\<rparr>)
                      in (s', (Created (slot_info a2 entry False), True))))))"

definition handle_seal :: "ObjectIdBytes \<Rightarrow> PlasmaServer \<Rightarrow> PlasmaServer \<times> reply" where
  "handle_seal oid s =
     (case hm_get (objects s) oid of
        None \<Rightarrow> (s, (err_response NotFound ''object not present'', False))
      | Some e \<Rightarrow>
          if sealed e then (s, (err_response AlreadySealed ''object already sealed'', False))
          else (s\<lparr>objects := hm_insert oid (e\<lparr>sealed := True\<rparr>) (objects s)\<rparr>, (ResponseOk, False)))"

definition handle_get :: "ObjectIdBytes \<Rightarrow> PlasmaServer \<Rightarrow> PlasmaServer \<times> reply" where
  "handle_get oid s0 =
     (let s = s0\<lparr>metrics := map_option (\<lambda>m. m\<lparr>get_total := get_total m + 1\<rparr>) (metrics s0)\<rparr>
      in case hm_get (objects s) oid of
           None \<Rightarrow> (s, (err_response NotFound ''not found'', False))
         | Some e \<Rightarrow>
             if \<not> sealed e then (s, (err_response NotSealed ''object not yet sealed'', False))
             else (s, (Got (slot_info (arena s) e True), True)))"

definition handle_contains :: "ObjectIdBytes \<Rightarrow> PlasmaServer \<Rightarrow> (PlasmaServer \<times> reply) option" where
  "handle_contains oid s =
     (case hm_get (objects s) oid of
        None \<Rightarrow> Some (s, (ResponseContains False None False, False))
      | Some e \<Rightarrow>
          if sealed e then
            (case read_copy (metadata_offset e) (metadata_size e) (arena s) of
               None \<Rightarrow> None
             | Some md \<Rightarrow> Some (s, (ResponseContains True (Some md) True, False)))
          else Some (s, (ResponseContains True None False, False)))"

definition handle_delete :: "ObjectIdBytes \<Rightarrow> PlasmaServer \<Rightarrow> PlasmaServer \<times> reply" where
  "handle_delete oid s0 =
     (let s = s0\<lparr>metrics := map_option (\<lambda>m. m\<lparr>delete_total := delete_total m + 1\<rparr>) (metrics s0)\<rparr>
      in (set_gauges (s\<lparr>objects := hm_remove oid (objects s)\<rparr>), (ResponseOk, False)))"

definition handle_list :: "PlasmaServer \<Rightarrow> PlasmaServer \<times> reply" where
  "handle_list s = (s, (Listed (hm_keys (objects s)), False))"

text \<open>
  The dispatch of \<open>handle_connection\<close>: the outer option is a panic of the connection thread, the
  inner one the end of the connection.
\<close>

fun handle_request :: "Request \<Rightarrow> PlasmaServer \<Rightarrow> (PlasmaServer \<times> reply option) option" where
  "handle_request Disconnect s = Some (s, None)"
| "handle_request (Create req) s = Some (map_prod (\<lambda>x. x) Some (handle_create req s))"
| "handle_request (Seal oid) s = Some (map_prod (\<lambda>x. x) Some (handle_seal oid s))"
| "handle_request (Get oid) s = Some (map_prod (\<lambda>x. x) Some (handle_get oid s))"
| "handle_request (Contains oid) s = map_option (map_prod (\<lambda>x. x) Some) (handle_contains oid s)"
| "handle_request (Release oid) s = Some (map_prod (\<lambda>x. x) Some (handle_delete oid s))"
| "handle_request (Delete oid) s = Some (map_prod (\<lambda>x. x) Some (handle_delete oid s))"
| "handle_request List s = Some (map_prod (\<lambda>x. x) Some (handle_list s))"

definition server_new :: "Arena \<Rightarrow> PlasmaMetrics option \<Rightarrow> PlasmaServer" where
  "server_new a m = \<lparr>objects = [], arena = a, metrics = m\<rparr>"

text \<open>What \<open>recv_frame\<close> and \<open>decode\<close> deliver to the connection loop, one item per iteration.\<close>

datatype incoming =
    InRequest Request
  | InMalformed bytes
  | InEof
  | InProtocol
  | InError

datatype conn_end = ConnOk | ConnErr | ConnPanic | ConnOpen

text \<open>
  The loop of \<open>handle_connection\<close> on a finite run of received items; \<open>sent\<close> says of each response
  whether writing it succeeded.  The result is the final state, the responses written, and how the
  loop ended (\<open>ConnOpen\<close>: it waits for the next frame).
\<close>

fun handle_connection ::
  "(incoming \<times> bool) list \<Rightarrow> PlasmaServer \<Rightarrow> PlasmaServer \<times> Response list \<times> conn_end" where
  "handle_connection [] s = (s, [], ConnOpen)"
| "handle_connection ((i, sent) # rest) s =
     (case i of
        InEof \<Rightarrow> (s, [], ConnOk)
      | InProtocol \<Rightarrow> (s, [], ConnOk)
      | InError \<Rightarrow> (s, [], ConnErr)
      | InMalformed e \<Rightarrow>
          if \<not> sent then (s, [], ConnErr)
          else (case handle_connection rest s of
                  (s', rs, en) \<Rightarrow>
                    (s', ResponseError Internal (ascii ''malformed request: '' @ e) # rs, en))
      | InRequest req \<Rightarrow>
          (case handle_request req s of
             None \<Rightarrow> (s, [], ConnPanic)
           | Some (s', None) \<Rightarrow> (s', [], ConnOk)
           | Some (s', Some (r, fd)) \<Rightarrow>
               if \<not> sent then (s', [], ConnErr)
               else (case handle_connection rest s' of (s'', rs, en) \<Rightarrow> (s'', r # rs, en))))"

section \<open>Memory safety of the handlers\<close>

datatype Part = MetaPart | DataPart

fun part_range :: "Part \<Rightarrow> ObjectEntry \<Rightarrow> nat \<times> nat" where
  "part_range MetaPart e = (unat (metadata_offset e), unat (metadata_size e))"
| "part_range DataPart e = (unat (data_offset e), unat (data_size e))"

fun range_end :: "nat \<times> nat \<Rightarrow> nat" where
  "range_end (off, len) = off + len"

fun ranges_disjoint :: "nat \<times> nat \<Rightarrow> nat \<times> nat \<Rightarrow> bool" where
  "ranges_disjoint (off, len) (off', len') \<longleftrightarrow> off + len \<le> off' \<or> off' + len' \<le> off"

definition slots_inv :: "(ObjectIdBytes, ObjectEntry) hmap \<Rightarrow> nat \<Rightarrow> bool" where
  "slots_inv tab b \<longleftrightarrow>
     (\<forall>i e p. hm_get tab i = Some e \<longrightarrow> range_end (part_range p e) \<le> b \<and> 16 dvd fst (part_range p e))
     \<and> (\<forall>i j e f p q. hm_get tab i = Some e \<longrightarrow> hm_get tab j = Some f \<longrightarrow> (i, p) \<noteq> (j, q) \<longrightarrow>
          ranges_disjoint (part_range p e) (part_range q f))"

definition server_inv :: "PlasmaServer \<Rightarrow> bool" where
  "server_inv s \<longleftrightarrow>
     hm_wf (objects s) \<and> arena_inv (arena s) \<and> slots_inv (objects s) (unat (bump (arena s)))"

lemma ranges_disjoint_sym: "ranges_disjoint r r' \<longleftrightarrow> ranges_disjoint r' r"
  by (cases r; cases r') auto

lemma ranges_disjoint_before: "range_end r \<le> fst r' \<Longrightarrow> ranges_disjoint r r'"
  by (cases r; cases r') auto

lemma part_range_sealed [simp]: "part_range p (e\<lparr>sealed := b\<rparr>) = part_range p e"
  by (cases p) simp_all

lemma slots_inv_mono: "slots_inv tab b \<Longrightarrow> b \<le> b' \<Longrightarrow> slots_inv tab b'"
  unfolding slots_inv_def by (meson le_trans)

lemma slots_inv_remove: "slots_inv tab b \<Longrightarrow> slots_inv (hm_remove i tab) b"
  unfolding slots_inv_def by (simp split: if_splits)

text \<open>An entry whose two ranges lie above everything handed out before may join the table.\<close>

lemma slots_inv_insert:
  assumes inv: "slots_inv tab b"
    and lo: "b \<le> fst (part_range MetaPart e)"
    and mid: "range_end (part_range MetaPart e) \<le> fst (part_range DataPart e)"
    and hi: "range_end (part_range DataPart e) \<le> b'"
    and al: "16 dvd fst (part_range MetaPart e)" "16 dvd fst (part_range DataPart e)"
  shows "slots_inv (hm_insert i e tab) b'"
proof -
  have ends: "range_end (part_range p e) \<le> b'" "b \<le> fst (part_range p e)"
      "16 dvd fst (part_range p e)" for p
    using lo mid hi al by (cases p; simp)+
  have "b \<le> b'" using lo mid hi by simp
  then have old_end: "range_end (part_range p f) \<le> b'" "16 dvd fst (part_range p f)"
    if "hm_get tab j = Some f" for j f p
    using inv that unfolding slots_inv_def by (meson le_trans)+
  have cross: "ranges_disjoint (part_range p f) (part_range q e)" if "hm_get tab j = Some f" for j f p q
    using inv that ends(2) [of q] unfolding slots_inv_def
    by (meson ranges_disjoint_before le_trans)
  have own: "ranges_disjoint (part_range p e) (part_range q e)" if "p \<noteq> q" for p q
    using that mid by (cases p; cases q) auto
  have "ranges_disjoint (part_range p x) (part_range q y)"
    if x: "hm_get (hm_insert i e tab) j = Some x" and y: "hm_get (hm_insert i e tab) k = Some y"
      and ne: "(j, p) \<noteq> (k, q)" for j k x y p q
  proof (cases "j = i"; cases "k = i")
    assume "j \<noteq> i" "k \<noteq> i"
    with x y ne inv show ?thesis by (simp add: slots_inv_def)
  next
    assume "j = i" "k \<noteq> i"
    with x y cross [of k y q p] show ?thesis by (simp add: ranges_disjoint_sym)
  next
    assume "j \<noteq> i" "k = i"
    with x y cross [of j x p q] show ?thesis by simp
  next
    assume "j = i" "k = i"
    with x y ne own [of p q] show ?thesis by simp
  qed
  moreover have "range_end (part_range p x) \<le> b' \<and> 16 dvd fst (part_range p x)"
    if "hm_get (hm_insert i e tab) j = Some x" for j x p
    using that ends old_end by (cases "j = i") simp_all
  ultimately show ?thesis
    unfolding slots_inv_def by blast
qed

lemma slots_inv_seal:
  assumes inv: "slots_inv tab b" and e: "hm_get tab i = Some e"
  shows "slots_inv (hm_insert i (e\<lparr>sealed := True\<rparr>) tab) b"
proof -
  let ?tab = "hm_insert i (e\<lparr>sealed := True\<rparr>) tab"
  have same: "\<exists>y. hm_get tab j = Some y \<and> (\<forall>p. part_range p x = part_range p y)"
    if "hm_get ?tab j = Some x" for j x
    using that e by (cases "j = i") auto
  have "ranges_disjoint (part_range p x) (part_range q y)"
    if xy: "hm_get ?tab j = Some x" "hm_get ?tab k = Some y" "(j, p) \<noteq> (k, q)" for j k x y p q
  proof -
    obtain x' y' where "hm_get tab j = Some x'" "hm_get tab k = Some y'"
        "part_range p x = part_range p x'" "part_range q y = part_range q y'"
      using same [OF xy(1)] same [OF xy(2)] by blast
    with inv xy(3) show ?thesis by (simp add: slots_inv_def)
  qed
  moreover have "range_end (part_range p x) \<le> b \<and> 16 dvd fst (part_range p x)"
    if "hm_get ?tab j = Some x" for j x p
    using same [OF that] inv by (auto simp: slots_inv_def)
  ultimately show ?thesis
    unfolding slots_inv_def by blast
qed

lemma count_create_simps [simp]:
  "objects (count_create s) = objects s" "arena (count_create s) = arena s"
  by (simp_all add: count_create_def)

lemma set_gauges_simps [simp]: "objects (set_gauges s) = objects s" "arena (set_gauges s) = arena s"
  by (simp_all add: set_gauges_def)

text \<open>The branches of \<open>handle_create\<close>.\<close>

lemma handle_create_cases:
  assumes "handle_create req s = (s', reply)"
  obtains
    (exists) "hm_contains (objects s) (req_object_id req)" "s' = count_create s"
      "reply = (err_response AlreadyExists ''object already created'', False)"
  | (oom) e a' where "\<not> hm_contains (objects s) (req_object_id req)"
      "s' = (count_create s)\<lparr>arena := a'\<rparr>"
      "reply = (ResponseError OutOfMemory (oom_message (e :: unit ArenaError)), False)"
      "a' = arena s \<or> (\<exists>off. alloc (req_metadata_size req) (arena s) = (Inr off :: unit ArenaError + u64, a'))"
  | (created) moff a1 doff a2 entry where "\<not> hm_contains (objects s) (req_object_id req)"
      "alloc (req_metadata_size req) (arena s) = (Inr moff :: unit ArenaError + u64, a1)"
      "alloc (req_data_size req) a1 = (Inr doff :: unit ArenaError + u64, a2)"
      "entry = \<lparr>metadata_offset = moff, metadata_size = req_metadata_size req, data_offset = doff,
                data_size = req_data_size req, sealed = False\<rparr>"
      "s' = set_gauges ((count_create s)\<lparr>arena := a2, objects := hm_insert (req_object_id req) entry (objects s)\<rparr>)"
      "reply = (Created (slot_info a2 entry False), True)"
proof (cases "hm_contains (objects s) (req_object_id req)")
  case True
  then show thesis
    using assms exists by (simp add: handle_create_def Let_def)
next
  case False
  obtain r1 a1 where r1: "alloc (req_metadata_size req) (arena s) = (r1 :: unit ArenaError + u64, a1)"
    by (cases "alloc (req_metadata_size req) (arena s) :: (unit ArenaError + u64) \<times> Arena")
  obtain r2 a2 where r2: "alloc (req_data_size req) a1 = (r2 :: unit ArenaError + u64, a2)"
    by (cases "alloc (req_data_size req) a1 :: (unit ArenaError + u64) \<times> Arena")
  show thesis
  proof (cases r1)
    case (Inl e)
    then show thesis
      using assms False r1 alloc_err [of "req_metadata_size req" "arena s" e a1] oom [of a1 e]
      by (simp add: handle_create_def Let_def)
  next
    case m: (Inr moff)
    show thesis
    proof (cases r2)
      case (Inl e)
      then show thesis
        using assms False r1 r2 m alloc_err [of "req_data_size req" a1 e a2] oom [of a2 e]
        by (auto simp: handle_create_def Let_def)
    next
      case (Inr doff)
      then show thesis
        using assms False r1 r2 m created [of moff a1 doff a2]
        by (simp add: handle_create_def Let_def)
    qed
  qed
qed

lemma server_inv_create:
  assumes inv: "server_inv s" and h: "handle_create req s = (s', r)"
  shows "server_inv s'"
  using h
proof (cases rule: handle_create_cases)
  case exists
  with inv show ?thesis by (simp add: server_inv_def)
next
  case (oom e a')
  have a0: "arena_inv (arena s)" using inv by (simp add: server_inv_def)
  from oom(4) have "arena_inv a' \<and> unat (bump (arena s)) \<le> unat (bump a')"
  proof
    assume "\<exists>off. alloc (req_metadata_size req) (arena s) = (Inr off :: unit ArenaError + u64, a')"
    then obtain off where "alloc (req_metadata_size req) (arena s) = (Inr off :: unit ArenaError + u64, a')" ..
    from alloc_ok [OF a0 this] show ?thesis by simp
  qed (use a0 in simp)
  with inv oom show ?thesis
    by (auto simp: server_inv_def intro: slots_inv_mono)
next
  case (created moff a1 doff a2 entry)
  note m = alloc_ok [OF _ created(2)] and d = alloc_ok [OF _ created(3)]
  have a0: "arena_inv (arena s)" using inv by (simp add: server_inv_def)
  then have a1: "arena_inv a1" by (rule m(7))
  have "slots_inv (hm_insert (req_object_id req) entry (objects s)) (unat (bump a2))"
  proof (rule slots_inv_insert)
    show "slots_inv (objects s) (unat (bump (arena s)))" using inv by (simp add: server_inv_def)
  qed (use m(2-4) [OF a0] d(2-4) [OF a1] created(4) in simp_all)
  with inv created(5) d(7) [OF a1] show ?thesis
    by (simp add: server_inv_def)
qed

lemma handle_create_bump:
  assumes inv: "server_inv s" and h: "handle_create req s = (s', r)"
  shows "unat (bump (arena s)) \<le> unat (bump (arena s'))"
  using h
proof (cases rule: handle_create_cases)
  case (oom e a')
  have "arena_inv (arena s)" using inv by (simp add: server_inv_def)
  with oom(4) have "unat (bump (arena s)) \<le> unat (bump a')"
    by (auto intro: alloc_bump_mono)
  with oom(2) show ?thesis by simp
next
  case (created moff a1 doff a2 entry)
  have "arena_inv (arena s)" using inv by (simp add: server_inv_def)
  note m = alloc_ok [OF this created(2)]
  show ?thesis
    using created(5) m(2,4) alloc_ok(2,4) [OF m(7) created(3)] by simp
qed simp

lemma server_inv_seal: "server_inv s \<Longrightarrow> handle_seal i s = (s', r) \<Longrightarrow> server_inv s'"
  by (auto simp: handle_seal_def server_inv_def slots_inv_seal split: option.splits if_splits)

lemma server_inv_get: "server_inv s \<Longrightarrow> handle_get i s = (s', r) \<Longrightarrow> server_inv s'"
  by (auto simp: handle_get_def server_inv_def Let_def split: option.splits if_splits)

lemma server_inv_delete: "server_inv s \<Longrightarrow> handle_delete i s = (s', r) \<Longrightarrow> server_inv s'"
  by (auto simp: handle_delete_def server_inv_def slots_inv_remove Let_def)

lemma part_in_arena:
  assumes "server_inv s" and "hm_get (objects s) i = Some e"
  shows "range_end (part_range p e) \<le> unat (bump (arena s))"
    and "range_end (part_range p e) \<le> length (mmap (arena s))"
proof -
  show "range_end (part_range p e) \<le> unat (bump (arena s))"
    using assms by (simp add: server_inv_def slots_inv_def)
  also have "\<dots> \<le> length (mmap (arena s))"
    using assms by (simp add: server_inv_def arena_inv_def word_le_nat_alt)
  finally show "range_end (part_range p e) \<le> length (mmap (arena s))" .
qed

lemma handle_contains_total:
  assumes "server_inv s"
  shows "\<exists>r. handle_contains i s = Some (s, r)"
proof (cases "hm_get (objects s) i")
  case (Some e)
  then show ?thesis
    using part_in_arena(2) [OF assms Some, of MetaPart]
    by (auto simp: handle_contains_def read_copy_def byte_slice_def)
qed (auto simp: handle_contains_def)

lemma handle_request_inv:
  assumes "server_inv s"
  shows "\<exists>s' r. handle_request req s = Some (s', r) \<and> server_inv s'"
proof (cases req)
  case (Contains i)
  then show ?thesis
    using assms handle_contains_total [OF assms, of i] by auto
qed (use assms in \<open>auto simp: map_prod_def handle_list_def split: prod.split
      intro: server_inv_create server_inv_seal server_inv_get server_inv_delete\<close>)

lemma handle_connection_inv:
  "server_inv s \<Longrightarrow>
     server_inv (fst (handle_connection items s)) \<and> snd (snd (handle_connection items s)) \<noteq> ConnPanic"
proof (induction items arbitrary: s)
  case (Cons item rest)
  obtain i sent where item: "item = (i, sent)" by (cases item)
  show ?case
  proof (cases i)
    case (InRequest req)
    obtain s1 r where r: "handle_request req s = Some (s1, r)" "server_inv s1"
      using handle_request_inv [OF Cons.prems] by blast
    show ?thesis
      using Cons.IH [OF r(2)] r item InRequest
      by (cases r; cases sent) (auto simp: split_beta)
  qed (use Cons item in \<open>cases sent; simp add: split_beta\<close>)+
qed simp

lemma server_inv_new: "arena_inv a \<Longrightarrow> server_inv (server_new a m)"
  by (simp add: server_inv_def server_new_def slots_inv_def)

section \<open>Properties\<close>

text \<open>C4. Memory safety of a connection: whatever frames a client sends, the handlers keep the table
  consistent with the arena (every slot aligned, inside the bytes handed out, and disjoint from every
  other slot) and never read outside the mapping.\<close>

theorem connection_keeps_slots_safe:
  assumes "server_inv s" and "handle_connection items s = (s', responses, outcome)"
  shows "server_inv s' \<and> outcome \<noteq> ConnPanic"
  using handle_connection_inv [OF assms(1), of items] assms(2) by simp

definition example_server :: PlasmaServer where
  "example_server = server_new \<lparr>arena_id = 0, capacity = 64, bump = 0, mmap = replicate 64 0\<rparr> None"

definition example_items :: "(incoming \<times> bool) list" where
  "example_items =
     [(InRequest (Create \<lparr>req_object_id = [1], req_metadata_size = 1, req_data_size = 4,
         req_owner = AddressBlob_nil\<rparr>), True),
      (InRequest (Seal [1]), True), (InRequest (Contains [1]), True), (InEof, True)]"

lemma example_server_inv: "server_inv example_server"
  unfolding example_server_def by (rule server_inv_new) (simp add: arena_inv_def)

theorem connection_keeps_slots_safe_witness:
  "\<exists>s' rs. handle_connection example_items example_server = (s', rs, ConnOk) \<and> server_inv s'"
proof -
  obtain s' rs en where run: "handle_connection example_items example_server = (s', rs, en)"
    by (metis surj_pair)
  have "snd (snd (handle_connection example_items example_server)) = ConnOk"
    by (simp add: example_items_def example_server_def server_new_def handle_create_def count_create_def
        alloc_def align_up_def OBJECT_ALIGN_def checked_add_def hm_contains_def set_gauges_def
        handle_seal_def handle_contains_def read_copy_def byte_slice_def Let_def split_beta)
  with run connection_keeps_slots_safe [OF example_server_inv run] show ?thesis by auto
qed

end
