(* ===== verification/Plasma_Client.thy ===== *)
theory Plasma_Client
imports Plasma_Server
begin

text \<open>
  The client side, \<open>rayd-plasma/src/client.rs\<close>.  Encoding a request, framing it, and decoding the reply
  are the parameter \<open>exchange\<close> of the client's methods; \<open>direct_exchange\<close> delivers the request to the
  server's dispatch, and theory \<open>Plasma_Wire\<close> shows that the framed socket does the same.  Client and
  server map the same pages, so the handles read and write the byte list of the server's arena.  The
  text of a protocol error is its constant prefix.  \<open>MemoryFault\<close> is not a value of the code: it stands
  for an access outside the mapping, and is shown never to occur.
\<close>

section \<open>Errors and connections\<close>

datatype PlasmaError =
    PlasmaIo
  | PlasmaEncode
  | PlasmaDecode
  | PlasmaNix
  | PlasmaServerError ServerErrorKind bytes
  | PlasmaProtocol bytes
  | PlasmaMmap bytes
  | MissingFd
  | MemoryFault

text \<open>\<open>mmap_ok\<close> is the kernel's answer to a request to map the arena's descriptor.\<close>

record PlasmaClient =
  cached_arenas :: "u64 list"
  mmap_ok :: bool

type_synonym conn = "PlasmaClient \<times> PlasmaServer"
type_synonym exchange =
  "Request \<Rightarrow> PlasmaServer \<Rightarrow> PlasmaServer \<times> (PlasmaError, Response \<times> nat) result"

definition direct_exchange :: exchange where
  "direct_exchange req s =
     (case handle_request req s of
        None \<Rightarrow> (s, Inl (PlasmaProtocol (ascii ''short header recv: '')))
      | Some (s', None) \<Rightarrow> (s', Inl (PlasmaProtocol (ascii ''short header recv: '')))
      | Some (s', Some (r, fd)) \<Rightarrow> (s', Inr (r, of_bool fd)))"

definition ensure_arena_mapped :: "SlotInfo \<Rightarrow> nat \<Rightarrow> PlasmaClient \<Rightarrow> PlasmaClient \<times> (PlasmaError, unit) result" where
  "ensure_arena_mapped info fds c =
     (if info_arena_id info \<in> set (cached_arenas c) then (c, Inr ())
      else if fds = 0 then (c, Inl MissingFd)
      else if \<not> mmap_ok c then (c, Inl (PlasmaMmap []))
      else (c\<lparr>cached_arenas := info_arena_id info # cached_arenas c\<rparr>, Inr ()))"

section \<open>Handles\<close>

text \<open>Copy as many of \<open>bs\<close> as the slot holds.\<close>

definition write_slot :: "u64 \<Rightarrow> u64 \<Rightarrow> bytes \<Rightarrow> bytes \<Rightarrow> bytes option" where
  "write_slot off sz bs mem =
     (if unat off + unat sz \<le> length mem
      then mmap_write (unat off) (take (min (length bs) (unat sz)) bs) mem else None)"

definition write_metadata :: "SlotInfo \<Rightarrow> bytes \<Rightarrow> bytes \<Rightarrow> bytes option" where
  "write_metadata info bs mem = write_slot (info_metadata_offset info) (info_metadata_size info) bs mem"

definition write_data :: "SlotInfo \<Rightarrow> bytes \<Rightarrow> bytes \<Rightarrow> bytes option" where
  "write_data info bs mem = write_slot (info_data_offset info) (info_data_size info) bs mem"

definition read_metadata :: "SlotInfo \<Rightarrow> bytes \<Rightarrow> bytes option" where
  "read_metadata info mem =
     byte_slice mem (unat (info_metadata_offset info)) (unat (info_metadata_size info))"

definition read_data :: "SlotInfo \<Rightarrow> bytes \<Rightarrow> bytes option" where
  "read_data info mem = byte_slice mem (unat (info_data_offset info)) (unat (info_data_size info))"

definition set_mmap :: "bytes \<Rightarrow> PlasmaServer \<Rightarrow> PlasmaServer" where
  "set_mmap mem s = s\<lparr>arena := (arena s)\<lparr>mmap := mem\<rparr>\<rparr>"

section \<open>Methods\<close>

definition unexpected :: "string \<Rightarrow> Response \<Rightarrow> PlasmaError" where
  "unexpected what r =
     (case r of ResponseError kind msg \<Rightarrow> PlasmaServerError kind msg | _ \<Rightarrow> PlasmaProtocol (ascii what))"

definition client_create ::
  "exchange \<Rightarrow> ObjectIdBytes \<Rightarrow> bytes \<Rightarrow> bytes \<Rightarrow> AddressBlob \<Rightarrow> conn \<Rightarrow>
   conn \<times> (PlasmaError, SlotInfo) result" where
  "client_create exchange oid md d owner st =
     (case st of (c, s) \<Rightarrow>
       (case exchange (Create \<lparr>req_object_id = oid, req_metadata_size = of_nat (length md),
                               req_data_size = of_nat (length d), req_owner = owner\<rparr>) s of
          (s1, Inl e) \<Rightarrow> ((c, s1), Inl e)
        | (s1, Inr (Created info, fds)) \<Rightarrow>
            (case ensure_arena_mapped info fds c of
               (c1, Inl e) \<Rightarrow> ((c1, s1), Inl e)
             | (c1, Inr _) \<Rightarrow>
                 (case write_metadata info md (mmap (arena s1)) of
                    None \<Rightarrow> ((c1, s1), Inl MemoryFault)
                  | Some mem1 \<Rightarrow>
                      (case write_data info d mem1 of
                         None \<Rightarrow> ((c1, set_mmap mem1 s1), Inl MemoryFault)
                       | Some mem2 \<Rightarrow> ((c1, set_mmap mem2 s1), Inr info))))
        | (s1, Inr (r, fds)) \<Rightarrow> ((c, s1), Inl (unexpected ''unexpected reply to Create: '' r))))"

definition expect_ok ::
  "string \<Rightarrow> PlasmaServer \<times> (PlasmaError, Response \<times> nat) result \<Rightarrow> PlasmaClient \<Rightarrow>
   conn \<times> (PlasmaError, unit) result" where
  "expect_ok what ex c =
     (case ex of
        (s1, Inl e) \<Rightarrow> ((c, s1), Inl e)
      | (s1, Inr (ResponseOk, _)) \<Rightarrow> ((c, s1), Inr ())
      | (s1, Inr (r, _)) \<Rightarrow> ((c, s1), Inl (unexpected what r)))"

definition client_seal :: "exchange \<Rightarrow> ObjectIdBytes \<Rightarrow> conn \<Rightarrow> conn \<times> (PlasmaError, unit) result" where
  "client_seal exchange oid st =
     (case st of (c, s) \<Rightarrow> expect_ok ''unexpected reply to Seal: '' (exchange (Seal oid) s) c)"

definition client_create_and_seal ::
  "exchange \<Rightarrow> ObjectIdBytes \<Rightarrow> bytes \<Rightarrow> bytes \<Rightarrow> AddressBlob \<Rightarrow> conn \<Rightarrow>
   conn \<times> (PlasmaError, unit) result" where
  "client_create_and_seal exchange oid md d owner st =
     (case client_create exchange oid md d owner st of
        (st1, Inl e) \<Rightarrow> (st1, Inl e)
      | (st1, Inr _) \<Rightarrow> client_seal exchange oid st1)"

definition client_get :: "exchange \<Rightarrow> ObjectIdBytes \<Rightarrow> conn \<Rightarrow> conn \<times> (PlasmaError, SlotInfo) result" where
  "client_get exchange oid st =
     (case st of (c, s) \<Rightarrow>
       (case exchange (Get oid) s of
          (s1, Inl e) \<Rightarrow> ((c, s1), Inl e)
        | (s1, Inr (Got info, fds)) \<Rightarrow>
            (case ensure_arena_mapped info fds c of
               (c1, Inl e) \<Rightarrow> ((c1, s1), Inl e)
             | (c1, Inr _) \<Rightarrow> ((c1, s1), Inr info))
        | (s1, Inr (r, fds)) \<Rightarrow> ((c, s1), Inl (unexpected ''unexpected reply to Get: '' r))))"

record ContainsResult =
  present :: bool
  res_sealed :: bool
  res_metadata :: "bytes option"

definition client_contains ::
  "exchange \<Rightarrow> ObjectIdBytes \<Rightarrow> conn \<Rightarrow> conn \<times> (PlasmaError, ContainsResult) result" where
  "client_contains exchange oid st =
     (case st of (c, s) \<Rightarrow>
       (case exchange (Contains oid) s of
          (s1, Inl e) \<Rightarrow> ((c, s1), Inl e)
        | (s1, Inr (ResponseContains pr md sl, _)) \<Rightarrow>
            ((c, s1), Inr \<lparr>present = pr, res_sealed = sl, res_metadata = md\<rparr>)
        | (s1, Inr (r, _)) \<Rightarrow> ((c, s1), Inl (unexpected ''unexpected reply to Contains: '' r))))"

definition client_release :: "exchange \<Rightarrow> ObjectIdBytes \<Rightarrow> conn \<Rightarrow> conn \<times> (PlasmaError, unit) result" where
  "client_release exchange oid st =
     (case st of (c, s) \<Rightarrow> expect_ok ''unexpected reply: '' (exchange (Release oid) s) c)"

definition client_delete :: "exchange \<Rightarrow> ObjectIdBytes \<Rightarrow> conn \<Rightarrow> conn \<times> (PlasmaError, unit) result" where
  "client_delete exchange oid st =
     (case st of (c, s) \<Rightarrow> expect_ok ''unexpected reply: '' (exchange (Delete oid) s) c)"

definition client_list :: "exchange \<Rightarrow> conn \<Rightarrow> conn \<times> (PlasmaError, ObjectIdBytes list) result" where
  "client_list exchange st =
     (case st of (c, s) \<Rightarrow>
       (case exchange List s of
          (s1, Inl e) \<Rightarrow> ((c, s1), Inl e)
        | (s1, Inr (Listed ids, _)) \<Rightarrow> ((c, s1), Inr ids)
        | (s1, Inr (r, _)) \<Rightarrow> ((c, s1), Inl (unexpected ''unexpected reply to List: '' r))))"

text \<open>\<open>get\<close> followed by the two reads of the handle, which is what every caller does.\<close>

definition client_get_bytes ::
  "exchange \<Rightarrow> ObjectIdBytes \<Rightarrow> conn \<Rightarrow> conn \<times> (PlasmaError, bytes \<times> bytes) result" where
  "client_get_bytes exchange oid st =
     (case client_get exchange oid st of
        (st1, Inl e) \<Rightarrow> (st1, Inl e)
      | (st1, Inr info) \<Rightarrow>
          (let mem = mmap (arena (snd st1))
           in case (read_metadata info mem, read_data info mem) of
                (Some md, Some d) \<Rightarrow> (st1, Inr (md, d))
              | _ \<Rightarrow> (st1, Inl MemoryFault)))"

section \<open>What the store promises\<close>

text \<open>
  The contract of the object store towards its clients: an id is absent, created but not sealed, or
  sealed with its metadata and data, and each method acts on that view alone.
\<close>

datatype slot_state = Absent | Unsealed | Sealed bytes bytes

locale plasma_store =
  fixes inv :: "'s \<Rightarrow> bool"
    and view :: "'s \<Rightarrow> ObjectIdBytes \<Rightarrow> slot_state"
    and create_and_seal :: "ObjectIdBytes \<Rightarrow> bytes \<Rightarrow> bytes \<Rightarrow> AddressBlob \<Rightarrow> 's \<Rightarrow> 's \<times> (PlasmaError, unit) result"
    and get :: "ObjectIdBytes \<Rightarrow> 's \<Rightarrow> 's \<times> (PlasmaError, bytes \<times> bytes) result"
    and delete :: "ObjectIdBytes \<Rightarrow> 's \<Rightarrow> 's \<times> (PlasmaError, unit) result"
  assumes create_inv: "inv s \<Longrightarrow> rust_slice m \<Longrightarrow> rust_slice d \<Longrightarrow> inv (fst (create_and_seal i m d ow s))"
    and create_present: "inv s \<Longrightarrow> view s i \<noteq> Absent \<Longrightarrow>
      \<exists>s' msg. create_and_seal i m d ow s = (s', Inl (PlasmaServerError AlreadyExists msg)) \<and> view s' = view s"
    and create_absent: "inv s \<Longrightarrow> view s i = Absent \<Longrightarrow> rust_slice m \<Longrightarrow> rust_slice d \<Longrightarrow>
      (\<exists>s'. create_and_seal i m d ow s = (s', Inr ()) \<and> view s' = (view s)(i := Sealed m d))
      \<or> (\<exists>s' msg. create_and_seal i m d ow s = (s', Inl (PlasmaServerError OutOfMemory msg)) \<and> view s' = view s)"
    and get_sealed: "inv s \<Longrightarrow> view s i = Sealed m d \<Longrightarrow>
      \<exists>s'. get i s = (s', Inr (m, d)) \<and> inv s' \<and> view s' = view s"
    and get_absent: "inv s \<Longrightarrow> view s i = Absent \<Longrightarrow>
      \<exists>s' msg. get i s = (s', Inl (PlasmaServerError NotFound msg)) \<and> inv s' \<and> view s' = view s"
    and get_unsealed: "inv s \<Longrightarrow> view s i = Unsealed \<Longrightarrow>
      \<exists>s' msg. get i s = (s', Inl (PlasmaServerError NotSealed msg)) \<and> inv s' \<and> view s' = view s"
    and delete_view: "inv s \<Longrightarrow>
      \<exists>s'. delete i s = (s', Inr ()) \<and> inv s' \<and> view s' = (view s)(i := Absent)"
begin

lemma create_result:
  assumes "inv s" "rust_slice m" "rust_slice d" "create_and_seal i m d ow s = (s', r)"
  shows "inv s'"
    and "r = Inr () \<Longrightarrow> view s i = Absent \<and> view s' = (view s)(i := Sealed m d)"
    and "r = Inl e \<Longrightarrow> view s' = view s"
proof -
  show "inv s'" using create_inv [OF assms(1-3), of i ow] assms(4) by simp
  show "r = Inr () \<Longrightarrow> view s i = Absent \<and> view s' = (view s)(i := Sealed m d)"
    "r = Inl e \<Longrightarrow> view s' = view s"
    using create_present [OF assms(1), of i m d ow] create_absent [OF assms(1) _ assms(2,3), of i ow] assms(4)
    by (cases "view s i = Absent"; auto)+
qed

lemma get_result:
  assumes "inv s" "get i s = (s', r)"
  shows "inv s'" and "view s' = view s"
    and "r = Inr (m, d) \<longleftrightarrow> view s i = Sealed m d"
    and "(\<exists>msg. r = Inl (PlasmaServerError NotFound msg)) \<longleftrightarrow> view s i = Absent"
  using get_sealed [OF assms(1), of i] get_absent [OF assms(1), of i] get_unsealed [OF assms(1), of i] assms(2)
  by (cases "view s i"; auto)+

lemma create_then_get:
  assumes "inv s" "rust_slice m" "rust_slice d" "create_and_seal i m d ow s = (s', Inr ())"
  shows "\<exists>s''. get i s' = (s'', Inr (m, d)) \<and> view s'' = view s'"
proof -
  note c = create_result [OF assms]
  have "view s' i = Sealed m d" using c(2) by simp
  from get_sealed [OF c(1) this] show ?thesis by blast
qed

lemma get_after_delete:
  assumes "inv s" "delete i s = (s', r)"
  shows "r = Inr ()" and "\<exists>s'' msg. get i s' = (s'', Inl (PlasmaServerError NotFound msg))"
    and "j \<noteq> i \<Longrightarrow> view s' j = view s j"
proof -
  have *: "r = Inr ()" "inv s'" "view s' = (view s)(i := Absent)"
    using delete_view [OF assms(1), of i] assms(2) by auto
  show "r = Inr ()" "\<exists>s'' msg. get i s' = (s'', Inl (PlasmaServerError NotFound msg))"
    "j \<noteq> i \<Longrightarrow> view s' j = view s j"
    using * get_absent [OF *(2), of i] by auto
qed

end

section \<open>The implementation keeps the promise\<close>

definition entry_bytes :: "bytes \<Rightarrow> ObjectEntry \<Rightarrow> slot_state" where
  "entry_bytes mem e =
     (if sealed e then
        (case (byte_slice mem (unat (metadata_offset e)) (unat (metadata_size e)),
               byte_slice mem (unat (data_offset e)) (unat (data_size e))) of
           (Some m, Some d) \<Rightarrow> Sealed m d | _ \<Rightarrow> Unsealed)
      else Unsealed)"

definition server_view :: "PlasmaServer \<Rightarrow> ObjectIdBytes \<Rightarrow> slot_state" where
  "server_view s i =
     (case hm_get (objects s) i of None \<Rightarrow> Absent | Some e \<Rightarrow> entry_bytes (mmap (arena s)) e)"

definition conn_inv :: "conn \<Rightarrow> bool" where
  "conn_inv st \<longleftrightarrow> mmap_ok (fst st) \<and> server_inv (snd st)"

lemma set_mmap_simps [simp]:
  "objects (set_mmap mem s) = objects s" "mmap (arena (set_mmap mem s)) = mem"
  "bump (arena (set_mmap mem s)) = bump (arena s)" "capacity (arena (set_mmap mem s)) = capacity (arena s)"
  by (simp_all add: set_mmap_def)

lemma server_inv_set_mmap:
  "server_inv s \<Longrightarrow> length mem = length (mmap (arena s)) \<Longrightarrow> server_inv (set_mmap mem s)"
  by (simp add: server_inv_def arena_inv_def)

lemma entry_bytes_prefix:
  assumes "take b mem' = take b mem" "length mem' = length mem"
    "range_end (part_range MetaPart e) \<le> b" "range_end (part_range DataPart e) \<le> b"
  shows "entry_bytes mem' e = entry_bytes mem e"
  using assms byte_slice_prefix [OF assms(1,2)] by (simp add: entry_bytes_def)

lemma server_view_cong:
  "objects s' = objects s \<Longrightarrow> mmap (arena s') = mmap (arena s) \<Longrightarrow> server_view s' = server_view s"
  by (rule ext) (simp add: server_view_def split: option.split)

text \<open>Whatever changes above the bump pointer leaves the view of the table as it was.\<close>

lemma server_view_prefix:
  assumes "server_inv s" "objects s' = objects s" "length (mmap (arena s')) = length (mmap (arena s))"
    "take (unat (bump (arena s))) (mmap (arena s')) = take (unat (bump (arena s))) (mmap (arena s))"
  shows "server_view s' = server_view s"
proof
  fix i
  show "server_view s' i = server_view s i"
    using assms part_in_arena(1) [OF assms(1), of i]
    by (auto simp: server_view_def split: option.split intro!: entry_bytes_prefix)
qed

lemma write_slot_exact:
  assumes "unat sz = length bs" "unat off + unat sz \<le> length mem"
  obtains mem' where "write_slot off sz bs mem = Some mem'" "mmap_write (unat off) bs mem = Some mem'"
  using assms mmap_write_Some [of "unat off" bs mem] by (auto simp: write_slot_def)

lemma ensure_mapped_ok:
  "mmap_ok c \<Longrightarrow> \<exists>c'. ensure_arena_mapped info 1 c = (c', Inr ()) \<and> mmap_ok c'"
  by (simp add: ensure_arena_mapped_def)

lemma unat_length: "rust_slice bs \<Longrightarrow> unat (of_nat (length bs) :: u64) = length bs"
  by (simp add: rust_slice_def unat_of_nat)

lemma client_create_exists:
  assumes "hm_contains (objects s) i"
  shows "client_create direct_exchange i md d ow (c, s) =
    ((c, count_create s), Inl (PlasmaServerError AlreadyExists (ascii ''object already created'')))"
  using assms
  by (simp add: client_create_def direct_exchange_def handle_create_def Let_def err_response_def unexpected_def)

text \<open>Filling the two slots of a fresh entry.\<close>

lemma write_created:
  assumes inv: "server_inv s" and get: "hm_get (objects s) i = Some e"
    and sz: "unat (metadata_size e) = length md" "unat (data_size e) = length d"
    and sep: "b \<le> unat (metadata_offset e)" "unat (metadata_offset e) + length md \<le> unat (data_offset e)"
  obtains mem1 mem2 where
    "write_metadata (slot_info a e sl) md (mmap (arena s)) = Some mem1"
    "write_data (slot_info a e sl) d mem1 = Some mem2"
    "length mem2 = length (mmap (arena s))" "take b mem2 = take b (mmap (arena s))"
    "entry_bytes mem2 (e\<lparr>sealed := True\<rparr>) = Sealed md d"
proof -
  let ?mem = "mmap (arena s)" and ?mo = "unat (metadata_offset e)" and ?do = "unat (data_offset e)"
  have rng: "?mo + length md \<le> length ?mem" "?do + length d \<le> length ?mem"
    using part_in_arena(2) [OF inv get, of MetaPart] part_in_arena(2) [OF inv get, of DataPart] sz by simp_all
  obtain mem1 where w1: "write_metadata (slot_info a e sl) md ?mem = Some mem1" "mmap_write ?mo md ?mem = Some mem1"
    using write_slot_exact [of "metadata_size e" md "metadata_offset e" ?mem] rng(1) sz
    by (auto simp: write_metadata_def slot_info_def)
  note l1 = length_mmap_write [OF w1(2)]
  obtain mem2 where w2: "write_data (slot_info a e sl) d mem1 = Some mem2" "mmap_write ?do d mem1 = Some mem2"
    using write_slot_exact [of "data_size e" d "data_offset e" mem1] rng(2) sz l1
    by (auto simp: write_data_def slot_info_def)
  have len: "length mem2 = length ?mem"
    using l1 length_mmap_write [OF w2(2)] by simp
  have "byte_slice mem2 ?mo (length md) = Some md"
    using byte_slice_write_other [OF w2(2), of ?mo "length md"] sep(2) byte_slice_write_same [OF w1(2)] by simp
  with byte_slice_write_same [OF w2(2)] have "entry_bytes mem2 (e\<lparr>sealed := True\<rparr>) = Sealed md d"
    using sz by (simp add: entry_bytes_def)
  moreover have "take b mem2 = take b ?mem"
    using mmap_write_prefix [OF w1(2) sep(1)] mmap_write_prefix [OF w2(2), of b] sep by simp
  ultimately show thesis
    using that w1(1) w2(1) len by blast
qed

lemma client_create_direct:
  assumes "handle_create \<lparr>req_object_id = i, req_metadata_size = of_nat (length md),
      req_data_size = of_nat (length d), req_owner = ow\<rparr> s = (s1, r, fd)"
  shows "client_create direct_exchange i md d ow (c, s) =
      (case r of Created info \<Rightarrow>
         (case ensure_arena_mapped info (of_bool fd) c of
            (c1, Inl e) \<Rightarrow> ((c1, s1), Inl e)
          | (c1, Inr _) \<Rightarrow>
              (case write_metadata info md (mmap (arena s1)) of
                 None \<Rightarrow> ((c1, s1), Inl MemoryFault)
               | Some mem1 \<Rightarrow>
                   (case write_data info d mem1 of
                      None \<Rightarrow> ((c1, set_mmap mem1 s1), Inl MemoryFault)
                    | Some mem2 \<Rightarrow> ((c1, set_mmap mem2 s1), Inr info))))
       | _ \<Rightarrow> ((c, s1), Inl (unexpected ''unexpected reply to Create: '' r)))"
  using assms by (simp add: client_create_def direct_exchange_def split: Response.split)

lemma client_create_absent:
  assumes inv: "conn_inv (c, s)" and absent: "\<not> hm_contains (objects s) i"
    and md: "rust_slice md" and d: "rust_slice d"
  obtains
    (oom) s' msg where
      "client_create direct_exchange i md d ow (c, s) = ((c, s'), Inl (PlasmaServerError OutOfMemory msg))"
      "objects s' = objects s" "mmap (arena s') = mmap (arena s)" "server_inv s'"
      "unat (bump (arena s)) \<le> unat (bump (arena s'))"
  | (ok) c' s' info e where
      "client_create direct_exchange i md d ow (c, s) = ((c', s'), Inr info)"
      "conn_inv (c', s')" "objects s' = hm_insert i e (objects s)" "\<not> sealed e"
      "entry_bytes (mmap (arena s')) (e\<lparr>sealed := True\<rparr>) = Sealed md d"
      "length (mmap (arena s')) = length (mmap (arena s))"
      "take (unat (bump (arena s))) (mmap (arena s')) = take (unat (bump (arena s))) (mmap (arena s))"
      "unat (bump (arena s)) \<le> unat (bump (arena s'))"
proof -
  define req where "req = \<lparr>req_object_id = i, req_metadata_size = of_nat (length md),
    req_data_size = of_nat (length d), req_owner = ow\<rparr>"
  have sinv: "server_inv s" and mok: "mmap_ok c" using inv by (simp_all add: conn_inv_def)
  obtain s1 r fd where h: "handle_create req s = (s1, r, fd)" by (metis surj_pair)
  note inv1 = server_inv_create [OF sinv h] and cc = client_create_direct [OF h [unfolded req_def]]
    and mono = handle_create_bump [OF sinv h]
  from h show thesis
  proof (cases rule: handle_create_cases)
    case exists
    with absent show ?thesis by (simp add: req_def)
  next
    case full: (oom e a')
    then have "mmap a' = mmap (arena s)" by (auto dest: alloc_mmap)
    with full inv1 cc mono show ?thesis
      by (intro oom [of s1 "oom_message e"]) (auto simp: unexpected_def)
  next
    case (created moff a1 doff a2 e)
    have a0: "arena_inv (arena s)" using sinv by (simp add: server_inv_def)
    note mo = alloc_ok [OF a0 created(2)]
    note dt = alloc_ok [OF mo(7) created(3)]
    have mem: "mmap (arena s1) = mmap (arena s)"
      using created(5) alloc_mmap [OF created(2)] alloc_mmap [OF created(3)] by simp
    have get: "hm_get (objects s1) i = Some e" using created(5) by (simp add: req_def)
    have e: "unat (metadata_size e) = length md" "unat (data_size e) = length d" "\<not> sealed e"
        "unat (bump (arena s)) \<le> unat (metadata_offset e)"
        "unat (metadata_offset e) + length md \<le> unat (data_offset e)"
      using created(4) md d mo(2,4) dt(2) by (simp_all add: req_def unat_length)
    obtain mem1 mem2 where w: "write_metadata (slot_info a2 e False) md (mmap (arena s1)) = Some mem1"
      "write_data (slot_info a2 e False) d mem1 = Some mem2" "length mem2 = length (mmap (arena s1))"
      "take (unat (bump (arena s))) mem2 = take (unat (bump (arena s))) (mmap (arena s1))"
      "entry_bytes mem2 (e\<lparr>sealed := True\<rparr>) = Sealed md d"
      by (rule write_created [OF inv1 get e(1,2,4,5)])
    obtain c1 where c1: "ensure_arena_mapped (slot_info a2 e False) 1 c = (c1, Inr ())" "mmap_ok c1"
      using ensure_mapped_ok [OF mok] by blast
    show ?thesis
    proof (rule ok)
      show "client_create direct_exchange i md d ow (c, s) = ((c1, set_mmap mem2 s1), Inr (slot_info a2 e False))"
        using cc created(6) c1(1) w(1,2) by simp
      show "conn_inv (c1, set_mmap mem2 s1)"
        using c1(2) server_inv_set_mmap [OF inv1 w(3)] by (simp add: conn_inv_def)
      show "objects (set_mmap mem2 s1) = hm_insert i e (objects s)"
        using created(5) by (simp add: req_def)
    qed (use e(3) w mem mono in simp_all)
  qed
qed

lemma client_seal_direct:
  "hm_get (objects s) i = Some e \<Longrightarrow> \<not> sealed e \<Longrightarrow>
     client_seal direct_exchange i (c, s) =
       ((c, s\<lparr>objects := hm_insert i (e\<lparr>sealed := True\<rparr>) (objects s)\<rparr>), Inr ())"
  by (simp add: client_seal_def direct_exchange_def handle_seal_def expect_ok_def)

lemma create_and_seal_present:
  assumes "server_view s i \<noteq> Absent"
  shows "client_create_and_seal direct_exchange i m d ow (c, s) =
    ((c, count_create s), Inl (PlasmaServerError AlreadyExists (ascii ''object already created'')))"
proof -
  have "hm_contains (objects s) i"
    using assms by (auto simp: server_view_def hm_contains_def split: option.splits)
  then show ?thesis
    by (simp add: client_create_and_seal_def client_create_exists)
qed

lemma entry_bytes_not_absent [simp]: "entry_bytes mem e \<noteq> Absent"
  by (simp add: entry_bytes_def split: option.split)

lemma server_view_Absent: "server_view s i = Absent \<longleftrightarrow> \<not> hm_contains (objects s) i"
  by (simp add: server_view_def hm_contains_def split: option.split)

lemma create_and_seal_absent:
  assumes inv: "conn_inv (c, s)" and absent: "server_view s i = Absent"
    and m: "rust_slice m" and d: "rust_slice d"
  obtains
    (ok) c' s' where "client_create_and_seal direct_exchange i m d ow (c, s) = ((c', s'), Inr ())"
      "conn_inv (c', s')" "server_view s' = (server_view s)(i := Sealed m d)"
  | (oom) s' msg where
      "client_create_and_seal direct_exchange i m d ow (c, s) =
        ((c, s'), Inl (PlasmaServerError OutOfMemory msg))"
      "conn_inv (c, s')" "server_view s' = server_view s"
proof -
  have na: "\<not> hm_contains (objects s) i" using absent by (simp add: server_view_Absent)
  show thesis
  proof (cases rule: client_create_absent [OF inv na m d, of ow])
    case full: (1 s' msg)
    then show thesis
      using inv by (intro oom [of s' msg])
        (auto simp: client_create_and_seal_def conn_inv_def intro: server_view_cong)
  next
    case made: (2 c' s' info e)
    note r = made(1) and inv' = made(2) and obj = made(3) and ns = made(4)
      and eb = made(5) and len = made(6) and pre = made(7)
    define s2 where "s2 = s'\<lparr>objects := hm_insert i (e\<lparr>sealed := True\<rparr>) (objects s')\<rparr>"
    have get: "hm_get (objects s') i = Some e" using obj by simp
    have sl: "handle_seal i s' = (s2, ResponseOk, False)"
      using get ns by (simp add: handle_seal_def s2_def)
    have "server_inv s2" using server_inv_seal [OF _ sl] inv' by (simp add: conn_inv_def)
    then have i2: "conn_inv (c', s2)" using inv' by (simp add: conn_inv_def)
    have old: "server_view (s'\<lparr>objects := objects s\<rparr>) = server_view s"
      using server_view_prefix [of s "s'\<lparr>objects := objects s\<rparr>"] inv len pre by (simp add: conn_inv_def)
    have v: "server_view s2 = (server_view s)(i := Sealed m d)"
    proof
      fix j
      show "server_view s2 j = ((server_view s)(i := Sealed m d)) j"
        using fun_cong [OF old, of j] eb obj by (auto simp: server_view_def s2_def split: option.splits)
    qed
    show thesis
      using r client_seal_direct [OF get ns] i2 v
      by (intro ok [of c' s2]) (simp_all add: client_create_and_seal_def s2_def)
  qed
qed

lemma get_bytes_direct:
  assumes inv: "conn_inv (c, s)"
  shows "\<exists>c' s'. conn_inv (c', s') \<and> server_view s' = server_view s \<and>
    client_get_bytes direct_exchange i (c, s) =
      ((c', s'), (case server_view s i of
         Sealed m d \<Rightarrow> Inr (m, d)
       | Unsealed \<Rightarrow> Inl (PlasmaServerError NotSealed (ascii ''object not yet sealed''))
       | Absent \<Rightarrow> Inl (PlasmaServerError NotFound (ascii ''not found''))))"
proof -
  define s1 where "s1 = s\<lparr>metrics := map_option (\<lambda>m. m\<lparr>get_total := get_total m + 1\<rparr>) (metrics s)\<rparr>"
  have s1: "objects s1 = objects s" "arena s1 = arena s" by (simp_all add: s1_def)
  then have v: "server_view s1 = server_view s" by (intro server_view_cong) simp_all
  have i1: "conn_inv (c, s1)" using inv s1 by (simp add: conn_inv_def server_inv_def)
  show ?thesis
  proof (cases "hm_get (objects s) i")
    case None
    then show ?thesis
      using i1 v by (auto simp: client_get_bytes_def client_get_def direct_exchange_def handle_get_def
          s1_def [symmetric] s1 server_view_def err_response_def unexpected_def)
  next
    case (Some e)
    have rng: "range_end (part_range p e) \<le> length (mmap (arena s))" for p
      using part_in_arena(2) [OF _ Some] inv by (simp add: conn_inv_def)
    then obtain md dt where sl:
        "byte_slice (mmap (arena s)) (unat (metadata_offset e)) (unat (metadata_size e)) = Some md"
        "byte_slice (mmap (arena s)) (unat (data_offset e)) (unat (data_size e)) = Some dt"
      using rng [of MetaPart] rng [of DataPart] by (auto simp: byte_slice_def)
    obtain c1 where c1: "ensure_arena_mapped (slot_info (arena s) e True) 1 c = (c1, Inr ())" "mmap_ok c1"
      using ensure_mapped_ok inv unfolding conn_inv_def by fastforce
    then have i2: "conn_inv (c1, s1)" using i1 by (simp add: conn_inv_def)
    show ?thesis
    proof (cases "sealed e")
      case True
      have "client_get direct_exchange i (c, s) = ((c1, s1), Inr (slot_info (arena s) e True))"
        using Some True c1 by (simp add: client_get_def direct_exchange_def handle_get_def s1_def [symmetric] s1)
      then show ?thesis
        using Some True sl i2 v s1 by (auto simp: client_get_bytes_def read_metadata_def read_data_def
            slot_info_def server_view_def entry_bytes_def)
    next
      case False
      then show ?thesis
        using Some i1 v by (auto simp: client_get_bytes_def client_get_def direct_exchange_def handle_get_def
            s1_def [symmetric] s1 server_view_def entry_bytes_def err_response_def unexpected_def)
    qed
  qed
qed

lemma client_delete_direct:
  assumes "conn_inv (c, s)"
  obtains s' where "client_delete direct_exchange i (c, s) = ((c, s'), Inr ())"
    "conn_inv (c, s')" "server_view s' = (server_view s)(i := Absent)"
proof -
  obtain s' where h: "handle_delete i s = (s', ResponseOk, False)" "objects s' = hm_remove i (objects s)"
      "arena s' = arena s"
    by (simp add: handle_delete_def Let_def)
  moreover have "server_inv s'" using assms server_inv_delete [OF _ h(1)] by (simp add: conn_inv_def)
  moreover have "server_view s' = (server_view s)(i := Absent)"
    by (rule ext) (simp add: server_view_def h split: option.split)
  ultimately show thesis
    using assms by (intro that [of s'])
      (auto simp: client_delete_def direct_exchange_def expect_ok_def conn_inv_def)
qed

interpretation plasma: plasma_store conn_inv "\<lambda>st. server_view (snd st)"
  "client_create_and_seal direct_exchange" "client_get_bytes direct_exchange" "client_delete direct_exchange"
proof (unfold_locales, goal_cases)
  case (1 st m d i ow)
  obtain c s where st: "st = (c, s)" by (cases st)
  show ?case
  proof (cases "server_view s i = Absent")
    case True
    from create_and_seal_absent [OF 1(1) [unfolded st] True 1(2,3), of ow] show ?thesis
      by (simp add: st) (metis fst_conv)
  next
    case False
    from create_and_seal_present [OF False, of m d ow c] 1(1) show ?thesis
      by (simp add: st conn_inv_def server_inv_def)
  qed
next
  case (2 st i m d ow)
  then show ?case
    by (cases st) (auto simp: create_and_seal_present intro!: server_view_cong)
next
  case (3 st i m d ow)
  obtain c s where st: "st = (c, s)" by (cases st)
  from 3 create_and_seal_absent [of c s i m d ow] show ?case
    unfolding st by (metis snd_conv)
next
  case (4 st i m d)
  then show ?case using get_bytes_direct [of "fst st" "snd st" i] by (cases st) auto
next
  case (5 st i)
  then show ?case using get_bytes_direct [of "fst st" "snd st" i] by (cases st) auto
next
  case (6 st i)
  then show ?case using get_bytes_direct [of "fst st" "snd st" i] by (cases st) auto
next
  case (7 st i)
  obtain c s where st: "st = (c, s)" by (cases st)
  from client_delete_direct [OF 7 [unfolded st], of i] show ?case
    unfolding st by (metis snd_conv)
qed

section \<open>Runs of client calls\<close>

datatype client_call =
    CallCreateAndSeal ObjectIdBytes bytes bytes
  | CallGet ObjectIdBytes
  | CallDelete ObjectIdBytes

fun run_call :: "client_call \<Rightarrow> conn \<Rightarrow> conn" where
  "run_call (CallCreateAndSeal i m d) st = fst (client_create_and_seal direct_exchange i m d AddressBlob_nil st)"
| "run_call (CallGet i) st = fst (client_get_bytes direct_exchange i st)"
| "run_call (CallDelete i) st = fst (client_delete direct_exchange i st)"

fun call_ok :: "client_call \<Rightarrow> bool" where
  "call_ok (CallCreateAndSeal i m d) \<longleftrightarrow> rust_slice m \<and> rust_slice d"
| "call_ok _ \<longleftrightarrow> True"

text \<open>Nothing that has been handed out is ever written again: memory below the bump pointer stays.\<close>

definition frozen_below :: "nat \<Rightarrow> conn \<Rightarrow> conn \<Rightarrow> bool" where
  "frozen_below b st st' \<longleftrightarrow>
     b \<le> unat (bump (arena (snd st')))
     \<and> length (mmap (arena (snd st'))) = length (mmap (arena (snd st)))
     \<and> take b (mmap (arena (snd st'))) = take b (mmap (arena (snd st)))"

lemma frozen_below_refl: "b \<le> unat (bump (arena (snd st))) \<Longrightarrow> frozen_below b st st"
  by (simp add: frozen_below_def)

lemma frozen_below_trans: "frozen_below b st st' \<Longrightarrow> frozen_below b st' st'' \<Longrightarrow> frozen_below b st st''"
  by (simp add: frozen_below_def)

lemma frozen_below_weaken:
  assumes "b \<le> b'" "frozen_below b' st st'"
  shows "frozen_below b st st'"
proof -
  have "take b (mmap (arena (snd st'))) = take b (take b' (mmap (arena (snd st'))))"
    using assms(1) by (simp add: min_def)
  also have "\<dots> = take b (mmap (arena (snd st)))"
    using assms by (simp add: frozen_below_def min_def)
  finally show ?thesis
    using assms by (simp add: frozen_below_def)
qed

lemma create_and_seal_frozen:
  assumes inv: "conn_inv (c, s)" and m: "rust_slice m" and d: "rust_slice d"
  shows "frozen_below (unat (bump (arena s))) (c, s) (fst (client_create_and_seal direct_exchange i m d ow (c, s)))"
proof (cases "hm_contains (objects s) i")
  case True
  then show ?thesis
    by (simp add: client_create_and_seal_def client_create_exists frozen_below_def)
next
  case False
  show ?thesis
  proof (cases rule: client_create_absent [OF inv False m d, of ow])
    case (1 s' msg)
    then show ?thesis by (simp add: client_create_and_seal_def frozen_below_def)
  next
    case (2 c' s' info e)
    then have "hm_get (objects s') i = Some e" by simp
    from client_seal_direct [OF this 2(4), of c'] 2 show ?thesis
      by (simp add: client_create_and_seal_def frozen_below_def)
  qed
qed

lemma get_bytes_keeps: "arena (snd (fst (client_get_bytes direct_exchange i (c, s)))) = arena s"
proof -
  have "arena (fst (handle_get i s)) = arena s"
    by (simp add: handle_get_def Let_def split: option.split)
  then have "arena (snd (fst (client_get direct_exchange i (c, s)))) = arena s"
    by (auto simp: client_get_def direct_exchange_def map_prod_def split: prod.split Response.split sum.split)
  then show ?thesis
    by (auto simp: client_get_bytes_def Let_def split: prod.split sum.split option.split)
qed

lemma delete_keeps: "arena (snd (fst (client_delete direct_exchange i (c, s)))) = arena s"
  by (simp add: client_delete_def direct_exchange_def handle_delete_def expect_ok_def Let_def)

lemma run_call_frozen:
  assumes inv: "conn_inv st" and ok: "call_ok call"
  shows "conn_inv (run_call call st)" and "frozen_below (unat (bump (arena (snd st)))) st (run_call call st)"
proof -
  obtain c s where st: "st = (c, s)" by (cases st)
  show "frozen_below (unat (bump (arena (snd st)))) st (run_call call st)"
    using inv ok create_and_seal_frozen [of c s] by (cases call)
      (simp_all add: st frozen_below_def get_bytes_keeps delete_keeps)
  show "conn_inv (run_call call st)"
  proof (cases call)
    case (CallCreateAndSeal i m d)
    then show ?thesis using plasma.create_inv [OF inv] ok by simp
  next
    case (CallGet i)
    then show ?thesis using plasma.get_result(1) [OF inv, of i] by (metis prod.collapse run_call.simps(2))
  next
    case (CallDelete i)
    obtain st' where "client_delete direct_exchange i st = (st', Inr ())" "conn_inv st'"
      using plasma.delete_view [OF inv, of i] by blast
    then show ?thesis using CallDelete by simp
  qed
qed

lemma run_calls_frozen:
  assumes "conn_inv st" and "list_all call_ok calls"
  shows "frozen_below (unat (bump (arena (snd st)))) st (fold run_call calls st)"
  using assms
proof (induction calls arbitrary: st)
  case (Cons call calls)
  let ?st = "run_call call st" and ?b = "unat (bump (arena (snd st)))"
  have step: "conn_inv ?st" "frozen_below ?b st ?st"
    using run_call_frozen [of st call] Cons.prems by simp_all
  have "frozen_below (unat (bump (arena (snd ?st)))) ?st (fold run_call calls ?st)"
    using Cons.IH [OF step(1)] Cons.prems by simp
  moreover have "?b \<le> unat (bump (arena (snd ?st)))"
    using step(2) by (simp add: frozen_below_def)
  ultimately have "frozen_below ?b ?st (fold run_call calls ?st)"
    by (rule frozen_below_weaken [rotated])
  with step(2) show ?case
    by (auto intro: frozen_below_trans)
qed (simp add: frozen_below_refl)

lemma get_info_below_bump:
  assumes "conn_inv (c, s)" and "client_get direct_exchange i (c, s) = ((c', s'), Inr info)"
  shows "conn_inv (c', s')"
    and "unat (info_metadata_offset info) + unat (info_metadata_size info) \<le> unat (bump (arena s'))"
    and "unat (info_data_offset info) + unat (info_data_size info) \<le> unat (bump (arena s'))"
proof -
  obtain s1 r fd where h: "handle_get i s = (s1, r, fd)" by (metis surj_pair)
  then obtain e where e: "hm_get (objects s) i = Some e" "sealed e" and r: "r = Got (slot_info (arena s) e True)"
      and s1: "arena s1 = arena s"
    using assms(2) by (auto simp: client_get_def direct_exchange_def handle_get_def Let_def unexpected_def
        err_response_def split: option.splits if_splits)
  have g: "s' = s1" "info = slot_info (arena s) e True" "mmap_ok c' = mmap_ok c"
    using assms(2) h r by (auto simp: client_get_def direct_exchange_def ensure_arena_mapped_def
        split: sum.splits if_splits prod.splits)
  have sinv: "server_inv s" using assms(1) by (simp add: conn_inv_def)
  show "conn_inv (c', s')"
    using assms(1) g server_inv_get [OF sinv h] by (simp add: conn_inv_def)
  show "unat (info_metadata_offset info) + unat (info_metadata_size info) \<le> unat (bump (arena s'))"
    "unat (info_data_offset info) + unat (info_data_size info) \<le> unat (bump (arena s'))"
    using part_in_arena(1) [OF sinv e(1), of MetaPart] part_in_arena(1) [OF sinv e(1), of DataPart] g s1
    by (simp_all add: slot_info_def)
qed

section \<open>Properties\<close>

text \<open>C1. The store implements its contract: a successful \<open>create_and_seal\<close> makes exactly that object
  readable with exactly those bytes and a later \<open>get\<close> returns them; a failed one changes nothing that can
  be read; \<open>delete\<close> always succeeds and makes exactly that object absent.\<close>

theorem plasma_create_get_delete:
  assumes "conn_inv st" and "rust_slice m" and "rust_slice d"
    and "client_create_and_seal direct_exchange i m d ow st = (st1, r)"
    and "client_delete direct_exchange i st1 = (st2, r2)"
  shows "(r = Inr () \<longrightarrow>
       server_view (snd st1) = (server_view (snd st))(i := Sealed m d)
       \<and> (\<exists>st'. client_get_bytes direct_exchange i st1 = (st', Inr (m, d))))
    \<and> (r \<noteq> Inr () \<longrightarrow> server_view (snd st1) = server_view (snd st))
    \<and> r2 = Inr () \<and> server_view (snd st2) = (server_view (snd st1))(i := Absent)
    \<and> (\<exists>st' msg. client_get_bytes direct_exchange i st2 = (st', Inl (PlasmaServerError NotFound msg)))"
proof -
  note c = plasma.create_result [OF assms(1-4)]
  have "r \<noteq> Inr () \<Longrightarrow> server_view (snd st1) = server_view (snd st)"
    using c(3) by (cases r) auto
  moreover have "server_view (snd st2) = (server_view (snd st1))(i := Absent)"
    using plasma.delete_view [OF c(1), of i] assms(5) by auto
  ultimately show ?thesis
    using c(2) plasma.create_then_get [OF assms(1-3)] assms(4) plasma.get_after_delete(1,2) [OF c(1) assms(5)]
    by blast
qed

definition example_conn :: conn where
  "example_conn = (\<lparr>cached_arenas = [], mmap_ok = True\<rparr>, example_server)"

lemma example_conn_inv: "conn_inv example_conn"
  using example_server_inv by (simp add: conn_inv_def example_conn_def)

lemma example_create:
  obtains st where
    "client_create_and_seal direct_exchange [1] [2] [9, 8] AddressBlob_nil example_conn = (st, Inr ())"
    "conn_inv st" "server_view (snd st) [1] = Sealed [2] [9, 8]"
proof -
  have "snd (client_create_and_seal direct_exchange [1] [2] [9, 8] AddressBlob_nil example_conn) = Inr ()"
    by (simp add: client_create_and_seal_def client_create_def direct_exchange_def example_conn_def
        example_server_def server_new_def handle_create_def count_create_def alloc_def align_up_def
        OBJECT_ALIGN_def checked_add_def hm_contains_def set_gauges_def slot_info_def
        ensure_arena_mapped_def write_metadata_def write_data_def write_slot_def mmap_write_def
        set_mmap_def client_seal_def handle_seal_def expect_ok_def Let_def)
  then obtain st where
    st: "client_create_and_seal direct_exchange [1] [2] [9, 8] AddressBlob_nil example_conn = (st, Inr ())"
    by (metis prod.collapse)
  from plasma.create_result(1,2) [OF example_conn_inv _ _ st] show thesis
    by (intro that [OF st]) (simp_all add: rust_slice_def)
qed

theorem plasma_create_get_delete_witness:
  "\<exists>st1 st2. client_create_and_seal direct_exchange [1] [2] [9, 8] AddressBlob_nil example_conn = (st1, Inr ())
    \<and> server_view (snd st1) [1] = Sealed [2] [9, 8]
    \<and> client_delete direct_exchange [1] st1 = (st2, Inr ()) \<and> server_view (snd st2) [1] = Absent"
proof -
  obtain st1 where st1: "client_create_and_seal direct_exchange [1] [2] [9, 8] AddressBlob_nil example_conn = (st1, Inr ())"
    by (rule example_create)
  obtain st2 r2 where st2: "client_delete direct_exchange [1] st1 = (st2, r2)"
    by (metis surj_pair)
  have m: "rust_slice [2]" "rust_slice [9, 8]" by (simp_all add: rust_slice_def)
  note p = plasma_create_get_delete [OF example_conn_inv m st1 st2]
  then have "server_view (snd st1) [1] = Sealed [2] [9, 8]" "r2 = Inr ()" "server_view (snd st2) [1] = Absent"
    by simp_all
  with st1 st2 show ?thesis by blast
qed

text \<open>C22. A read handle stays valid: once \<open>get\<close> has returned a slot, no later sequence of creates, gets and
  deletes, of this or any other object, changes the bytes it shows.\<close>

theorem read_handle_is_stable:
  assumes "conn_inv st" and "client_get direct_exchange i st = (st1, Inr info)" and "list_all call_ok calls"
  shows "read_metadata info (mmap (arena (snd (fold run_call calls st1)))) = read_metadata info (mmap (arena (snd st1)))
    \<and> read_data info (mmap (arena (snd (fold run_call calls st1)))) = read_data info (mmap (arena (snd st1)))"
proof -
  obtain c s c1 s1 where st: "st = (c, s)" and st1: "st1 = (c1, s1)" by (metis surj_pair)
  note g = get_info_below_bump [OF assms(1,2) [unfolded st st1]]
  have "frozen_below (unat (bump (arena s1))) st1 (fold run_call calls st1)"
    using run_calls_frozen [OF _ assms(3), of st1] g(1) st1 by simp
  then have fr: "take (unat (bump (arena s1))) (mmap (arena (snd (fold run_call calls st1))))
        = take (unat (bump (arena s1))) (mmap (arena (snd st1)))"
      "length (mmap (arena (snd (fold run_call calls st1)))) = length (mmap (arena (snd st1)))"
    by (simp_all add: frozen_below_def)
  show ?thesis
    unfolding read_metadata_def read_data_def
    using byte_slice_prefix [OF fr g(2)] byte_slice_prefix [OF fr g(3)] by simp
qed

theorem read_handle_is_stable_witness:
  "\<exists>st st1 info. client_get direct_exchange [1] st = (st1, Inr info)
     \<and> read_data info (mmap (arena (snd st1))) = Some [9, 8]
     \<and> read_data info (mmap (arena (snd (fold run_call [CallDelete [1], CallCreateAndSeal [1] [2] [7]] st1)))) = Some [9, 8]"
proof -
  obtain st where inv: "conn_inv st" and v: "server_view (snd st) [1] = Sealed [2] [9, 8]"
    by (rule example_create)
  obtain st1 where "client_get_bytes direct_exchange [1] st = (st1, Inr ([2], [9, 8]))"
    using plasma.get_sealed [OF inv v] by blast
  then obtain info where g: "client_get direct_exchange [1] st = (st1, Inr info)"
      "read_data info (mmap (arena (snd st1))) = Some [9, 8]"
    by (auto simp: client_get_bytes_def Let_def split: prod.splits sum.splits option.splits)
  have "list_all call_ok [CallDelete [1], CallCreateAndSeal [1] [2] [7]]" by (simp add: rust_slice_def)
  from read_handle_is_stable [OF inv g(1) this] g show ?thesis
    by metis
qed

section \<open>Typing of the protocol\<close>

text \<open>The responses that a request may get, and whether the arena's descriptor comes with them.\<close>

fun reply_fits :: "Request \<Rightarrow> reply \<Rightarrow> bool" where
  "reply_fits (Create _) (Created _, fd) = fd"
| "reply_fits (Create _) (ResponseError _ _, fd) = (\<not> fd)"
| "reply_fits (Seal _) (ResponseOk, fd) = (\<not> fd)"
| "reply_fits (Seal _) (ResponseError _ _, fd) = (\<not> fd)"
| "reply_fits (Get _) (Got _, fd) = fd"
| "reply_fits (Get _) (ResponseError _ _, fd) = (\<not> fd)"
| "reply_fits (Contains _) (ResponseContains _ _ _, fd) = (\<not> fd)"
| "reply_fits (Release _) (ResponseOk, fd) = (\<not> fd)"
| "reply_fits (Delete _) (ResponseOk, fd) = (\<not> fd)"
| "reply_fits List (Listed _, fd) = (\<not> fd)"
| "reply_fits _ _ = False"

lemma handle_request_fits: "handle_request req s = Some (s', Some rep) \<Longrightarrow> reply_fits req rep"
  by (cases req)
    (auto simp: handle_create_def handle_seal_def handle_get_def handle_contains_def handle_delete_def handle_list_def
      err_response_def Let_def split: if_splits option.splits prod.splits sum.splits)

lemma direct_exchange_fits:
  assumes "server_inv s" and "req \<noteq> Disconnect"
  obtains s' r fd where "direct_exchange req s = (s', Inr (r, of_bool fd))" "reply_fits req (r, fd)"
proof -
  have "\<exists>s' rep. handle_request req s = Some (s', Some rep)"
  proof (cases req)
    case (Contains i)
    then show ?thesis using handle_contains_total [OF assms(1), of i] by auto
  qed (use assms(2) in \<open>auto simp: map_prod_def split: prod.split\<close>)
  then obtain s' r fd where h: "handle_request req s = Some (s', Some (r, fd))" by (metis surj_pair)
  then show thesis
    using that [of s' r fd] handle_request_fits [OF h] by (simp add: direct_exchange_def)
qed

definition typed :: "(PlasmaError, 'a) result \<Rightarrow> bool" where
  "typed res = (case res of Inl MissingFd \<Rightarrow> False | Inl (PlasmaProtocol _) \<Rightarrow> False | _ \<Rightarrow> True)"

lemma typed_expect_ok:
  assumes "server_inv s" "req = Seal i \<or> req = Release i \<or> req = Delete i"
  shows "typed (snd (expect_ok what (direct_exchange req s) c))"
proof -
  obtain s' r fd where "direct_exchange req s = (s', Inr (r, of_bool fd))" "reply_fits req (r, fd)"
    using direct_exchange_fits [OF assms(1)] assms(2) by blast
  then show ?thesis
    using assms(2) by (cases r) (auto simp: expect_ok_def typed_def unexpected_def)
qed

lemma typed_create: "server_inv s \<Longrightarrow> typed (snd (client_create direct_exchange i md d ow (c, s)))"
proof -
  assume "server_inv s"
  let ?req = "Create \<lparr>req_object_id = i, req_metadata_size = of_nat (length md),
    req_data_size = of_nat (length d), req_owner = ow\<rparr>"
  obtain s' r fd where "direct_exchange ?req s = (s', Inr (r, of_bool fd))" "reply_fits ?req (r, fd)"
    using direct_exchange_fits [OF \<open>server_inv s\<close>, of ?req] by blast
  then show ?thesis
    by (cases r) (auto simp: client_create_def typed_def unexpected_def ensure_arena_mapped_def split: option.split)
qed

lemma typed_get: "server_inv s \<Longrightarrow> typed (snd (client_get direct_exchange i (c, s)))"
proof -
  assume "server_inv s"
  obtain s' r fd where "direct_exchange (Get i) s = (s', Inr (r, of_bool fd))" "reply_fits (Get i) (r, fd)"
    using direct_exchange_fits [OF \<open>server_inv s\<close>, of "Get i"] by blast
  then show ?thesis
    by (cases r) (auto simp: client_get_def typed_def unexpected_def ensure_arena_mapped_def)
qed

lemma typed_contains: "server_inv s \<Longrightarrow> typed (snd (client_contains direct_exchange i (c, s)))"
proof -
  assume "server_inv s"
  obtain s' r fd where "direct_exchange (Contains i) s = (s', Inr (r, of_bool fd))" "reply_fits (Contains i) (r, fd)"
    using direct_exchange_fits [OF \<open>server_inv s\<close>, of "Contains i"] by blast
  then show ?thesis by (cases r) (auto simp: client_contains_def typed_def)
qed

lemma typed_list: "server_inv s \<Longrightarrow> typed (snd (client_list direct_exchange (c, s)))"
proof -
  assume "server_inv s"
  obtain s' r fd where "direct_exchange List s = (s', Inr (r, of_bool fd))" "reply_fits List (r, fd)"
    using direct_exchange_fits [OF \<open>server_inv s\<close>, of List] by blast
  then show ?thesis by (cases r) (auto simp: client_list_def typed_def)
qed



end
