(* ===== verification/Spill.thy ===== *)
theory Spill
imports Ids
begin

text \<open>
  Spilling objects out of plasma: \<open>rayd-raylet/src/spill/mod.rs\<close> (the backend trait and its errors),
  \<open>spill/local_fs.rs\<close> (the directory backend), \<open>object_manager.rs\<close> (the manager with its directory of
  urls) and the recovery hook of \<open>rayd-core/src/recovery.rs\<close>.  The backend's state holds the files it
  can see, by absolute path; a step of a write may fail, or the process may stop there, and the fault
  field says where.  Paths are UTF-8, so that \<open>Path::display\<close> is the path.  The trait object of the
  manager is a triple of operations, and the two traits are the contracts \<open>spill_backend\<close> and
  \<open>object_recoverer\<close>.  \<open>SpillPanic\<close> and \<open>RecoveryPanic\<close> are not values of the code: they stand for a
  panic of the calling thread.
\<close>

section \<open>Urls, objects and errors\<close>

type_synonym SpillObjectId = bytes

datatype SpillUrl = SpillUrl (as_str: bytes)

record RestoredObject =
  restored_metadata :: bytes
  restored_data :: bytes

datatype SpillError =
    SpillNotFound bytes
  | SpillIo bytes
  | SpillCorrupt bytes bytes
  | SpillPanic

definition spill_error_display :: "SpillError \<Rightarrow> bytes" where
  "spill_error_display e =
     (case e of
        SpillNotFound url \<Rightarrow> ascii ''spill url not found: '' @ url
      | SpillIo t \<Rightarrow> ascii ''spill I/O: '' @ t
      | SpillCorrupt url reason \<Rightarrow> ascii ''spill corruption at '' @ url @ ascii '': '' @ reason
      | SpillPanic \<Rightarrow> [])"

section \<open>The file system\<close>

text \<open>
  Where the next operation of the backend fails, with the operating system's text: at a step of a
  write (with the number of bytes that still reached the file), on opening, at one of the reads of a
  restore, or on removal.
\<close>

datatype IoFault =
    NoFault
  | WriteFault nat nat bytes
  | OpenFault bytes
  | ReadFault nat bytes
  | UnlinkFault bytes

type_synonym Files = "(bytes, bytes) hmap"

datatype FsStep =
    CreateFile bytes
  | WriteAll bytes bytes
  | SyncAll bytes
  | Rename bytes bytes

definition append_file :: "bytes \<Rightarrow> bytes \<Rightarrow> Files \<Rightarrow> Files" where
  "append_file p bs fs = (case hm_get fs p of None \<Rightarrow> fs | Some c \<Rightarrow> hm_insert p (c @ bs) fs)"

fun fs_step :: "FsStep \<Rightarrow> Files \<Rightarrow> Files" where
  "fs_step (CreateFile p) fs = hm_insert p [] fs"
| "fs_step (WriteAll p bs) fs = append_file p bs fs"
| "fs_step (SyncAll p) fs = fs"
| "fs_step (Rename p q) fs =
     (case hm_get fs p of None \<Rightarrow> fs | Some c \<Rightarrow> hm_insert q c (hm_remove p fs))"

fun fs_partial :: "nat \<Rightarrow> FsStep \<Rightarrow> Files \<Rightarrow> Files" where
  "fs_partial n (WriteAll p bs) fs = append_file p (take n bs) fs"
| "fs_partial n _ fs = fs"

fun fs_run :: "IoFault \<Rightarrow> FsStep list \<Rightarrow> Files \<Rightarrow> Files \<times> bytes option" where
  "fs_run f [] fs = (fs, None)"
| "fs_run (WriteFault 0 n t) (s # ss) fs = (fs_partial n s fs, Some t)"
| "fs_run (WriteFault (Suc k) n t) (s # ss) fs = fs_run (WriteFault k n t) ss (fs_step s fs)"
| "fs_run f (s # ss) fs = fs_run f ss (fs_step s fs)"

section \<open>Paths\<close>

fun split_on :: "byte \<Rightarrow> bytes \<Rightarrow> bytes list" where
  "split_on c [] = [[]]"
| "split_on c (b # bs) =
     (if b = c then [] # split_on c bs
      else (case split_on c bs of [] \<Rightarrow> [[b]] | w # ws \<Rightarrow> (b # w) # ws))"

definition has_root :: "bytes \<Rightarrow> bool" where
  "has_root p \<longleftrightarrow> (case p of [] \<Rightarrow> False | b # _ \<Rightarrow> b = 47)"

text \<open>
  \<open>Path::components\<close>: repeated separators and \<open>.\<close> components vanish (a leading \<open>.\<close> of a relative path
  does not), \<open>..\<close> components stay.
\<close>

definition plain_component :: "bytes \<Rightarrow> bool" where
  "plain_component c \<longleftrightarrow> c \<noteq> [] \<and> c \<noteq> [46]"

definition components :: "bytes \<Rightarrow> bytes list" where
  "components p =
     (if has_root p then filter plain_component (split_on 47 p)
      else (case split_on 47 p of
              [] \<Rightarrow> []
            | c # cs \<Rightarrow> (if c = [] then [] else [c]) @ filter plain_component cs))"

definition starts_with :: "bytes \<Rightarrow> bytes \<Rightarrow> bool" where
  "starts_with p base \<longleftrightarrow>
     has_root p = has_root base \<and>
     take (length (components base)) (components p) = components base"

text \<open>\<open>Path::join\<close> with a relative name.\<close>

definition join :: "bytes \<Rightarrow> bytes \<Rightarrow> bytes" where
  "join base name = (if base = [] \<or> last base = 47 then base @ name else base @ 47 # name)"

section \<open>The directory backend\<close>

record LocalFsBackend =
  root :: bytes
  files :: Files
  tmp_counter :: u64
  fault :: IoFault

text \<open>Creating the directory and resolving its canonical path are the operating system's.\<close>

definition LocalFsBackend_new ::
  "(bytes \<Rightarrow> (bytes, unit) result) \<Rightarrow> (bytes \<Rightarrow> (bytes, bytes) result) \<Rightarrow> bytes \<Rightarrow> LocalFsBackend \<Rightarrow>
   (SpillError, LocalFsBackend) result" where
  "LocalFsBackend_new create_dir_all canonicalize r b =
     (case create_dir_all r of
        Inl t \<Rightarrow> Inl (SpillIo t)
      | Inr _ \<Rightarrow>
          (case canonicalize r of
             Inl t \<Rightarrow> Inl (SpillIo t)
           | Inr canonical \<Rightarrow> Inr (b\<lparr>root := canonical\<rparr>)))"

definition path_for :: "bytes \<Rightarrow> SpillObjectId \<Rightarrow> bytes" where
  "path_for r oid = join r (hex_lower oid @ ascii ''.spill'')"

text \<open>\<open>path.with_extension("spill.tmp.{seq}")\<close>: the extension \<open>spill\<close> is replaced.\<close>

definition tmp_path_for :: "bytes \<Rightarrow> SpillObjectId \<Rightarrow> u64 \<Rightarrow> bytes" where
  "tmp_path_for r oid sq = join r (hex_lower oid @ ascii ''.spill.tmp.'' @ dec_digits (unat sq))"

definition url_for :: "bytes \<Rightarrow> SpillUrl" where
  "url_for path = SpillUrl (ascii ''file://'' @ path)"

definition strip_prefix :: "bytes \<Rightarrow> bytes \<Rightarrow> bytes option" where
  "strip_prefix p s = (if take (length p) s = p then Some (drop (length p) s) else None)"

definition parse_url :: "bytes \<Rightarrow> SpillUrl \<Rightarrow> (SpillError, bytes) result" where
  "parse_url r url =
     (case strip_prefix (ascii ''file://'') (as_str url) of
        None \<Rightarrow> Inl (SpillCorrupt (as_str url) (ascii ''url missing file:// prefix''))
      | Some path \<Rightarrow>
          if \<not> starts_with path r
          then Inl (SpillCorrupt (as_str url) (ascii ''path is outside spill root '' @ r))
          else Inr path)"

definition spill_steps :: "bytes \<Rightarrow> bytes \<Rightarrow> u32 \<Rightarrow> bytes \<Rightarrow> bytes \<Rightarrow> FsStep list" where
  "spill_steps tmp path ml md d =
     [CreateFile tmp, WriteAll tmp (u32_to_le_bytes ml), WriteAll tmp md,
      WriteAll tmp (u64_to_le_bytes (of_nat (length d))), WriteAll tmp d, SyncAll tmp,
      Rename tmp path]"

definition fs_spill ::
  "SpillObjectId \<Rightarrow> bytes \<Rightarrow> bytes \<Rightarrow> LocalFsBackend \<Rightarrow>
   LocalFsBackend \<times> (SpillError, SpillUrl) result" where
  "fs_spill oid md d b =
     (let path = path_for (root b) oid;
          tmp = tmp_path_for (root b) oid (tmp_counter b);
          b1 = b\<lparr>tmp_counter := tmp_counter b + 1\<rparr>
      in case u32_try_from (length md) of
           None \<Rightarrow>
             (case fs_run (fault b) [CreateFile tmp] (files b) of
                (fs, Some t) \<Rightarrow> (b1\<lparr>files := fs\<rparr>, Inl (SpillIo t))
              | (fs, None) \<Rightarrow>
                  (b1\<lparr>files := fs\<rparr>,
                   Inl (SpillCorrupt tmp
                     (ascii ''metadata too large: '' @ dec_digits (length md) @ ascii '' bytes''))))
         | Some ml \<Rightarrow>
             (case fs_run (fault b) (spill_steps tmp path ml md d) (files b) of
                (fs, Some t) \<Rightarrow> (b1\<lparr>files := fs\<rparr>, Inl (SpillIo t))
              | (fs, None) \<Rightarrow> (b1\<lparr>files := fs\<rparr>, Inr (url_for path))))"

definition corrupt_io :: "SpillUrl \<Rightarrow> bytes \<Rightarrow> SpillError" where
  "corrupt_io url t = SpillCorrupt (as_str url) (ascii ''truncated or unreadable: '' @ t)"

text \<open>The \<open>k\<close>-th \<open>read_exact\<close> of a restore: the bytes read and the rest of the file.\<close>

definition read_exact :: "IoFault \<Rightarrow> nat \<Rightarrow> nat \<Rightarrow> bytes \<Rightarrow> (bytes, bytes \<times> bytes) result" where
  "read_exact f k n c =
     (case f of
        ReadFault j t \<Rightarrow>
          if j = k then Inl t
          else if length c < n then Inl (ascii ''failed to fill whole buffer'')
          else Inr (take n c, drop n c)
      | _ \<Rightarrow> if length c < n then Inl (ascii ''failed to fill whole buffer'')
             else Inr (take n c, drop n c))"

text \<open>
  The body of a restore after the file is open.  A zeroed buffer of more than \<open>isize::MAX\<close> bytes
  panics when it is requested, before anything is read into it.
\<close>

definition read_spill_file :: "IoFault \<Rightarrow> SpillUrl \<Rightarrow> bytes \<Rightarrow> (SpillError, RestoredObject) result" where
  "read_spill_file f url c =
     (case read_exact f 0 4 c of
        Inl t \<Rightarrow> Inl (corrupt_io url t)
      | Inr (len_buf, c1) \<Rightarrow>
          (case read_exact f 1 (unat (u32_from_le_bytes len_buf)) c1 of
             Inl t \<Rightarrow> Inl (corrupt_io url t)
           | Inr (md, c2) \<Rightarrow>
               (case read_exact f 2 8 c2 of
                  Inl t \<Rightarrow> Inl (corrupt_io url t)
                | Inr (data_len_buf, c3) \<Rightarrow>
                    (let data_len = unat (u64_from_le_bytes data_len_buf) in
                     if 2 ^ 63 \<le> data_len then Inl SpillPanic
                     else (case read_exact f 3 data_len c3 of
                             Inl t \<Rightarrow> Inl (corrupt_io url t)
                           | Inr (d, c4) \<Rightarrow>
                               Inr \<lparr>restored_metadata = md, restored_data = d\<rparr>)))))"

definition fs_restore :: "SpillUrl \<Rightarrow> LocalFsBackend \<Rightarrow> (SpillError, RestoredObject) result" where
  "fs_restore url b =
     (case parse_url (root b) url of
        Inl e \<Rightarrow> Inl e
      | Inr path \<Rightarrow>
          (case fault b of
             OpenFault t \<Rightarrow> Inl (SpillIo t)
           | _ \<Rightarrow>
               (case hm_get (files b) path of
                  None \<Rightarrow> Inl (SpillNotFound (as_str url))
                | Some c \<Rightarrow> read_spill_file (fault b) url c)))"

definition fs_remove :: "SpillUrl \<Rightarrow> LocalFsBackend \<Rightarrow> LocalFsBackend \<times> (SpillError, unit) result" where
  "fs_remove url b =
     (case parse_url (root b) url of
        Inl e \<Rightarrow> (b, Inl e)
      | Inr path \<Rightarrow>
          (case fault b of
             UnlinkFault t \<Rightarrow> (b, Inl (SpillIo t))
           | _ \<Rightarrow> (b\<lparr>files := hm_remove path (files b)\<rparr>, Inr ())))"

section \<open>The object manager\<close>

text \<open>The backend is a trait object: the operations take the backend's methods.\<close>

record 'b LocalObjectManager =
  backend :: 'b
  directory :: "(SpillObjectId, SpillUrl) hmap"

type_synonym 'b spill_fn =
  "SpillObjectId \<Rightarrow> bytes \<Rightarrow> bytes \<Rightarrow> 'b \<Rightarrow> 'b \<times> (SpillError, SpillUrl) result"
type_synonym 'b restore_fn = "SpillUrl \<Rightarrow> 'b \<Rightarrow> (SpillError, RestoredObject) result"
type_synonym 'b remove_fn = "SpillUrl \<Rightarrow> 'b \<Rightarrow> 'b \<times> (SpillError, unit) result"

definition LocalObjectManager_new :: "'b \<Rightarrow> 'b LocalObjectManager" where
  "LocalObjectManager_new b = \<lparr>backend = b, directory = []\<rparr>"

definition spilled_count :: "'b LocalObjectManager \<Rightarrow> nat" where
  "spilled_count m = length (directory m)"

definition is_spilled :: "SpillObjectId \<Rightarrow> 'b LocalObjectManager \<Rightarrow> bool" where
  "is_spilled oid m = hm_contains (directory m) oid"

definition spill_url :: "SpillObjectId \<Rightarrow> 'b LocalObjectManager \<Rightarrow> SpillUrl option" where
  "spill_url oid m = hm_get (directory m) oid"

definition mgr_spill ::
  "'b spill_fn \<Rightarrow> SpillObjectId \<Rightarrow> bytes \<Rightarrow> bytes \<Rightarrow> 'b LocalObjectManager \<Rightarrow>
   'b LocalObjectManager \<times> (SpillError, SpillUrl) result" where
  "mgr_spill spill oid md d m =
     (case spill oid md d (backend m) of
        (b, Inl e) \<Rightarrow> (m\<lparr>backend := b\<rparr>, Inl e)
      | (b, Inr url) \<Rightarrow>
          (m\<lparr>backend := b, directory := hm_insert oid url (directory m)\<rparr>, Inr url))"

definition mgr_restore ::
  "'b restore_fn \<Rightarrow> SpillObjectId \<Rightarrow> 'b LocalObjectManager \<Rightarrow>
   'b LocalObjectManager \<times> (SpillError, RestoredObject option) result" where
  "mgr_restore restore oid m =
     (case spill_url oid m of
        None \<Rightarrow> (m, Inr None)
      | Some url \<Rightarrow>
          (case restore url (backend m) of
             Inr restored \<Rightarrow> (m, Inr (Some restored))
           | Inl (SpillNotFound u) \<Rightarrow>
               (m\<lparr>directory := hm_remove oid (directory m)\<rparr>, Inl (SpillNotFound u))
           | Inl (SpillCorrupt u r) \<Rightarrow>
               (m\<lparr>directory := hm_remove oid (directory m)\<rparr>, Inl (SpillCorrupt u r))
           | Inl other \<Rightarrow> (m, Inl other)))"

definition mgr_forget ::
  "'b remove_fn \<Rightarrow> SpillObjectId \<Rightarrow> 'b LocalObjectManager \<Rightarrow>
   'b LocalObjectManager \<times> (SpillError, unit) result" where
  "mgr_forget remove oid m =
     (let url = hm_get (directory m) oid; m1 = m\<lparr>directory := hm_remove oid (directory m)\<rparr>
      in case url of
           None \<Rightarrow> (m1, Inr ())
         | Some u \<Rightarrow> (case remove u (backend m1) of (b, r) \<Rightarrow> (m1\<lparr>backend := b\<rparr>, r)))"

section \<open>The recovery hook\<close>

record RecoveredObject =
  recovered_metadata :: bytes
  recovered_data :: bytes

datatype RecoveryError = RecoveryOther bytes | RecoveryPanic

definition recovery_error :: "string \<Rightarrow> SpillError \<Rightarrow> RecoveryError" where
  "recovery_error what e =
     (if e = SpillPanic then RecoveryPanic else RecoveryOther (ascii what @ spill_error_display e))"

definition mgr_recover ::
  "'b restore_fn \<Rightarrow> ObjectId \<Rightarrow> 'b LocalObjectManager \<Rightarrow>
   'b LocalObjectManager \<times> (RecoveryError, RecoveredObject option) result" where
  "mgr_recover restore i m =
     (case mgr_restore restore (ObjectId_bytes i) m of
        (m', Inr (Some ro)) \<Rightarrow>
          (m', Inr (Some \<lparr>recovered_metadata = restored_metadata ro,
                          recovered_data = restored_data ro\<rparr>))
      | (m', Inr None) \<Rightarrow> (m', Inr None)
      | (m', Inl e) \<Rightarrow> (m', Inl (recovery_error ''spill restore: '' e)))"

definition mgr_store ::
  "'b spill_fn \<Rightarrow> ObjectId \<Rightarrow> bytes \<Rightarrow> bytes \<Rightarrow> 'b LocalObjectManager \<Rightarrow>
   'b LocalObjectManager \<times> (RecoveryError, unit) result" where
  "mgr_store spill i md d m =
     (case mgr_spill spill (ObjectId_bytes i) md d m of
        (m', Inr url) \<Rightarrow> (m', Inr ())
      | (m', Inl e) \<Rightarrow> (m', Inl (recovery_error ''spill store: '' e)))"

section \<open>Contracts\<close>

text \<open>
  What a backend promises: \<open>content\<close> is the object a restore of the id's url returns while reads and
  removals go through (\<open>quiet\<close>).  A failed spill changes no object, a successful one changes its own,
  and while writes go through (\<open>writable\<close>) it fails only on oversized metadata.
\<close>

locale spill_backend =
  fixes binv :: "'b \<Rightarrow> bool"
    and quiet :: "'b \<Rightarrow> bool"
    and writable :: "'b \<Rightarrow> bool"
    and url_of :: "SpillObjectId \<Rightarrow> SpillUrl"
    and content :: "'b \<Rightarrow> SpillObjectId \<Rightarrow> RestoredObject option"
    and spill :: "'b spill_fn"
    and restore :: "'b restore_fn"
    and remove :: "'b remove_fn"
  assumes spill_binv: "binv b \<Longrightarrow> binv (fst (spill oid md d b))"
    and spill_quiet: "quiet (fst (spill oid md d b)) \<longleftrightarrow> quiet b"
    and spill_writable: "writable (fst (spill oid md d b)) \<longleftrightarrow> writable b"
    and spill_url_of: "\<lbrakk>binv b; spill oid md d b = (b', Inr url)\<rbrakk> \<Longrightarrow> url = url_of oid"
    and spill_ok: "\<lbrakk>binv b; rust_slice d; spill oid md d b = (b', Inr url)\<rbrakk> \<Longrightarrow>
      content b' = (content b)(oid \<mapsto> \<lparr>restored_metadata = md, restored_data = d\<rparr>)"
    and spill_failed: "\<lbrakk>binv b; spill oid md d b = (b', Inl e)\<rbrakk> \<Longrightarrow> content b' = content b"
    and spill_succeeds: "\<lbrakk>binv b; writable b; length md < 2 ^ 32\<rbrakk> \<Longrightarrow> is_ok (snd (spill oid md d b))"
    and restore_some: "\<lbrakk>binv b; quiet b; content b oid = Some x\<rbrakk> \<Longrightarrow> restore (url_of oid) b = Inr x"
    and restore_none: "\<lbrakk>binv b; quiet b; content b oid = None\<rbrakk> \<Longrightarrow> \<exists>e. restore (url_of oid) b = Inl e"
    and remove_binv: "binv b \<Longrightarrow> binv (fst (remove url b))"
    and remove_quiet: "quiet (fst (remove url b)) \<longleftrightarrow> quiet b"
    and remove_ok: "\<lbrakk>binv b; quiet b; remove (url_of oid) b = (b', r)\<rbrakk> \<Longrightarrow>
      r = Inr () \<and> content b' = (content b)(oid := None)"
    and content_slices: "content b oid = Some x \<Longrightarrow>
      rust_slice (restored_metadata x) \<and> rust_slice (restored_data x)"

text \<open>What the worker expects of its recovery hook.\<close>

locale object_recoverer =
  fixes rinv :: "'s \<Rightarrow> bool"
    and rquiet :: "'s \<Rightarrow> bool"
    and rwritable :: "'s \<Rightarrow> bool"
    and held :: "'s \<Rightarrow> ObjectId \<Rightarrow> RecoveredObject option"
    and recover :: "ObjectId \<Rightarrow> 's \<Rightarrow> 's \<times> (RecoveryError, RecoveredObject option) result"
    and store :: "ObjectId \<Rightarrow> bytes \<Rightarrow> bytes \<Rightarrow> 's \<Rightarrow> 's \<times> (RecoveryError, unit) result"
  assumes store_inv: "rinv s \<Longrightarrow> rinv (fst (store i md d s))"
    and store_quiet: "rquiet (fst (store i md d s)) \<longleftrightarrow> rquiet s"
    and store_writable: "rwritable (fst (store i md d s)) \<longleftrightarrow> rwritable s"
    and store_ok: "\<lbrakk>rinv s; rust_slice d; store i md d s = (s', Inr ())\<rbrakk> \<Longrightarrow>
      held s' = (held s)(i \<mapsto> \<lparr>recovered_metadata = md, recovered_data = d\<rparr>)"
    and store_failed: "\<lbrakk>rinv s; store i md d s = (s', Inl e)\<rbrakk> \<Longrightarrow> held s' = held s"
    and store_succeeds: "\<lbrakk>rinv s; rwritable s; length md < 2 ^ 32\<rbrakk> \<Longrightarrow> is_ok (snd (store i md d s))"
    and recover_inv: "rinv s \<Longrightarrow> rinv (fst (recover i s))"
    and recover_quiet: "rquiet (fst (recover i s)) \<longleftrightarrow> rquiet s"
    and recover_held: "\<lbrakk>rinv s; rquiet s; held s i = Some x\<rbrakk> \<Longrightarrow> recover i s = (s, Inr (Some x))"
    and recover_absent: "\<lbrakk>rinv s; rquiet s; held s i = None; recover i s = (s', r)\<rbrakk> \<Longrightarrow>
      held s' = held s \<and> (\<forall>x. r \<noteq> Inr (Some x))"
    and held_slices: "held s i = Some x \<Longrightarrow>
      rust_slice (recovered_metadata x) \<and> rust_slice (recovered_data x)"
begin

lemma store_then_recover:
  assumes "rinv s" and "rquiet s" and "rust_slice d" and "store i md d s = (s', Inr ())"
  shows "recover i s' = (s', Inr (Some \<lparr>recovered_metadata = md, recovered_data = d\<rparr>))"
proof (rule recover_held)
  show "rinv s'" using store_inv [OF assms(1), of i md d] assms(4) by simp
  show "rquiet s'" using store_quiet [of i md d s] assms(2,4) by simp
  show "held s' i = Some \<lparr>recovered_metadata = md, recovered_data = d\<rparr>"
    using store_ok [OF assms(1,3,4)] by simp
qed

lemma recover_result:
  assumes "rinv s" and "rquiet s" and "recover i s = (s', Inr (Some x))"
  shows "held s i = Some x \<and> s' = s"
proof (cases "held s i")
  case None
  then show ?thesis using recover_absent [OF assms(1,2) None assms(3)] by simp
next
  case (Some y)
  then show ?thesis using recover_held [OF assms(1,2) Some] assms(3) by simp
qed

lemma recover_held_unchanged:
  assumes "rinv s" and "rquiet s"
  shows "held (fst (recover i s)) = held s"
proof (cases "held s i")
  case None
  then show ?thesis using recover_absent [OF assms None] by (metis prod.collapse)
next
  case (Some y)
  then show ?thesis using recover_held [OF assms Some] by simp
qed

end

text \<open>A hook that is told when an object is freed, and then holds it no longer.\<close>

locale freeing_recoverer = object_recoverer rinv rquiet rwritable held recover store
  for rinv :: "'s \<Rightarrow> bool" and rquiet :: "'s \<Rightarrow> bool" and rwritable :: "'s \<Rightarrow> bool"
    and held :: "'s \<Rightarrow> ObjectId \<Rightarrow> RecoveredObject option"
    and recover :: "ObjectId \<Rightarrow> 's \<Rightarrow> 's \<times> (RecoveryError, RecoveredObject option) result"
    and store :: "ObjectId \<Rightarrow> bytes \<Rightarrow> bytes \<Rightarrow> 's \<Rightarrow> 's \<times> (RecoveryError, unit) result" +
  fixes on_free :: "ObjectId \<Rightarrow> 's \<Rightarrow> 's"
  assumes free_inv: "rinv s \<Longrightarrow> rinv (on_free i s)"
    and free_quiet: "rquiet (on_free i s) \<longleftrightarrow> rquiet s"
    and free_held: "rinv s \<Longrightarrow> rquiet s \<Longrightarrow> held (on_free i s) = (held s)(i := None)"

definition to_recovered :: "RestoredObject \<Rightarrow> RecoveredObject" where
  "to_recovered ro = \<lparr>recovered_metadata = restored_metadata ro, recovered_data = restored_data ro\<rparr>"

definition mgr_inv ::
  "('b \<Rightarrow> bool) \<Rightarrow> (SpillObjectId \<Rightarrow> SpillUrl) \<Rightarrow> 'b LocalObjectManager \<Rightarrow> bool" where
  "mgr_inv binv url_of m \<longleftrightarrow>
     binv (backend m) \<and> hm_wf (directory m) \<and>
     (\<forall>oid url. hm_get (directory m) oid = Some url \<longrightarrow> url = url_of oid)"

definition mgr_held ::
  "('b \<Rightarrow> SpillObjectId \<Rightarrow> RestoredObject option) \<Rightarrow> 'b LocalObjectManager \<Rightarrow> ObjectId \<Rightarrow>
   RecoveredObject option" where
  "mgr_held content m i =
     (if hm_contains (directory m) (ObjectId_bytes i)
      then map_option to_recovered (content (backend m) (ObjectId_bytes i)) else None)"

lemma ObjectId_bytes_eq_iff: "ObjectId_bytes i = ObjectId_bytes j \<longleftrightarrow> i = j"
  by (cases i; cases j) simp

lemma mgr_held_None: "mgr_held content m i = None \<longleftrightarrow>
  \<not> hm_contains (directory m) (ObjectId_bytes i) \<or> content (backend m) (ObjectId_bytes i) = None"
  by (simp add: mgr_held_def)

lemma mgr_inv_drop:
  "mgr_inv binv url_of m \<Longrightarrow> mgr_inv binv url_of (m\<lparr>directory := hm_remove oid (directory m)\<rparr>)"
  by (auto simp: mgr_inv_def simp del: map_of_eq_Some_iff split: if_splits)

lemma mgr_inv_backend:
  "mgr_inv binv url_of m \<Longrightarrow> binv b \<Longrightarrow> mgr_inv binv url_of (m\<lparr>backend := b\<rparr>)"
  by (simp add: mgr_inv_def)

lemmas mgr_defs = mgr_spill_def mgr_restore_def mgr_forget_def mgr_recover_def mgr_store_def
  spill_url_def

context spill_backend
begin

lemma mgr_spill_inv:
  assumes "mgr_inv binv url_of m"
  shows "mgr_inv binv url_of (fst (mgr_spill spill oid md d m))"
proof -
  obtain b r where b: "spill oid md d (backend m) = (b, r)"
    by fastforce
  have "binv b"
    using assms spill_binv [of "backend m" oid md d] b by (simp add: mgr_inv_def)
  moreover have "url = url_of oid" if "r = Inr url" for url
    using spill_url_of [of "backend m" oid md d b url] assms b that by (simp add: mgr_inv_def)
  ultimately show ?thesis
    using assms b by (cases r) (auto simp: mgr_spill_def mgr_inv_def)
qed

lemma mgr_spill_held:
  assumes "mgr_inv binv url_of m" and "rust_slice d"
    and "mgr_spill spill (ObjectId_bytes i) md d m = (m', Inr url)"
  shows "mgr_held content m' =
    (mgr_held content m)(i \<mapsto> \<lparr>recovered_metadata = md, recovered_data = d\<rparr>)"
proof -
  obtain b where b: "spill (ObjectId_bytes i) md d (backend m) = (b, Inr url)"
    and m': "m' = m\<lparr>backend := b, directory := hm_insert (ObjectId_bytes i) url (directory m)\<rparr>"
    using assms(3) by (auto simp: mgr_spill_def split: prod.splits sum.splits)
  have "content b = (content (backend m))
      (ObjectId_bytes i \<mapsto> \<lparr>restored_metadata = md, restored_data = d\<rparr>)"
    using spill_ok [OF _ assms(2) b] assms(1) by (simp add: mgr_inv_def)
  then show ?thesis
    by (auto simp: m' mgr_held_def fun_eq_iff ObjectId_bytes_eq_iff to_recovered_def)
qed

lemma mgr_spill_held_failed:
  assumes "mgr_inv binv url_of m" and "mgr_spill spill oid md d m = (m', Inl e)"
  shows "mgr_held content m' = mgr_held content m"
proof -
  obtain b where b: "spill oid md d (backend m) = (b, Inl e)" and m': "m' = m\<lparr>backend := b\<rparr>"
    using assms(2) by (auto simp: mgr_spill_def split: prod.splits sum.splits)
  have "content b = content (backend m)"
    using spill_failed [OF _ b] assms(1) by (simp add: mgr_inv_def)
  then show ?thesis
    by (simp add: m' mgr_held_def fun_eq_iff)
qed

lemma mgr_restore_inv: "mgr_inv binv url_of m \<Longrightarrow> mgr_inv binv url_of (fst (mgr_restore restore oid m))"
  by (auto simp: mgr_restore_def intro: mgr_inv_drop
      split: option.splits sum.splits SpillError.splits)

lemma mgr_restore_some:
  assumes "mgr_inv binv url_of m" and "quiet (backend m)"
    and "hm_contains (directory m) oid" and "content (backend m) oid = Some x"
  shows "mgr_restore restore oid m = (m, Inr (Some x))"
proof -
  have "hm_get (directory m) oid = Some (url_of oid)" "binv (backend m)"
    using assms(1,3) by (auto simp: mgr_inv_def hm_contains_def)
  then show ?thesis
    using restore_some [OF _ assms(2,4)] by (simp add: mgr_restore_def spill_url_def)
qed

lemma mgr_restore_none:
  assumes "mgr_inv binv url_of m" and "quiet (backend m)"
    and "mgr_held content m i = None" and "mgr_restore restore (ObjectId_bytes i) m = (m', r)"
  shows "mgr_held content m' = mgr_held content m \<and> (\<forall>x. r \<noteq> Inr (Some x))"
proof (cases "hm_get (directory m) (ObjectId_bytes i)")
  case None
  then show ?thesis using assms(4) by (auto simp: mgr_restore_def spill_url_def)
next
  case (Some url)
  then have url: "url = url_of (ObjectId_bytes i)" and "binv (backend m)"
    and none: "content (backend m) (ObjectId_bytes i) = None"
    using assms(1,3) by (auto simp: mgr_inv_def mgr_held_None hm_contains_def)
  then obtain e where e: "restore url (backend m) = Inl e"
    using restore_none assms(2) by blast
  have "mgr_held content (m\<lparr>directory := hm_remove (ObjectId_bytes i) (directory m)\<rparr>)
      = mgr_held content m"
    using none by (auto simp: mgr_held_def fun_eq_iff ObjectId_bytes_eq_iff)
  with assms(4) Some e show ?thesis
    by (auto simp: mgr_restore_def spill_url_def split: SpillError.splits)
qed

lemma mgr_forget_held:
  assumes "mgr_inv binv url_of m" and "quiet (backend m)"
    and "mgr_forget remove (ObjectId_bytes i) m = (m', r)"
  shows "r = Inr () \<and> mgr_held content m' = (mgr_held content m)(i := None)
    \<and> content (backend m') (ObjectId_bytes i) =
        (if hm_contains (directory m) (ObjectId_bytes i) then None
         else content (backend m) (ObjectId_bytes i))"
proof (cases "hm_get (directory m) (ObjectId_bytes i)")
  case None
  then show ?thesis
    using assms(3) by (auto simp: mgr_forget_def mgr_held_def fun_eq_iff hm_contains_def
        ObjectId_bytes_eq_iff hm_remove_id)
next
  case (Some url)
  then have url: "url = url_of (ObjectId_bytes i)" and "binv (backend m)"
    using assms(1) by (auto simp: mgr_inv_def)
  obtain b q where b: "remove url (backend m) = (b, q)"
    by fastforce
  then have "q = Inr ()" "content b = (content (backend m))(ObjectId_bytes i := None)"
    using remove_ok [OF \<open>binv (backend m)\<close> assms(2)] url by auto
  then show ?thesis
    using Some assms(3) b by (auto simp: mgr_forget_def Let_def mgr_held_def fun_eq_iff hm_contains_def
        ObjectId_bytes_eq_iff)
qed

lemma mgr_forget_quiet: "quiet (backend (fst (mgr_forget remove oid m))) \<longleftrightarrow> quiet (backend m)"
  using remove_quiet by (auto simp: mgr_forget_def Let_def split: option.split prod.split) (metis fst_conv)+

lemma mgr_forget_inv:
  assumes "mgr_inv binv url_of m"
  shows "mgr_inv binv url_of (fst (mgr_forget remove oid m))"
proof -
  have "binv (fst (remove url (backend m)))" for url
    using assms by (intro remove_binv) (simp add: mgr_inv_def)
  with mgr_inv_backend [OF mgr_inv_drop [OF assms, of oid]] show ?thesis
    by (auto simp: mgr_forget_def Let_def mgr_inv_drop [OF assms] split: option.splits prod.splits)
      (metis fst_conv)
qed

end

text \<open>A manager over any such backend is a recovery hook.\<close>

sublocale spill_backend \<subseteq> hook: freeing_recoverer "mgr_inv binv url_of" "\<lambda>m. quiet (backend m)"
  "\<lambda>m. writable (backend m)" "mgr_held content" "mgr_recover restore" "mgr_store spill"
  "\<lambda>i m. fst (mgr_forget remove (ObjectId_bytes i) m)"
proof
  fix m :: "'b LocalObjectManager" and m' i md d e x r
  show "mgr_inv binv url_of (fst (mgr_store spill i md d m))" if "mgr_inv binv url_of m"
    using mgr_spill_inv [OF that, of "ObjectId_bytes i" md d]
    by (auto simp: mgr_store_def split: prod.split sum.split)
  show "quiet (backend (fst (mgr_store spill i md d m))) \<longleftrightarrow> quiet (backend m)"
    using spill_quiet [of "ObjectId_bytes i" md d "backend m"]
    by (auto simp: mgr_store_def mgr_spill_def split: prod.splits sum.splits)
  show "writable (backend (fst (mgr_store spill i md d m))) \<longleftrightarrow> writable (backend m)"
    using spill_writable [of "ObjectId_bytes i" md d "backend m"]
    by (auto simp: mgr_store_def mgr_spill_def split: prod.splits sum.splits)
  show "mgr_held content m' =
      (mgr_held content m)(i \<mapsto> \<lparr>recovered_metadata = md, recovered_data = d\<rparr>)"
    if "mgr_inv binv url_of m" "rust_slice d" "mgr_store spill i md d m = (m', Inr ())"
    using that by (auto simp: mgr_store_def intro: mgr_spill_held split: prod.splits sum.splits)
  show "mgr_held content m' = mgr_held content m"
    if "mgr_inv binv url_of m" "mgr_store spill i md d m = (m', Inl e)"
    using that by (auto simp: mgr_store_def intro: mgr_spill_held_failed split: prod.splits sum.splits)
  show "is_ok (snd (mgr_store spill i md d m))"
    if "mgr_inv binv url_of m" "writable (backend m)" "length md < 2 ^ 32"
    using spill_succeeds [of "backend m" md "ObjectId_bytes i" d] that
    by (auto simp: mgr_store_def mgr_spill_def mgr_inv_def is_ok_def split: prod.splits sum.splits)
  show "mgr_inv binv url_of (fst (mgr_recover restore i m))" if "mgr_inv binv url_of m"
    using mgr_restore_inv [OF that, of "ObjectId_bytes i"]
    by (auto simp: mgr_recover_def split: prod.split sum.split option.split)
  show "quiet (backend (fst (mgr_recover restore i m))) \<longleftrightarrow> quiet (backend m)"
    by (auto simp: mgr_recover_def mgr_restore_def
        split: prod.split sum.split option.split SpillError.split)
  show "mgr_recover restore i m = (m, Inr (Some x))"
    if "mgr_inv binv url_of m" "quiet (backend m)" "mgr_held content m i = Some x"
    using that mgr_restore_some [of m "ObjectId_bytes i"]
    by (auto simp: mgr_recover_def mgr_held_def to_recovered_def split: if_splits)
  show "mgr_held content m' = mgr_held content m \<and> (\<forall>x. r \<noteq> Inr (Some x))"
    if "mgr_inv binv url_of m" "quiet (backend m)" "mgr_held content m i = None"
      "mgr_recover restore i m = (m', r)"
    using that(4) mgr_restore_none [OF that(1-3)]
    by (fastforce simp: mgr_recover_def split: prod.splits sum.splits option.splits)
  show "rust_slice (recovered_metadata x) \<and> rust_slice (recovered_data x)"
    if "mgr_held content m i = Some x"
    using that content_slices [of "backend m" "ObjectId_bytes i"]
    by (auto simp: mgr_held_def to_recovered_def split: if_splits)
  show "mgr_inv binv url_of (fst (mgr_forget remove (ObjectId_bytes i) m))" if "mgr_inv binv url_of m"
    by (rule mgr_forget_inv [OF that])
  show "quiet (backend (fst (mgr_forget remove (ObjectId_bytes i) m))) \<longleftrightarrow> quiet (backend m)"
    by (rule mgr_forget_quiet)
  show "mgr_held content (fst (mgr_forget remove (ObjectId_bytes i) m)) = (mgr_held content m)(i := None)"
    if "mgr_inv binv url_of m" "quiet (backend m)"
    using mgr_forget_held [OF that, of i] by (metis prod.collapse)
qed

section \<open>The directory backend meets its contract\<close>

lemma split_on_not_Nil [simp]: "split_on c bs \<noteq> []"
  by (induction bs) (auto split: list.split)

lemma split_on_append: "split_on c (a @ c # b) = split_on c a @ split_on c b"
proof (induction a)
  case (Cons x a)
  obtain w ws where "split_on c a = w # ws"
    by (cases "split_on c a") auto
  with Cons show ?case by simp
qed simp

lemma split_on_single: "c \<notin> set bs \<Longrightarrow> split_on c bs = [bs]"
  by (induction bs) auto

lemma components_join:
  assumes "has_root base" and "47 \<notin> set name" and "plain_component name"
  shows "components (join base name) = components base @ [name]"
proof (cases "last base = 47")
  case True
  moreover have "base \<noteq> []"
    using assms(1) by (auto simp: has_root_def)
  ultimately obtain b where b: "base = b @ [47]"
    by (metis append_butlast_last_id)
  have "has_root (b @ 47 # name)"
    using assms(1) by (cases b) (auto simp: b has_root_def)
  moreover have "filter plain_component (split_on 47 (b @ [47])) = filter plain_component (split_on 47 b)"
    using split_on_append [of 47 b "[]"] by (simp add: plain_component_def)
  ultimately show ?thesis
    using assms split_on_append [of 47 b name]
    by (simp add: b join_def components_def split_on_single)
next
  case False
  moreover have ne: "base \<noteq> []"
    using assms(1) by (auto simp: has_root_def)
  moreover have "has_root (base @ 47 # name)"
    using assms(1) by (cases base) (auto simp: has_root_def)
  ultimately show ?thesis
    using assms by (simp add: join_def components_def split_on_append split_on_single)
qed

lemma has_root_join: "has_root base \<Longrightarrow> has_root (join base name)"
  by (cases base) (auto simp: has_root_def join_def)

lemma starts_with_join:
  "has_root base \<Longrightarrow> 47 \<notin> set name \<Longrightarrow> plain_component name \<Longrightarrow> starts_with (join base name) base"
  by (simp add: starts_with_def components_join has_root_join)

lemma hex_digit_not_sep: "n < 16 \<Longrightarrow> hex_digit n \<noteq> 47"
proof
  assume "n < 16" and "hex_digit n = 47"
  then have "unat (hex_digit n) = 47" by simp
  with \<open>n < 16\<close> show False
    by (auto simp: hex_digit_def unat_of_nat simp del: of_nat_add split: if_splits)
qed

lemma hex_lower_no_sep: "47 \<notin> set (hex_lower bs)"
proof -
  have "hex_digit (unat b div 16) \<noteq> 47" "hex_digit (unat b mod 16) \<noteq> 47" for b :: byte
    using unat_byte_lt [of b] by (auto intro!: hex_digit_not_sep)
  then show ?thesis
    by (auto simp: hex_lower_def hex_byte_def dest: sym [of 47])
qed

lemma spill_name_ok:
  "47 \<notin> set (hex_lower oid @ ascii ''.spill'')" "plain_component (hex_lower oid @ ascii ''.spill'')"
  by (auto simp: hex_lower_no_sep ascii_def plain_component_def)

lemma strip_prefix_append [simp]: "strip_prefix p (p @ s) = Some s"
  by (simp add: strip_prefix_def)

lemma parse_url_for:
  "has_root r \<Longrightarrow> parse_url r (url_for (path_for r oid)) = Inr (path_for r oid)"
  using starts_with_join [OF _ spill_name_ok, of r oid]
  by (simp add: parse_url_def url_for_def path_for_def)

lemma path_for_inj: "path_for r a = path_for r b \<longleftrightarrow> a = b"
  by (auto simp: path_for_def join_def dest: hex_lower_inj split: if_splits)

lemma last_join: "name \<noteq> [] \<Longrightarrow> last (join base name) = last name"
  by (simp add: join_def)

lemma tmp_path_not_final: "tmp_path_for r a n \<noteq> path_for r b"
proof
  assume eq: "tmp_path_for r a n = path_for r b"
  have "last (tmp_path_for r a n) = last (dec_digits (unat n))"
    by (simp add: tmp_path_for_def last_join)
  moreover have "last (path_for r b) = 108"
    by (simp add: path_for_def last_join ascii_def)
  ultimately have "last (dec_digits (unat n)) = 108"
    by (simp add: eq)
  moreover obtain k where "k < 10" "last (dec_digits (unat n)) = of_nat (48 + k)"
    using last_dec_digits by blast
  ultimately have "unat (of_nat (48 + k) :: byte) = 108"
    by simp
  with \<open>k < 10\<close> show False
    by (simp add: unat_of_nat del: of_nat_add)
qed

text \<open>Steps that touch one file only, and what a run interrupted anywhere leaves.\<close>

fun step_within :: "bytes \<Rightarrow> FsStep \<Rightarrow> bool" where
  "step_within p (CreateFile q) \<longleftrightarrow> q = p"
| "step_within p (WriteAll q bs) \<longleftrightarrow> q = p"
| "step_within p (SyncAll q) \<longleftrightarrow> q = p"
| "step_within p (Rename q q') \<longleftrightarrow> False"

lemma hm_get_append_file:
  "hm_get (append_file p bs fs) q = (if q = p then map_option (\<lambda>c. c @ bs) (hm_get fs p) else hm_get fs q)"
  by (auto simp: append_file_def split: option.split)

lemma fs_step_frame: "step_within p s \<Longrightarrow> q \<noteq> p \<Longrightarrow> hm_get (fs_step s fs) q = hm_get fs q"
  by (cases s) (auto simp: hm_get_append_file)

lemma fs_partial_frame: "step_within p s \<Longrightarrow> q \<noteq> p \<Longrightarrow> hm_get (fs_partial n s fs) q = hm_get fs q"
  by (cases s) (auto simp: hm_get_append_file)

lemma fs_run_frame:
  "list_all (step_within p) ss \<Longrightarrow> q \<noteq> p \<Longrightarrow> hm_get (fst (fs_run f ss fs)) q = hm_get fs q"
  by (induction f ss fs rule: fs_run.induct) (auto simp: fs_step_frame fs_partial_frame)

lemma fs_run_interrupted:
  assumes "list_all (step_within p) ss" and "q \<noteq> p"
    and "fs_run f (ss @ [Rename p path]) fs = (fs', Some t)"
  shows "hm_get fs' q = hm_get fs q"
  using assms
proof (induction ss arbitrary: f fs)
  case Nil
  show ?case
  proof (cases f)
    case (WriteFault k n u)
    then show ?thesis using Nil by (cases k) auto
  qed (use Nil in auto)
next
  case (Cons s ss)
  have IH: "hm_get fs' q = hm_get (fs_step s fs) q" if "fs_run g (ss @ [Rename p path]) (fs_step s fs) = (fs', Some t)" for g
    using Cons.IH that Cons.prems by simp
  have frame: "hm_get (fs_step s fs) q = hm_get fs q" "hm_get (fs_partial n s fs) q = hm_get fs q" for n
    using Cons.prems by (auto simp: fs_step_frame fs_partial_frame)
  show ?case
  proof (cases f)
    case (WriteFault k n u)
    then show ?thesis
      using Cons.prems(3) IH frame by (cases k) auto
  qed (use Cons.prems(3) IH frame in auto)
qed

lemma fs_run_complete: "fs_run f ss fs = (fs', None) \<Longrightarrow> fs' = fold fs_step ss fs"
  by (induction f ss fs rule: fs_run.induct) auto

lemma fs_run_quiet: "fs_run NoFault ss fs = (fold fs_step ss fs, None)"
  by (induction ss arbitrary: fs) auto

definition spill_encode :: "u32 \<Rightarrow> bytes \<Rightarrow> bytes \<Rightarrow> bytes" where
  "spill_encode ml md d = u32_to_le_bytes ml @ md @ u64_to_le_bytes (of_nat (length d)) @ d"

lemma spill_steps_result:
  assumes "tmp \<noteq> path"
  shows "hm_get (fold fs_step (spill_steps tmp path ml md d) fs) q =
    (if q = path then Some (spill_encode ml md d) else if q = tmp then None else hm_get fs q)"
  using assms by (simp add: spill_steps_def spill_encode_def hm_get_append_file)

lemma spill_steps_within:
  "\<exists>ss. spill_steps tmp path ml md d = ss @ [Rename tmp path] \<and> list_all (step_within tmp) ss"
  by (rule exI [of _ "butlast (spill_steps tmp path ml md d)"]) (simp add: spill_steps_def)

lemma read_spill_file_encode:
  assumes "unat ml = length md" and "rust_slice d"
  shows "read_spill_file NoFault url (spill_encode ml md d @ rest)
    = Inr \<lparr>restored_metadata = md, restored_data = d\<rparr>"
proof -
  have "length d < 2 ^ 64"
    using assms(2) by (simp add: rust_slice_def)
  then have "unat (of_nat (length d) :: u64) = length d"
    by (simp add: unat_of_nat)
  then show ?thesis
    using assms by (simp add: read_spill_file_def spill_encode_def read_exact_def rust_slice_def Let_def)
qed

section \<open>The file format\<close>

definition spill_file_of :: "RestoredObject \<Rightarrow> bytes" where
  "spill_file_of ro = spill_encode (of_nat (length (restored_metadata ro))) (restored_metadata ro) (restored_data ro)"

definition spillable :: "RestoredObject \<Rightarrow> bool" where
  "spillable ro \<longleftrightarrow> length (restored_metadata ro) < 2 ^ 32 \<and> rust_slice (restored_data ro)"

lemma read_exact_Inr: "read_exact NoFault k n c = Inr (x, y) \<longleftrightarrow> c = x @ y \<and> length x = n"
  by (auto simp: read_exact_def)

lemma read_spill_file_Inr:
  assumes "read_spill_file NoFault url c = Inr ro"
  shows "spillable ro \<and> (\<exists>rest. c = spill_file_of ro @ rest)"
proof -
  obtain lb c1 md c2 db c3 d c4 where
    e: "read_exact NoFault 0 4 c = Inr (lb, c1)"
      "read_exact NoFault 1 (unat (u32_from_le_bytes lb)) c1 = Inr (md, c2)"
      "read_exact NoFault 2 8 c2 = Inr (db, c3)"
      "read_exact NoFault 3 (unat (u64_from_le_bytes db)) c3 = Inr (d, c4)"
    and small: "unat (u64_from_le_bytes db) < 2 ^ 63"
    and ro: "ro = \<lparr>restored_metadata = md, restored_data = d\<rparr>"
    using assms by (auto simp: read_spill_file_def Let_def split: sum.splits prod.splits if_splits)
  then have l: "length md = unat (u32_from_le_bytes lb)" "length d = unat (u64_from_le_bytes db)"
    and lb: "length lb = 4" "length db = 8"
    and c: "c = lb @ md @ db @ d @ c4"
    by (auto simp: read_exact_Inr)
  then have "u32_to_le_bytes (of_nat (length md)) = lb" "u64_to_le_bytes (of_nat (length d)) = db"
    by simp_all
  then have "c = spill_file_of ro @ c4"
    by (simp add: c ro spill_file_of_def spill_encode_def)
  moreover have "spillable ro"
    using small l unat_lt2p [of "u32_from_le_bytes lb"] by (simp add: spillable_def ro rust_slice_def)
  ultimately show ?thesis by blast
qed

section \<open>The contract\<close>

definition fs_inv :: "bytes \<Rightarrow> LocalFsBackend \<Rightarrow> bool" where
  "fs_inv r b \<longleftrightarrow> root b = r \<and> has_root r"

definition fs_quiet :: "LocalFsBackend \<Rightarrow> bool" where
  "fs_quiet b \<longleftrightarrow> (case fault b of NoFault \<Rightarrow> True | WriteFault _ _ _ \<Rightarrow> True | _ \<Rightarrow> False)"

definition fs_writable :: "LocalFsBackend \<Rightarrow> bool" where
  "fs_writable b \<longleftrightarrow> fault b = NoFault"

definition fs_content :: "LocalFsBackend \<Rightarrow> SpillObjectId \<Rightarrow> RestoredObject option" where
  "fs_content b oid =
     (let path = path_for (root b) oid
      in case hm_get (files b) path of
           None \<Rightarrow> None
         | Some c \<Rightarrow>
             (case read_spill_file NoFault (url_for path) c of Inl e \<Rightarrow> None | Inr ro \<Rightarrow> Some ro))"

lemma fs_spill_frame: "root (fst (fs_spill oid md d b)) = root b" "fault (fst (fs_spill oid md d b)) = fault b"
  by (auto simp: fs_spill_def Let_def split: option.split prod.split)

lemma fs_spill_outcome:
  assumes "fs_spill oid md d b = (b', res)"
  shows "hm_get (files b') (path_for (root b) o') =
      (if is_ok res \<and> o' = oid then Some (spill_encode (of_nat (length md)) md d)
       else hm_get (files b) (path_for (root b) o'))"
    and "res = Inr url \<Longrightarrow> url = url_for (path_for (root b) oid) \<and> length md < 2 ^ 32"
proof -
  let ?path = "path_for (root b) oid" and ?tmp = "tmp_path_for (root b) oid (tmp_counter b)"
  have ne: "?tmp \<noteq> path_for (root b) x" for x
    by (rule tmp_path_not_final)
  have "(hm_get (files b') (path_for (root b) o') =
      (if is_ok res \<and> o' = oid then Some (spill_encode (of_nat (length md)) md d)
       else hm_get (files b) (path_for (root b) o')))
    \<and> (res = Inr url \<longrightarrow> url = url_for (path_for (root b) oid) \<and> length md < 2 ^ 32)"
  proof (cases "u32_try_from (length md)")
    case None
    have "hm_get (fst (fs_run (fault b) [CreateFile ?tmp] (files b))) (path_for (root b) o')
        = hm_get (files b) (path_for (root b) o')"
      using ne [of o'] by (intro fs_run_frame) auto
    with None assms show ?thesis
      by (auto simp: fs_spill_def Let_def is_ok_def split: prod.splits option.splits)
  next
    case (Some ml)
    then have ml: "ml = of_nat (length md)" and len: "length md < 2 ^ 32"
      by (auto simp: u32_try_from_def split: if_splits)
    obtain fs t where run: "fs_run (fault b) (spill_steps ?tmp ?path ml md d) (files b) = (fs, t)"
      by fastforce
    show ?thesis
    proof (cases t)
      case None
      have "hm_get fs (path_for (root b) o') =
          (if o' = oid then Some (spill_encode ml md d) else hm_get (files b) (path_for (root b) o'))"
        using fs_run_complete [OF run [unfolded None]] ne [of o'] ne [of oid]
        by (simp add: spill_steps_result path_for_inj)
      with Some None run assms ml len show ?thesis
        by (auto simp: fs_spill_def Let_def is_ok_def)
    next
      case t: (Some u)
      obtain ss where ss: "spill_steps ?tmp ?path ml md d = ss @ [Rename ?tmp ?path]"
        "list_all (step_within ?tmp) ss"
        using spill_steps_within by blast
      have "hm_get fs (path_for (root b) o') = hm_get (files b) (path_for (root b) o')"
        using fs_run_interrupted [OF ss(2) ne [symmetric] run [unfolded ss(1) t]] .
      with Some t run assms show ?thesis
        by (auto simp: fs_spill_def Let_def is_ok_def)
    qed
  qed
  then show "hm_get (files b') (path_for (root b) o') =
      (if is_ok res \<and> o' = oid then Some (spill_encode (of_nat (length md)) md d)
       else hm_get (files b) (path_for (root b) o'))"
    and "res = Inr url \<Longrightarrow> url = url_for (path_for (root b) oid) \<and> length md < 2 ^ 32"
    by blast+
qed

lemma fs_content_spilled:
  assumes "fs_spill oid md d b = (b', Inr url)" and "rust_slice d"
  shows "fs_content b' = (fs_content b)(oid \<mapsto> \<lparr>restored_metadata = md, restored_data = d\<rparr>)"
proof
  fix x
  have "length md < 2 ^ 32"
    using fs_spill_outcome(2) [OF assms(1), of url] by simp
  then have "unat (of_nat (length md) :: u32) = length md"
    by (simp add: unat_of_nat)
  then show "fs_content b' x =
      ((fs_content b)(oid \<mapsto> \<lparr>restored_metadata = md, restored_data = d\<rparr>)) x"
    using fs_spill_outcome(1) [OF assms(1), of x] fs_spill_frame [of oid md d b] assms
      read_spill_file_encode [of "of_nat (length md)" md d _ "[]"]
    by (auto simp: fs_content_def Let_def is_ok_def)
qed

lemma fs_content_failed: "fs_spill oid md d b = (b', Inl e) \<Longrightarrow> fs_content b' = fs_content b"
  using fs_spill_outcome(1) [of oid md d b b' "Inl e"] fs_spill_frame [of oid md d b]
  by (auto simp: fs_content_def Let_def is_ok_def fun_eq_iff)

lemma read_exact_write_fault: "read_exact (WriteFault k n t) = read_exact NoFault"
  by (simp add: read_exact_def fun_eq_iff)

lemma read_spill_file_write_fault: "read_spill_file (WriteFault k n t) = read_spill_file NoFault"
  unfolding fun_eq_iff read_spill_file_def read_exact_write_fault by simp

lemma fs_restore_content:
  assumes "fs_inv r b" and "fs_quiet b"
  shows "case fs_content b oid of
      None \<Rightarrow> \<exists>e. fs_restore (url_for (path_for r oid)) b = Inl e
    | Some x \<Rightarrow> fs_restore (url_for (path_for r oid)) b = Inr x"
proof -
  have r: "root b = r" "parse_url r (url_for (path_for r oid)) = Inr (path_for r oid)"
    using assms(1) by (auto simp: fs_inv_def parse_url_for)
  have f: "fault b = NoFault \<or> (\<exists>k n t. fault b = WriteFault k n t)"
    using assms(2) by (auto simp: fs_quiet_def split: IoFault.splits)
  then show ?thesis
    by (auto simp: fs_restore_def fs_content_def r Let_def read_spill_file_write_fault
        split: option.split sum.split)
qed

lemma fs_remove_frame: "root (fst (fs_remove url b)) = root b" "fault (fst (fs_remove url b)) = fault b"
  by (auto simp: fs_remove_def split: sum.split IoFault.split)

lemma fs_remove_content:
  assumes "fs_inv r b" and "fs_quiet b" and "fs_remove (url_for (path_for r oid)) b = (b', q)"
  shows "q = Inr () \<and> fs_content b' = (fs_content b)(oid := None)"
proof -
  have r: "root b = r" "parse_url r (url_for (path_for r oid)) = Inr (path_for r oid)"
    using assms(1) by (auto simp: fs_inv_def parse_url_for)
  have "q = Inr ()" and b': "b' = b\<lparr>files := hm_remove (path_for r oid) (files b)\<rparr>"
    using assms(2,3) by (auto simp: fs_remove_def r fs_quiet_def split: IoFault.splits)
  then show ?thesis
    by (auto simp: fs_content_def Let_def r path_for_inj fun_eq_iff)
qed

interpretation localfs: spill_backend "fs_inv r" fs_quiet fs_writable "\<lambda>oid. url_for (path_for r oid)"
  fs_content fs_spill fs_restore fs_remove for r
proof
  fix b b' :: LocalFsBackend and oid md d url e x q
  show "fs_inv r (fst (fs_spill oid md d b))" if "fs_inv r b"
    using that by (simp add: fs_inv_def fs_spill_frame)
  show "fs_quiet (fst (fs_spill oid md d b)) \<longleftrightarrow> fs_quiet b"
    by (simp add: fs_quiet_def fs_spill_frame)
  show "fs_writable (fst (fs_spill oid md d b)) \<longleftrightarrow> fs_writable b"
    by (simp add: fs_writable_def fs_spill_frame)
  show "url = url_for (path_for r oid)" if "fs_inv r b" "fs_spill oid md d b = (b', Inr url)"
    using fs_spill_outcome(2) [OF that(2)] that(1) by (simp add: fs_inv_def)
  show "fs_content b' = (fs_content b)(oid \<mapsto> \<lparr>restored_metadata = md, restored_data = d\<rparr>)"
    if "fs_inv r b" "rust_slice d" "fs_spill oid md d b = (b', Inr url)"
    by (rule fs_content_spilled [OF that(3,2)])
  show "fs_content b' = fs_content b" if "fs_inv r b" "fs_spill oid md d b = (b', Inl e)"
    by (rule fs_content_failed [OF that(2)])
  show "is_ok (snd (fs_spill oid md d b))" if "fs_inv r b" "fs_writable b" "length md < 2 ^ 32"
    using that by (simp add: fs_spill_def Let_def fs_writable_def u32_try_from_def fs_run_quiet is_ok_def)
  show "fs_restore (url_for (path_for r oid)) b = Inr x"
    if "fs_inv r b" "fs_quiet b" "fs_content b oid = Some x"
    using fs_restore_content [OF that(1,2), of oid] that(3) by simp
  show "\<exists>e. fs_restore (url_for (path_for r oid)) b = Inl e"
    if "fs_inv r b" "fs_quiet b" "fs_content b oid = None"
    using fs_restore_content [OF that(1,2), of oid] that(3) by simp
  show "fs_inv r (fst (fs_remove url b))" if "fs_inv r b"
    using that by (simp add: fs_inv_def fs_remove_frame)
  show "fs_quiet (fst (fs_remove url b)) \<longleftrightarrow> fs_quiet b"
    by (simp add: fs_quiet_def fs_remove_frame)
  show "q = Inr () \<and> fs_content b' = (fs_content b)(oid := None)"
    if "fs_inv r b" "fs_quiet b" "fs_remove (url_for (path_for r oid)) b = (b', q)"
    by (rule fs_remove_content [OF that])
  show "rust_slice (restored_metadata x) \<and> rust_slice (restored_data x)" if "fs_content b oid = Some x"
    using that read_spill_file_Inr
    by (fastforce simp: fs_content_def Let_def spillable_def rust_slice_def split: option.splits sum.splits)
qed

interpretation spill_file: strict_codec spill_file_of "read_spill_file NoFault url" spillable for url
proof
  show "read_spill_file NoFault url (spill_file_of ro @ rest) = Inr ro" if "spillable ro" for ro rest
    using that read_spill_file_encode [of "of_nat (length (restored_metadata ro))" "restored_metadata ro"
        "restored_data ro" url rest]
    by (simp add: spillable_def spill_file_of_def unat_of_nat)
  show "spillable ro \<and> (\<exists>rest. buf = spill_file_of ro @ rest)"
    if "read_spill_file NoFault url buf = Inr ro" for ro buf
    by (rule read_spill_file_Inr [OF that])
qed

text \<open>When a restore panics: the length field of the data exceeds \<open>isize::MAX\<close>.\<close>

lemma read_spill_file_panic:
  "read_spill_file NoFault url c = Inl SpillPanic \<longleftrightarrow>
     (\<exists>lb md db c3. c = lb @ md @ db @ c3 \<and> length lb = 4 \<and> length md = unat (u32_from_le_bytes lb)
        \<and> length db = 8 \<and> 2 ^ 63 \<le> unat (u64_from_le_bytes db))"
  (is "_ \<longleftrightarrow> ?R")
proof
  assume "read_spill_file NoFault url c = Inl SpillPanic"
  then obtain lb c1 md c2 db c3 where
    "read_exact NoFault 0 4 c = Inr (lb, c1)"
    "read_exact NoFault 1 (unat (u32_from_le_bytes lb)) c1 = Inr (md, c2)"
    "read_exact NoFault 2 8 c2 = Inr (db, c3)" "2 ^ 63 \<le> unat (u64_from_le_bytes db)"
    by (auto simp: read_spill_file_def Let_def corrupt_io_def split: sum.splits prod.splits if_splits)
  then show ?R
    by (auto simp: read_exact_Inr)
next
  assume ?R
  then obtain lb md db c3 where c: "c = lb @ md @ db @ c3" "length lb = 4"
    "length md = unat (u32_from_le_bytes lb)" "length db = 8" "2 ^ 63 \<le> unat (u64_from_le_bytes db)"
    by blast
  have "read_exact NoFault 0 4 c = Inr (lb, md @ db @ c3)"
    "read_exact NoFault 1 (unat (u32_from_le_bytes lb)) (md @ db @ c3) = Inr (md, db @ c3)"
    "read_exact NoFault 2 8 (db @ c3) = Inr (db, c3)"
    using c by (simp_all add: read_exact_Inr)
  with c(5) show "read_spill_file NoFault url c = Inl SpillPanic"
    by (simp add: read_spill_file_def)
qed

lemma read_spill_file_cases:
  "(\<exists>ro. read_spill_file NoFault url c = Inr ro)
   \<or> (\<exists>reason. read_spill_file NoFault url c = Inl (SpillCorrupt (as_str url) reason))
   \<or> read_spill_file NoFault url c = Inl SpillPanic"
  by (simp add: read_spill_file_def Let_def corrupt_io_def split: sum.split prod.split)

lemma no_panic_on_truncation:
  assumes "spillable ro"
  shows "read_spill_file NoFault url (take k (spill_file_of ro)) \<noteq> Inl SpillPanic"
proof
  let ?md = "restored_metadata ro" and ?d = "restored_data ro"
  assume "read_spill_file NoFault url (take k (spill_file_of ro)) = Inl SpillPanic"
  then obtain lb md db c3 where c: "take k (spill_file_of ro) = lb @ md @ db @ c3" "length lb = 4"
    "length md = unat (u32_from_le_bytes lb)" "length db = 8" "2 ^ 63 \<le> unat (u64_from_le_bytes db)"
    by (auto simp: read_spill_file_panic)
  then have "spill_file_of ro = lb @ md @ db @ c3 @ drop k (spill_file_of ro)"
    using append_take_drop_id [of k "spill_file_of ro"] by simp
  then obtain rest where eq: "u32_to_le_bytes (of_nat (length ?md)) @ ?md @ u64_to_le_bytes (of_nat (length ?d)) @ ?d
      = lb @ md @ db @ rest"
    by (auto simp: spill_file_of_def spill_encode_def)
  then have lb: "lb = u32_to_le_bytes (of_nat (length ?md))"
    and eq2: "?md @ u64_to_le_bytes (of_nat (length ?d)) @ ?d = md @ db @ rest"
    using c(2) by (auto simp: append_eq_append_conv)
  have "length ?md = length md"
    using assms c(3) by (simp add: lb spillable_def unat_of_nat)
  with eq2 c(4) have "db = u64_to_le_bytes (of_nat (length ?d))"
    by (auto simp: append_eq_append_conv)
  with c(5) assms show False
    by (simp add: spillable_def rust_slice_def unat_of_nat)
qed

section \<open>Runs of the manager\<close>

text \<open>
  A run interleaves the manager's operations with the environment, which decides whether the next
  writes fail and where.
\<close>

type_synonym fs_manager = "LocalFsBackend LocalObjectManager"

datatype MgrOp =
    OpStore ObjectId bytes bytes
  | OpRecover ObjectId
  | OpForget ObjectId
  | OpEnv IoFault

datatype MgrOut =
    OutStored "(RecoveryError, unit) result"
  | OutRecovered "(RecoveryError, RecoveredObject option) result"
  | OutForgot "(SpillError, unit) result"
  | OutEnv

definition set_fault :: "IoFault \<Rightarrow> fs_manager \<Rightarrow> fs_manager" where
  "set_fault f m = m\<lparr>backend := (backend m)\<lparr>fault := f\<rparr>\<rparr>"

fun mgr_step :: "MgrOp \<Rightarrow> fs_manager \<Rightarrow> fs_manager \<times> MgrOut" where
  "mgr_step (OpStore i md d) m = (case mgr_store fs_spill i md d m of (m', r) \<Rightarrow> (m', OutStored r))"
| "mgr_step (OpRecover i) m = (case mgr_recover fs_restore i m of (m', r) \<Rightarrow> (m', OutRecovered r))"
| "mgr_step (OpForget i) m =
     (case mgr_forget fs_remove (ObjectId_bytes i) m of (m', r) \<Rightarrow> (m', OutForgot r))"
| "mgr_step (OpEnv f) m = (set_fault f m, OutEnv)"

fun mgr_run :: "MgrOp list \<Rightarrow> fs_manager \<Rightarrow> MgrOut list" where
  "mgr_run [] m = []"
| "mgr_run (op # ops) m = (case mgr_step op m of (m', out) \<Rightarrow> out # mgr_run ops m')"

text \<open>The specification: a map from ids to objects, and whether writes go through.\<close>

fun spec_step ::
  "MgrOp \<Rightarrow> MgrOut \<Rightarrow> bool \<times> (ObjectId \<Rightarrow> RecoveredObject option) \<Rightarrow>
   bool \<times> (ObjectId \<Rightarrow> RecoveredObject option)" where
  "spec_step (OpStore i md d) (OutStored (Inr _)) (w, M) =
     (w, M(i \<mapsto> \<lparr>recovered_metadata = md, recovered_data = d\<rparr>))"
| "spec_step (OpForget i) out (w, M) = (w, M(i := None))"
| "spec_step (OpEnv f) out (w, M) = (f = NoFault, M)"
| "spec_step op out s = s"

fun spec_allows :: "MgrOp \<Rightarrow> MgrOut \<Rightarrow> bool \<times> (ObjectId \<Rightarrow> RecoveredObject option) \<Rightarrow> bool" where
  "spec_allows (OpStore i md d) (OutStored r) (w, M) \<longleftrightarrow>
     (if w \<and> length md < 2 ^ 32 then r = Inr () else True)"
| "spec_allows (OpRecover i) (OutRecovered r) (w, M) \<longleftrightarrow> r = Inr (M i)"
| "spec_allows (OpForget i) (OutForgot r) (w, M) \<longleftrightarrow> r = Inr ()"
| "spec_allows (OpEnv f) OutEnv s \<longleftrightarrow> True"
| "spec_allows op out s \<longleftrightarrow> False"

fun spec_run ::
  "MgrOp list \<Rightarrow> MgrOut list \<Rightarrow> bool \<times> (ObjectId \<Rightarrow> RecoveredObject option) \<Rightarrow> bool" where
  "spec_run [] [] s \<longleftrightarrow> True"
| "spec_run (op # ops) (out # outs) s \<longleftrightarrow>
     spec_allows op out s \<and> spec_run ops outs (spec_step op out s)"
| "spec_run _ _ s \<longleftrightarrow> False"

text \<open>Data is a Rust slice, and the environment breaks writes only.\<close>

fun write_faults_only :: "MgrOp \<Rightarrow> bool" where
  "write_faults_only (OpStore i md d) \<longleftrightarrow> rust_slice d"
| "write_faults_only (OpEnv f) \<longleftrightarrow> (case f of NoFault \<Rightarrow> True | WriteFault _ _ _ \<Rightarrow> True | _ \<Rightarrow> False)"
| "write_faults_only op \<longleftrightarrow> True"

definition mgr_tracked ::
  "('b \<Rightarrow> SpillObjectId \<Rightarrow> RestoredObject option) \<Rightarrow> 'b LocalObjectManager \<Rightarrow> bool" where
  "mgr_tracked content m \<longleftrightarrow>
     (\<forall>oid. hm_contains (directory m) oid \<longrightarrow> content (backend m) oid \<noteq> None)"

context spill_backend
begin

lemma mgr_spill_tracked:
  assumes "mgr_inv binv url_of m" and "mgr_tracked content m" and "rust_slice d"
  shows "mgr_tracked content (fst (mgr_spill spill oid md d m))"
proof -
  obtain b r where b: "spill oid md d (backend m) = (b, r)"
    by fastforce
  have "binv (backend m)"
    using assms(1) by (simp add: mgr_inv_def)
  then have "content b = content (backend m)" if "r = Inl e" for e
    using spill_failed b that by blast
  moreover have "content b = (content (backend m))(oid \<mapsto> \<lparr>restored_metadata = md, restored_data = d\<rparr>)"
    if "r = Inr url" for url
    using spill_ok [OF \<open>binv (backend m)\<close> assms(3)] b that by blast
  ultimately show ?thesis
    using assms(2) b by (cases r) (auto simp: mgr_spill_def mgr_tracked_def)
qed

lemma mgr_restore_tracked:
  assumes "mgr_inv binv url_of m" and "mgr_tracked content m" and "quiet (backend m)"
  shows "mgr_restore restore oid m =
    (m, Inr (if hm_contains (directory m) oid then content (backend m) oid else None))"
proof (cases "hm_contains (directory m) oid")
  case True
  then obtain x where "content (backend m) oid = Some x"
    using assms(2) by (auto simp: mgr_tracked_def)
  then show ?thesis
    using mgr_restore_some [OF assms(1,3) True] True by simp
next
  case False
  then show ?thesis
    by (simp add: mgr_restore_def spill_url_def hm_contains_def)
qed

lemma mgr_recover_tracked:
  assumes "mgr_inv binv url_of m" and "mgr_tracked content m" and "quiet (backend m)"
  shows "mgr_recover restore i m = (m, Inr (mgr_held content m i))"
  using mgr_restore_tracked [OF assms, of "ObjectId_bytes i"]
  by (auto simp: mgr_recover_def mgr_held_def to_recovered_def split: option.split)

lemma mgr_forget_tracked:
  assumes "mgr_inv binv url_of m" and "mgr_tracked content m" and "quiet (backend m)"
  shows "mgr_tracked content (fst (mgr_forget remove oid m))"
proof (cases "hm_get (directory m) oid")
  case None
  then show ?thesis
    using assms(2) by (simp add: mgr_forget_def hm_remove_id)
next
  case (Some url)
  then have url: "url = url_of oid" and "binv (backend m)"
    using assms(1) by (auto simp: mgr_inv_def)
  obtain b q where b: "remove url (backend m) = (b, q)"
    by fastforce
  then have "content b = (content (backend m))(oid := None)"
    using remove_ok [OF \<open>binv (backend m)\<close> assms(3)] url by auto
  then show ?thesis
    using Some b assms(2) by (auto simp: mgr_forget_def Let_def mgr_tracked_def)
qed

end

definition mgr_good :: "bytes \<Rightarrow> fs_manager \<Rightarrow> bool" where
  "mgr_good r m \<longleftrightarrow>
     mgr_inv (fs_inv r) (\<lambda>oid. url_for (path_for r oid)) m \<and> mgr_tracked fs_content m \<and>
     fs_quiet (backend m)"

definition mgr_spec :: "fs_manager \<Rightarrow> bool \<times> (ObjectId \<Rightarrow> RecoveredObject option)" where
  "mgr_spec m = (fs_writable (backend m), mgr_held fs_content m)"

lemma mgr_store_fault: "fault (backend (fst (mgr_store fs_spill i md d m))) = fault (backend m)"
  using fs_spill_frame(2) [of "ObjectId_bytes i" md d "backend m"]
  by (auto simp: mgr_store_def mgr_spill_def split: prod.split sum.split)

lemma mgr_forget_fault: "fault (backend (fst (mgr_forget fs_remove oid m))) = fault (backend m)"
  using fs_remove_frame(2)
  by (auto simp: mgr_forget_def Let_def split: option.split prod.split) (metis fst_conv)+

lemma mgr_step_store:
  assumes "mgr_good r m" and "rust_slice d" and "mgr_store fs_spill i md d m = (m', res)"
  shows "mgr_good r m' \<and> spec_allows (OpStore i md d) (OutStored res) (mgr_spec m) \<and>
    spec_step (OpStore i md d) (OutStored res) (mgr_spec m) = mgr_spec m'"
proof -
  have inv: "mgr_inv (fs_inv r) (\<lambda>oid. url_for (path_for r oid)) m" and tr: "mgr_tracked fs_content m"
    and q: "fs_quiet (backend m)"
    using assms(1) by (auto simp: mgr_good_def)
  have f: "fault (backend m') = fault (backend m)"
    using mgr_store_fault [of i md d m] assms(3) by simp
  have "mgr_tracked fs_content (fst (mgr_store fs_spill i md d m))"
    using localfs.mgr_spill_tracked [OF inv tr assms(2), of "ObjectId_bytes i" md]
    by (auto simp: mgr_store_def split: prod.split sum.split)
  then have "mgr_good r m'"
    using localfs.hook.store_inv [OF inv, of i md d] assms(3) q f
    by (simp add: mgr_good_def fs_quiet_def)
  moreover have "res = Inr ()" if "fs_writable (backend m)" "length md < 2 ^ 32"
    using localfs.hook.store_succeeds [OF inv that, of i d] assms(3)
    by (cases res) (auto simp: is_ok_def)
  moreover have "mgr_held fs_content m' =
      (case res of Inl e \<Rightarrow> mgr_held fs_content m
       | Inr _ \<Rightarrow> (mgr_held fs_content m)(i \<mapsto> \<lparr>recovered_metadata = md, recovered_data = d\<rparr>))"
    using localfs.hook.store_ok [OF inv assms(2)] localfs.hook.store_failed [OF inv] assms(3)
    by (cases res) auto
  ultimately show ?thesis
    using f by (cases res) (auto simp: mgr_spec_def fs_writable_def)
qed

lemma mgr_step_forget:
  assumes "mgr_good r m" and "mgr_forget fs_remove (ObjectId_bytes i) m = (m', res)"
  shows "mgr_good r m' \<and> spec_allows (OpForget i) (OutForgot res) (mgr_spec m) \<and>
    spec_step (OpForget i) (OutForgot res) (mgr_spec m) = mgr_spec m'"
proof -
  have inv: "mgr_inv (fs_inv r) (\<lambda>oid. url_for (path_for r oid)) m" and tr: "mgr_tracked fs_content m"
    and q: "fs_quiet (backend m)"
    using assms(1) by (auto simp: mgr_good_def)
  have f: "fault (backend m') = fault (backend m)"
    using mgr_forget_fault [of "ObjectId_bytes i" m] assms(2) by simp
  then have "mgr_good r m'"
    using localfs.mgr_forget_inv [OF inv, of "ObjectId_bytes i"]
      localfs.mgr_forget_tracked [OF inv tr q, of "ObjectId_bytes i"] assms(2) q
    by (simp add: mgr_good_def fs_quiet_def)
  then show ?thesis
    using localfs.mgr_forget_held [OF inv q assms(2)] f by (simp add: mgr_spec_def fs_writable_def)
qed

lemma mgr_step_refines:
  assumes "mgr_good r m" and "write_faults_only op" and "mgr_step op m = (m', out)"
  shows "mgr_good r m' \<and> spec_allows op out (mgr_spec m) \<and> spec_step op out (mgr_spec m) = mgr_spec m'"
proof (cases op)
  case (OpStore i md d)
  then show ?thesis
    using assms mgr_step_store [OF assms(1), of d i md] by (auto split: prod.splits)
next
  case (OpRecover i)
  have "mgr_recover fs_restore i m = (m, Inr (mgr_held fs_content m i))"
    using assms(1) localfs.mgr_recover_tracked [of r m i] by (simp add: mgr_good_def)
  then show ?thesis
    using assms OpRecover by (auto simp: mgr_spec_def)
next
  case (OpForget i)
  then show ?thesis
    using assms mgr_step_forget [OF assms(1), of i] by (auto split: prod.splits)
next
  case (OpEnv f)
  then have m': "m' = set_fault f m" "out = OutEnv"
    using assms(3) by auto
  have "fs_content ((backend m)\<lparr>fault := f\<rparr>) = fs_content (backend m)"
    by (simp add: fs_content_def fun_eq_iff)
  then show ?thesis
    using assms(1,2) OpEnv
    by (auto simp: m' set_fault_def mgr_good_def mgr_inv_def fs_inv_def mgr_tracked_def fs_quiet_def
        mgr_spec_def fs_writable_def mgr_held_def fun_eq_iff)
qed

lemma mgr_run_refines:
  "mgr_good r m \<Longrightarrow> list_all write_faults_only ops \<Longrightarrow> spec_run ops (mgr_run ops m) (mgr_spec m)"
proof (induction ops arbitrary: m)
  case (Cons op ops)
  obtain m' out where s: "mgr_step op m = (m', out)"
    by fastforce
  have "mgr_good r m'" "spec_allows op out (mgr_spec m)" "spec_step op out (mgr_spec m) = mgr_spec m'"
    using mgr_step_refines [OF Cons.prems(1) _ s] Cons.prems(2) by auto
  with Cons s show ?case by simp
qed simp

lemma mgr_good_new:
  "has_root (root b) \<Longrightarrow> fs_quiet b \<Longrightarrow> mgr_good (root b) (LocalObjectManager_new b)"
  by (simp add: mgr_good_def LocalObjectManager_new_def mgr_inv_def fs_inv_def mgr_tracked_def
      hm_contains_def)

lemma mgr_spec_new: "mgr_spec (LocalObjectManager_new b) = (fs_writable b, \<lambda>_. None)"
  by (simp add: mgr_spec_def LocalObjectManager_new_def mgr_held_def hm_contains_def fun_eq_iff)

section \<open>Properties\<close>

definition example_root :: bytes where
  "example_root = ascii ''/spill''"

definition example_backend :: LocalFsBackend where
  "example_backend = \<lparr>root = example_root, files = [], tmp_counter = 0, fault = NoFault\<rparr>"

definition example_manager :: fs_manager where
  "example_manager =
     fst (mgr_store fs_spill (ObjectId [7]) [1] [2, 3] (LocalObjectManager_new example_backend))"

lemma example_backend_good: "mgr_good example_root (LocalObjectManager_new example_backend)"
  using mgr_good_new [of example_backend]
  by (simp add: example_backend_def example_root_def ascii_def has_root_def fs_quiet_def)

lemma example_manager_spilled: "is_spilled [7] example_manager"
  by (simp add: example_manager_def example_backend_def mgr_store_def mgr_spill_def fs_spill_def Let_def
      u32_try_from_def fs_run_quiet is_spilled_def LocalObjectManager_new_def hm_contains_def)

lemma example_manager_good: "mgr_good (root (backend example_manager)) example_manager"
proof -
  have "rust_slice [2, 3]"
    by (simp add: rust_slice_def)
  then have good: "mgr_good example_root example_manager"
    using mgr_step_store [OF example_backend_good, of "[2, 3]" "ObjectId [7]" "[1]"]
    unfolding example_manager_def by (metis prod.collapse)
  then have "root (backend example_manager) = example_root"
    by (simp add: mgr_good_def mgr_inv_def fs_inv_def)
  with good show ?thesis by simp
qed

text \<open>C24. A manager over a directory is a map from ids to objects.  In every run from an empty
  directory in which writes may fail or be cut short at any step, a recovery returns the metadata and
  data of the last store that succeeded, or nothing after a \<open>forget\<close> or before any store; a store
  succeeds when writes go through and the metadata is shorter than \<open>2 ^ 32\<close> bytes.\<close>

theorem manager_refines_map:
  assumes "has_root (root b)" and "fault b = NoFault" and "list_all write_faults_only ops"
  shows "spec_run ops (mgr_run ops (LocalObjectManager_new b)) (True, \<lambda>_. None)"
  using mgr_run_refines [OF mgr_good_new [of b] assms(3)] assms(1,2)
  by (simp add: mgr_spec_new fs_quiet_def fs_writable_def)

theorem manager_refines_map_witness:
  "spec_run [OpStore (ObjectId [7]) [1] [2, 3], OpEnv (WriteFault 4 1 []), OpStore (ObjectId [7]) [8] [9],
      OpRecover (ObjectId [7])]
    (mgr_run [OpStore (ObjectId [7]) [1] [2, 3], OpEnv (WriteFault 4 1 []), OpStore (ObjectId [7]) [8] [9],
      OpRecover (ObjectId [7])] (LocalObjectManager_new example_backend)) (True, \<lambda>_. None)"
  by (rule manager_refines_map)
    (simp_all add: example_backend_def example_root_def ascii_def has_root_def rust_slice_def)

text \<open>C25. Spilling is atomic at every point where it can fail or the process can stop: whatever the
  fault, the file of every other id is untouched, and the file of the id itself holds either its old
  content (on an error) or the complete new encoding (on success).\<close>

theorem spill_is_atomic:
  "hm_get (files (fst (fs_spill oid md d b))) (path_for (root b) o') =
     (if is_ok (snd (fs_spill oid md d b)) \<and> o' = oid
      then Some (u32_to_le_bytes (of_nat (length md)) @ md @ u64_to_le_bytes (of_nat (length d)) @ d)
      else hm_get (files b) (path_for (root b) o'))"
  using fs_spill_outcome(1) [of oid md d b "fst (fs_spill oid md d b)" "snd (fs_spill oid md d b)" o']
  by (simp add: spill_encode_def)

text \<open>Reading a spill file that was cut short at any byte reports corruption; it neither returns
  an object nor panics.\<close>

lemma truncated_spill_file_is_corrupt:
  assumes "length md < 2 ^ 32" and "rust_slice d"
    and "k < length (spill_encode (of_nat (length md)) md d)"
  shows "\<exists>reason. read_spill_file NoFault url (take k (spill_encode (of_nat (length md)) md d))
    = Inl (SpillCorrupt (as_str url) reason)"
proof -
  let ?ro = "\<lparr>restored_metadata = md, restored_data = d\<rparr>"
  have ok: "spillable ?ro" and f: "spill_file_of ?ro = spill_encode (of_nat (length md)) md d"
    using assms(1,2) by (auto simp: spillable_def spill_file_of_def)
  then show ?thesis
    using spill_file.truncation_rejected [OF ok, of k url] no_panic_on_truncation [OF ok, of url k]
      read_spill_file_cases [of url "take k (spill_file_of ?ro)"] assms(3)
    by (auto simp: f)
qed

lemma truncated_spill_file_is_corrupt_witness:
  "\<exists>reason. read_spill_file NoFault (SpillUrl []) (take 13 (spill_encode (of_nat (length [5 :: byte])) [5] [6, 7]))
    = Inl (SpillCorrupt (as_str (SpillUrl [])) reason)"
  by (rule truncated_spill_file_is_corrupt) (simp_all add: rust_slice_def spill_encode_def)

text \<open>A spill file whose data length field exceeds \<open>isize::MAX\<close> makes the restore panic instead of
  reporting corruption, and nothing else does.\<close>

lemma restore_panics_on_huge_length:
  "read_spill_file NoFault url c = Inl SpillPanic \<longleftrightarrow>
     (\<exists>lb md db rest. c = lb @ md @ db @ rest \<and> length lb = 4 \<and>
        length md = unat (u32_from_le_bytes lb) \<and> length db = 8 \<and>
        2 ^ 63 \<le> unat (u64_from_le_bytes db))"
  by (rule read_spill_file_panic)

text \<open>A failing read of an intact spill file makes the manager drop the object: the entry is gone
  although the file still holds the object.  The same failure on opening the file keeps the entry.\<close>

lemma read_error_drops_object:
  assumes "mgr_good (root (backend m)) m" and "is_spilled oid m"
  shows "\<not> is_spilled oid (fst (mgr_restore fs_restore oid (set_fault (ReadFault 0 t) m)))
    \<and> fs_content (backend (fst (mgr_restore fs_restore oid (set_fault (ReadFault 0 t) m)))) oid \<noteq> None
    \<and> is_spilled oid (fst (mgr_restore fs_restore oid (set_fault (OpenFault t) m)))"
proof -
  let ?p = "path_for (root (backend m)) oid"
  have root: "has_root (root (backend m))" and dir: "hm_get (directory m) oid = Some (url_for ?p)"
    and cont: "fs_content (backend m) oid \<noteq> None"
    using assms by (auto simp: mgr_good_def mgr_inv_def fs_inv_def is_spilled_def hm_contains_def
        mgr_tracked_def)
  then obtain c where c: "hm_get (files (backend m)) ?p = Some c"
    by (auto simp: fs_content_def Let_def split: option.splits)
  have "fs_content ((backend m)\<lparr>fault := f\<rparr>) oid = fs_content (backend m) oid" for f
    by (simp add: fs_content_def)
  then show ?thesis
    using dir cont c parse_url_for [OF root, of oid]
    by (simp add: mgr_restore_def spill_url_def set_fault_def fs_restore_def is_spilled_def
        read_spill_file_def read_exact_def corrupt_io_def hm_contains_def)
qed

lemma read_error_drops_object_witness:
  "\<not> is_spilled [7] (fst (mgr_restore fs_restore [7] (set_fault (ReadFault 0 []) example_manager)))
    \<and> fs_content (backend (fst (mgr_restore fs_restore [7] (set_fault (ReadFault 0 []) example_manager)))) [7]
        \<noteq> None
    \<and> is_spilled [7] (fst (mgr_restore fs_restore [7] (set_fault (OpenFault []) example_manager)))"
  by (rule read_error_drops_object) (simp_all add: example_manager_good example_manager_spilled)

text \<open>The url check is by path component and does not resolve \<open>..\<close>: under any root \<open>r\<close>, a url that
  climbs out of the root with \<open>r/../x\<close> is accepted.\<close>

lemma parse_url_admits_parent_components:
  assumes "has_root r"
  shows "parse_url r (SpillUrl (ascii ''file://'' @ r @ ascii ''/../'' @ x)) = Inr (r @ ascii ''/../'' @ x)"
proof -
  have "has_root (r @ ascii ''/../'' @ x)"
    using assms by (cases r) (auto simp: has_root_def)
  moreover have "ascii ''/../'' @ x = 47 # [46, 46] @ 47 # x"
    by (simp add: ascii_def)
  ultimately have "components (r @ ascii ''/../'' @ x)
      = components r @ filter plain_component (split_on 47 ([46, 46] @ 47 # x))"
    using assms split_on_append [of 47 r "[46, 46] @ 47 # x"] by (simp add: components_def)
  with \<open>has_root (r @ _)\<close> assms show ?thesis
    by (simp add: parse_url_def starts_with_def)
qed

end
