(* ===== verification/F64.thy ===== *)
theory F64
imports Rayd_Prelude
begin

text \<open>
  The part of \<open>f64\<close> that the spill policy uses: comparison, \<open>clamp\<close>, conversion from and to \<open>u64\<close>, and
  multiplication, with rounding to nearest, ties to even, at 53 bits of precision.  A finite value is
  \<open>m * 2 ^ e\<close>.  The exponent is not bounded here: the values that occur lie between \<open>f64::MIN_POSITIVE\<close>
  and \<open>2 ^ 64\<close>, where no result is subnormal and none overflows.
\<close>

datatype f64 = F64_NaN | F64_Inf bool | F64 int int

fun bit_length :: "nat \<Rightarrow> nat" where
  "bit_length n = (if n = 0 then 0 else Suc (bit_length (n div 2)))"

declare bit_length.simps [simp del]

text \<open>The nearest value with a mantissa of 53 bits (or the power of two above).\<close>

definition round_53 :: "nat \<Rightarrow> int \<Rightarrow> nat \<times> int" where
  "round_53 m e =
     (let k = bit_length m - 53; q = m div 2 ^ k; r = m mod 2 ^ k; half = 2 ^ (k - 1)
      in if k = 0 then (m, e)
         else (if half < r \<or> (r = half \<and> odd q) then q + 1 else q, e + int k))"

definition f64_round :: "int \<Rightarrow> int \<Rightarrow> f64" where
  "f64_round m e = (case round_53 (nat \<bar>m\<bar>) e of (q, e') \<Rightarrow> F64 (sgn m * int q) e')"

definition u64_as_f64 :: "u64 \<Rightarrow> f64" where
  "u64_as_f64 w = f64_round (int (unat w)) 0"

fun f64_mul :: "f64 \<Rightarrow> f64 \<Rightarrow> f64" where
  "f64_mul (F64 m e) (F64 m' e') = f64_round (m * m') (e + e')"
| "f64_mul F64_NaN y = F64_NaN"
| "f64_mul x F64_NaN = F64_NaN"
| "f64_mul (F64_Inf p) (F64_Inf q) = F64_Inf (p = q)"
| "f64_mul (F64_Inf p) (F64 m e) = (if m = 0 then F64_NaN else F64_Inf (p = (0 < m)))"
| "f64_mul (F64 m e) (F64_Inf p) = (if m = 0 then F64_NaN else F64_Inf (p = (0 < m)))"

fun f64_lt :: "f64 \<Rightarrow> f64 \<Rightarrow> bool" where
  "f64_lt (F64 m e) (F64 m' e') =
     (let lo = min e e' in m * 2 ^ nat (e - lo) < m' * 2 ^ nat (e' - lo))"
| "f64_lt F64_NaN y = False"
| "f64_lt x F64_NaN = False"
| "f64_lt (F64_Inf p) (F64_Inf q) = (\<not> p \<and> q)"
| "f64_lt (F64_Inf p) (F64 m e) = (\<not> p)"
| "f64_lt (F64 m e) (F64_Inf p) = p"

definition f64_clamp :: "f64 \<Rightarrow> f64 \<Rightarrow> f64 \<Rightarrow> f64" where
  "f64_clamp x lo hi =
     (let y = (if f64_lt x lo then lo else x) in if f64_lt hi y then hi else y)"

text \<open>\<open>x as u64\<close>: truncation, saturating at the ends of the range; not-a-number gives 0.\<close>

fun f64_as_u64 :: "f64 \<Rightarrow> u64" where
  "f64_as_u64 F64_NaN = 0"
| "f64_as_u64 (F64_Inf p) = (if p then - 1 else 0)"
| "f64_as_u64 (F64 m e) =
     (let v = (if 0 \<le> e then nat m * 2 ^ nat e else nat m div 2 ^ nat (- e))
      in of_nat (min v (2 ^ 64 - 1)))"

definition f64_MIN_POSITIVE :: f64 where
  "f64_MIN_POSITIVE = F64 1 (- 1022)"

definition f64_one :: f64 where
  "f64_one = F64 1 0"

section \<open>Rounding\<close>

lemma bit_length_bound: "n < 2 ^ bit_length n"
proof (induction n rule: bit_length.induct)
  case (1 n)
  show ?case
  proof (cases "n = 0")
    case False
    with 1 have "n div 2 < 2 ^ bit_length (n div 2)" by simp
    then have "n < 2 * 2 ^ bit_length (n div 2)" by linarith
    with False show ?thesis by (subst bit_length.simps) simp
  qed (simp add: bit_length.simps)
qed

lemma bit_length_mono: "n < 2 ^ k \<Longrightarrow> bit_length n \<le> k"
proof (induction k arbitrary: n)
  case (Suc k)
  then have "n div 2 < 2 ^ k" by simp
  with Suc.IH show ?case by (subst bit_length.simps) simp
qed (simp add: bit_length.simps)

lemma bit_length_unique:
  assumes "2 ^ k \<le> n" and "n < 2 ^ Suc k"
  shows "bit_length n = Suc k"
proof -
  have "\<not> bit_length n \<le> k"
  proof
    assume "bit_length n \<le> k"
    then have "(2 :: nat) ^ bit_length n \<le> 2 ^ k" by simp
    with bit_length_bound [of n] assms(1) show False by linarith
  qed
  with bit_length_mono [OF assms(2)] show ?thesis by simp
qed

lemma round_53_small: "m < 2 ^ 53 \<Longrightarrow> round_53 m e = (m, e)"
  using bit_length_mono [of m 53] by (simp add: round_53_def Let_def)

lemma u64_as_f64_small: "unat w < 2 ^ 53 \<Longrightarrow> u64_as_f64 w = F64 (int (unat w)) 0"
  by (cases "w = 0") (simp_all add: u64_as_f64_def f64_round_def round_53_small)

lemma round_53_u64_max: "round_53 18446744073709551615 e = (9007199254740992, e + 11)"
  using bit_length_unique [of 63 18446744073709551615] by (simp add: round_53_def Let_def)

lemma round_53_power: "round_53 9007199254740992 e = (4503599627370496, e + 1)"
  using bit_length_unique [of 53 9007199254740992] by (simp add: round_53_def Let_def)

lemma round_53_above: "round_53 9007199254740995 e = (4503599627370498, e + 1)"
  using bit_length_unique [of 53 9007199254740995] by (simp add: round_53_def Let_def)

lemma clamp_keeps_NaN: "f64_clamp F64_NaN lo hi = F64_NaN"
  by (cases lo; cases hi) (simp_all add: f64_clamp_def)

end
