(* ===== verification/Core_Worker.thy ===== *)
theory Core_Worker
imports Memory_Store Ref_Counter Plasma_Client Spill F64
begin

text \<open>
  The per-process root, \<open>rayd-core/src/core_worker.rs\<close>.  The record has the fields of the struct; the
  plasma field holds the connection together with the server behind it.  The recovery hook is a trait
  object: its state is the type parameter \<open>'r\<close>, and the operations that call it take its two methods
  (type \<open>'r hook\<close>).  The free callback acts on the hook's state, as the callback that the runtime
  installs does; \<open>cw_freed\<close> records the ids it was called with.  \<open>cw_hex\<close> is the encoder of the \<open>hex\<close>
  crate, used in error texts.  \<open>CorePanic\<close> is not a value of the code: it stands for a panic of the hook.
\<close>

section \<open>Types\<close>

definition INLINE_THRESHOLD_BYTES :: nat where
  "INLINE_THRESHOLD_BYTES = 100 * 1024"

definition DEFAULT_SPILL_BUDGET_BYTES :: u64 where
  "DEFAULT_SPILL_BUDGET_BYTES = 1024 * 1024 * 1024"

definition DEFAULT_SPILL_THRESHOLD :: f64 where
  "DEFAULT_SPILL_THRESHOLD = F64 3 (- 2)"

record SpillPolicy =
  budget_bytes :: u64
  threshold :: f64

definition SpillPolicy_default :: SpillPolicy where
  "SpillPolicy_default = \<lparr>budget_bytes = DEFAULT_SPILL_BUDGET_BYTES, threshold = DEFAULT_SPILL_THRESHOLD\<rparr>"

datatype CoreError =
    CorePlasma PlasmaError
  | PlasmaUnavailable bytes
  | Recovery bytes bytes
  | CorePanic

record ResolvedObject =
  resolved_metadata :: Metadata
  resolved_data :: bytes
  resolved_nested_refs :: "ObjectRef list"

record 'r CoreWorker =
  cw_job_id :: JobId
  cw_worker_id :: WorkerId
  cw_address :: Address
  cw_store :: MemoryStore
  cw_plasma :: "conn option"
  cw_refs :: RefCounter
  cw_free_callback :: "(ObjectId \<Rightarrow> 'r \<Rightarrow> 'r) option"
  cw_freed :: "ObjectId list"
  cw_recoverer :: "'r option"
  cw_spill_policy :: SpillPolicy
  cw_inline_threshold :: nat
  cw_next_task_counter :: u64
  cw_hex :: "bytes \<Rightarrow> bytes"

record 'r hook =
  hook_recover :: "ObjectId \<Rightarrow> 'r \<Rightarrow> 'r \<times> (RecoveryError, RecoveredObject option) result"
  hook_store :: "ObjectId \<Rightarrow> bytes \<Rightarrow> bytes \<Rightarrow> 'r \<Rightarrow> 'r \<times> (RecoveryError, unit) result"

section \<open>Construction and configuration\<close>

definition CoreWorker_new ::
  "nat \<Rightarrow> (bytes \<Rightarrow> bytes) \<Rightarrow> JobId \<Rightarrow> WorkerId \<Rightarrow> Address \<Rightarrow> 'r CoreWorker" where
  "CoreWorker_new sz hex j wid addr =
     \<lparr>cw_job_id = j, cw_worker_id = wid, cw_address = addr, cw_store = MemoryStore_new sz,
      cw_plasma = None, cw_refs = RefCounter_new, cw_free_callback = None, cw_freed = [],
      cw_recoverer = None, cw_spill_policy = SpillPolicy_default,
      cw_inline_threshold = INLINE_THRESHOLD_BYTES, cw_next_task_counter = 0, cw_hex = hex\<rparr>"

definition set_free_callback :: "(ObjectId \<Rightarrow> 'r \<Rightarrow> 'r) \<Rightarrow> 'r CoreWorker \<Rightarrow> 'r CoreWorker" where
  "set_free_callback cb w = w\<lparr>cw_free_callback := Some cb\<rparr>"

definition set_recoverer :: "'r \<Rightarrow> 'r CoreWorker \<Rightarrow> 'r CoreWorker" where
  "set_recoverer r w = w\<lparr>cw_recoverer := Some r\<rparr>"

definition set_spill_policy :: "u64 \<Rightarrow> f64 \<Rightarrow> 'r CoreWorker \<Rightarrow> 'r CoreWorker" where
  "set_spill_policy budget t w =
     (let clamped = f64_clamp t f64_MIN_POSITIVE f64_one
      in w\<lparr>cw_spill_policy := \<lparr>budget_bytes = budget, threshold = clamped\<rparr>\<rparr>)"

text \<open>The random ids are arguments.\<close>

definition new_local :: "nat \<Rightarrow> (bytes \<Rightarrow> bytes) \<Rightarrow> WorkerId \<Rightarrow> JobId \<Rightarrow> 'r CoreWorker" where
  "new_local sz hex wid j = CoreWorker_new sz hex j wid (Address_new (ascii ''localhost'') 0 wid)"

definition new_local_with_plasma ::
  "nat \<Rightarrow> (bytes \<Rightarrow> bytes) \<Rightarrow> WorkerId \<Rightarrow> JobId \<Rightarrow> (PlasmaError, conn) result \<Rightarrow>
   (PlasmaError, 'r CoreWorker) result" where
  "new_local_with_plasma sz hex wid j connect =
     (case connect of
        Inl e \<Rightarrow> Inl e
      | Inr client \<Rightarrow> Inr ((new_local sz hex wid j)\<lparr>cw_plasma := Some client\<rparr>))"

definition has_plasma :: "'r CoreWorker \<Rightarrow> bool" where
  "has_plasma w \<longleftrightarrow> cw_plasma w \<noteq> None"

definition next_task_id :: "'r CoreWorker \<Rightarrow> 'r CoreWorker \<times> TaskId" where
  "next_task_id w =
     (let counter = cw_next_task_counter w + 1
      in (w\<lparr>cw_next_task_counter := cw_next_task_counter w + 1\<rparr>,
          TaskId (JobId_bytes (cw_job_id w) @ u64_to_le_bytes counter)))"

definition address_blob :: "'r CoreWorker \<Rightarrow> AddressBlob" where
  "address_blob w =
     \<lparr>blob_host = host (cw_address w), blob_port = port (cw_address w),
      blob_worker_id = WorkerId_bytes (worker_id (cw_address w))\<rparr>"

definition obj_hex :: "'r CoreWorker \<Rightarrow> ObjectId \<Rightarrow> bytes" where
  "obj_hex w i = cw_hex w (ObjectId_bytes i)"

section \<open>Spilling\<close>

definition is_not_found :: "PlasmaError \<Rightarrow> bool" where
  "is_not_found e \<longleftrightarrow> (case e of PlasmaServerError NotFound _ \<Rightarrow> True | _ \<Rightarrow> False)"

definition is_already_exists :: "PlasmaError \<Rightarrow> bool" where
  "is_already_exists e \<longleftrightarrow> (case e of PlasmaServerError AlreadyExists _ \<Rightarrow> True | _ \<Rightarrow> False)"

text \<open>Deleting through the client if there is one; a missing object is fine.\<close>

definition plasma_delete :: "ObjectId \<Rightarrow> 'r CoreWorker \<Rightarrow> 'r CoreWorker \<times> (CoreError, unit) result" where
  "plasma_delete i w =
     (case cw_plasma w of
        None \<Rightarrow> (w, Inr ())
      | Some st \<Rightarrow>
          (case client_delete direct_exchange (ObjectId_bytes i) st of
             (st', Inr _) \<Rightarrow> (w\<lparr>cw_plasma := Some st'\<rparr>, Inr ())
           | (st', Inl e) \<Rightarrow>
               (w\<lparr>cw_plasma := Some st'\<rparr>,
                if is_not_found e then Inr () else Inl (CorePlasma e))))"

definition recovery_display :: "RecoveryError \<Rightarrow> bytes" where
  "recovery_display e = (case e of RecoveryOther t \<Rightarrow> ascii ''recoverer: '' @ t | RecoveryPanic \<Rightarrow> [])"

definition spill_to_recoverer ::
  "'r hook \<Rightarrow> ObjectId \<Rightarrow> 'r CoreWorker \<Rightarrow> 'r CoreWorker \<times> (CoreError, bool) result" where
  "spill_to_recoverer h i w =
     (case cw_recoverer w of
        None \<Rightarrow> (w, Inl (Recovery (obj_hex w i) (ascii ''no recoverer registered'')))
      | Some r \<Rightarrow>
          (case cw_plasma w of
             None \<Rightarrow> (w, Inl (PlasmaUnavailable (obj_hex w i)))
           | Some st \<Rightarrow>
               (case client_get_bytes direct_exchange (ObjectId_bytes i) st of
                  (st1, Inl e) \<Rightarrow>
                    (w\<lparr>cw_plasma := Some st1\<rparr>,
                     if is_not_found e then Inr False else Inl (CorePlasma e))
                | (st1, Inr (md, d)) \<Rightarrow>
                    (let w1 = w\<lparr>cw_plasma := Some st1\<rparr>
                     in case hook_store h i md d r of
                          (r1, Inl RecoveryPanic) \<Rightarrow> (w1\<lparr>cw_recoverer := Some r1\<rparr>, Inl CorePanic)
                        | (r1, Inl e) \<Rightarrow>
                            (w1\<lparr>cw_recoverer := Some r1\<rparr>,
                             Inl (Recovery (obj_hex w i) (recovery_display e)))
                        | (r1, Inr _) \<Rightarrow>
                            (case plasma_delete i (w1\<lparr>cw_recoverer := Some r1\<rparr>) of
                               (w2, Inl e) \<Rightarrow> (w2, Inl e)
                             | (w2, Inr _) \<Rightarrow> (w2, Inr True))))))"

text \<open>The loop of \<open>maybe_spill_for_pressure\<close>, over the entries of the index.\<close>

fun spill_loop ::
  "'r hook \<Rightarrow> u64 \<Rightarrow> (ObjectId \<times> PlasmaIndex) list \<Rightarrow> u64 \<Rightarrow> nat \<Rightarrow> 'r CoreWorker \<Rightarrow> 'r CoreWorker \<times> nat" where
  "spill_loop h limit [] current spilled w = (w, spilled)"
| "spill_loop h limit ((i, idx) # es) current spilled w =
     (if current \<le> limit then (w, spilled)
      else (case spill_to_recoverer h i w of
              (w1, Inr True) \<Rightarrow>
                spill_loop h limit es (saturating_sub current (idx_data_size idx)) (spilled + 1) w1
            | (w1, Inr False) \<Rightarrow>
                spill_loop h limit es (saturating_sub current (idx_data_size idx)) spilled w1
            | (w1, Inl _) \<Rightarrow> spill_loop h limit es current spilled w1))"

definition threshold_bytes :: "SpillPolicy \<Rightarrow> u64" where
  "threshold_bytes p = f64_as_u64 (f64_mul (u64_as_f64 (budget_bytes p)) (threshold p))"

definition maybe_spill_for_pressure :: "'r hook \<Rightarrow> 'r CoreWorker \<Rightarrow> 'r CoreWorker \<times> nat" where
  "maybe_spill_for_pressure h w =
     (let limit = threshold_bytes (cw_spill_policy w)
      in if limit = - 1 then (w, 0)
         else (let es = plasma_entries (cw_store w);
                   current = sum_list (map (\<lambda>(i, idx). idx_data_size idx) es)
               in if current \<le> limit then (w, 0) else spill_loop h limit es current 0 w))"

section \<open>Sealing\<close>

definition seal_value_to_plasma ::
  "'r hook \<Rightarrow> ObjectId \<Rightarrow> Metadata \<Rightarrow> bytes \<Rightarrow> 'r CoreWorker \<Rightarrow> 'r CoreWorker \<times> (CoreError, u64) result" where
  "seal_value_to_plasma h i md d w =
     (case cw_plasma w of
        None \<Rightarrow> (w, Inl (PlasmaUnavailable (obj_hex w i)))
      | Some st \<Rightarrow>
          (case client_create_and_seal direct_exchange (ObjectId_bytes i) (encode md) d (address_blob w) st of
             (st', Inl e) \<Rightarrow> (w\<lparr>cw_plasma := Some st'\<rparr>, Inl (CorePlasma e))
           | (st', Inr _) \<Rightarrow>
               (let data_size = of_nat (length d) :: u64;
                    w1 = w\<lparr>cw_plasma := Some st',
                           cw_store := put_plasma i \<lparr>idx_metadata = md, idx_data_size = data_size\<rparr> (cw_store w),
                           cw_refs := add_owned i (cw_refs w)\<rparr>
                in case maybe_spill_for_pressure h w1 of (w2, _) \<Rightarrow> (w2, Inr data_size))))"

definition seal_inline :: "ObjectId \<Rightarrow> Metadata \<Rightarrow> bytes \<Rightarrow> 'r CoreWorker \<Rightarrow> 'r CoreWorker" where
  "seal_inline i md d w =
     w\<lparr>cw_store := put_inline i (RayObject_new md d) (cw_store w), cw_refs := add_owned i (cw_refs w)\<rparr>"

definition seal_value ::
  "ObjectId \<Rightarrow> Metadata \<Rightarrow> bytes \<Rightarrow> 'r CoreWorker \<Rightarrow> 'r CoreWorker \<times> (CoreError, unit) result" where
  "seal_value i md d w =
     (let plasma_eligible = cw_inline_threshold w < length d
      in case (plasma_eligible, cw_plasma w) of
           (True, Some st) \<Rightarrow>
             (case client_create_and_seal direct_exchange (ObjectId_bytes i) (encode md) d (address_blob w) st of
                (st', Inl e) \<Rightarrow> (w\<lparr>cw_plasma := Some st'\<rparr>, Inl (CorePlasma e))
              | (st', Inr _) \<Rightarrow>
                  (w\<lparr>cw_plasma := Some st',
                     cw_store := put_plasma i \<lparr>idx_metadata = md, idx_data_size = of_nat (length d)\<rparr>
                                   (cw_store w),
                     cw_refs := add_owned i (cw_refs w)\<rparr>, Inr ()))
         | _ \<Rightarrow> (seal_inline i md d w, Inr ()))"

section \<open>Reference counting and freeing\<close>

definition inc_local_ref :: "ObjectId \<Rightarrow> 'r CoreWorker \<Rightarrow> 'r CoreWorker \<times> u64" where
  "inc_local_ref i w = (case inc_local i (cw_refs w) of (c, n) \<Rightarrow> (w\<lparr>cw_refs := c\<rparr>, n))"

definition evict_local :: "ObjectId \<Rightarrow> 'r CoreWorker \<Rightarrow> 'r CoreWorker \<times> (CoreError, unit) result" where
  "evict_local i w = plasma_delete i (w\<lparr>cw_store := delete [i] (cw_store w)\<rparr>)"

definition free_unpinned :: "ObjectId \<Rightarrow> 'r CoreWorker \<Rightarrow> 'r CoreWorker \<times> (CoreError, unit) result" where
  "free_unpinned i w =
     (case plasma_delete i (w\<lparr>cw_store := delete [i] (cw_store w)\<rparr>) of
        (w1, Inl e) \<Rightarrow> (w1, Inl e)
      | (w1, Inr _) \<Rightarrow>
          (case cw_free_callback w1 of
             None \<Rightarrow> (w1, Inr ())
           | Some cb \<Rightarrow>
               (w1\<lparr>cw_freed := cw_freed w1 @ [i], cw_recoverer := map_option (cb i) (cw_recoverer w1)\<rparr>,
                Inr ())))"

definition dec_local_ref :: "ObjectId \<Rightarrow> 'r CoreWorker \<Rightarrow> 'r CoreWorker \<times> (CoreError, unit) result" where
  "dec_local_ref i w =
     (case dec_local i (cw_refs w) of
        (c, False) \<Rightarrow> (w\<lparr>cw_refs := c\<rparr>, Inr ())
      | (c, True) \<Rightarrow> free_unpinned i (w\<lparr>cw_refs := c\<rparr>))"

definition add_borrower_pin :: "ObjectId \<Rightarrow> WorkerId \<Rightarrow> 'r CoreWorker \<Rightarrow> 'r CoreWorker" where
  "add_borrower_pin i b w = w\<lparr>cw_refs := fst (add_borrower i b (cw_refs w))\<rparr>"

definition remove_borrower_pin ::
  "ObjectId \<Rightarrow> WorkerId \<Rightarrow> 'r CoreWorker \<Rightarrow> 'r CoreWorker \<times> (CoreError, unit) result" where
  "remove_borrower_pin i b w =
     (case remove_borrower i b (cw_refs w) of
        (c, False) \<Rightarrow> (w\<lparr>cw_refs := c\<rparr>, Inr ())
      | (c, True) \<Rightarrow> free_unpinned i (w\<lparr>cw_refs := c\<rparr>))"

text \<open>Failed evictions are logged and skipped.\<close>

definition free_all_local :: "'r CoreWorker \<Rightarrow> 'r CoreWorker" where
  "free_all_local w =
     (case drain_ids (cw_refs w) of
        (c, ids) \<Rightarrow> fold (\<lambda>i w. fst (evict_local i w)) ids (w\<lparr>cw_refs := c\<rparr>))"

section \<open>Resolving\<close>

definition recover_and_reseal ::
  "'r hook \<Rightarrow> ObjectId \<Rightarrow> PlasmaIndex \<Rightarrow> 'r CoreWorker \<Rightarrow> 'r CoreWorker \<times> (CoreError, ResolvedObject) result" where
  "recover_and_reseal h i idx w =
     (case cw_recoverer w of
        None \<Rightarrow>
          (w, Inl (CorePlasma (PlasmaServerError NotFound
             (ascii ''object '' @ obj_hex w i @ ascii '' not in plasma and no recoverer registered''))))
      | Some r \<Rightarrow>
          (case hook_recover h i r of
             (r1, Inl RecoveryPanic) \<Rightarrow> (w\<lparr>cw_recoverer := Some r1\<rparr>, Inl CorePanic)
           | (r1, Inl (RecoveryOther msg)) \<Rightarrow>
               (w\<lparr>cw_recoverer := Some r1\<rparr>, Inl (Recovery (obj_hex w i) msg))
           | (r1, Inr None) \<Rightarrow>
               (w\<lparr>cw_recoverer := Some r1\<rparr>, Inl (CorePlasma (PlasmaServerError NotFound
                  (ascii ''object '' @ obj_hex w i @ ascii '' not in plasma and not held by any recoverer''))))
           | (r1, Inr (Some bytes)) \<Rightarrow>
               (let w1 = w\<lparr>cw_recoverer := Some r1\<rparr>;
                    resolved = \<lparr>resolved_metadata = idx_metadata idx, resolved_data = recovered_data bytes,
                                resolved_nested_refs = []\<rparr>
                in case cw_plasma w1 of
                     None \<Rightarrow> (w1, Inl (PlasmaUnavailable (obj_hex w i)))
                   | Some st \<Rightarrow>
                       (case client_create_and_seal direct_exchange (ObjectId_bytes i)
                               (recovered_metadata bytes) (recovered_data bytes) (address_blob w1) st of
                          (st', Inr _) \<Rightarrow> (w1\<lparr>cw_plasma := Some st'\<rparr>, Inr resolved)
                        | (st', Inl e) \<Rightarrow>
                            (w1\<lparr>cw_plasma := Some st'\<rparr>,
                             if is_already_exists e then Inr resolved else Inl (CorePlasma e))))))"

definition resolve_entry ::
  "'r hook \<Rightarrow> ObjectId \<Rightarrow> StoredEntry \<Rightarrow> 'r CoreWorker \<Rightarrow> 'r CoreWorker \<times> (CoreError, ResolvedObject) result" where
  "resolve_entry h i entry w =
     (case entry of
        Inline obj \<Rightarrow>
          (w, Inr \<lparr>resolved_metadata = obj_metadata obj, resolved_data = obj_data obj,
                   resolved_nested_refs = obj_nested_refs obj\<rparr>)
      | Plasma idx \<Rightarrow>
          (case cw_plasma w of
             None \<Rightarrow> (w, Inl (PlasmaUnavailable (obj_hex w i)))
           | Some st \<Rightarrow>
               (case client_get_bytes direct_exchange (ObjectId_bytes i) st of
                  (st1, Inr (md, d)) \<Rightarrow>
                    (w\<lparr>cw_plasma := Some st1\<rparr>,
                     Inr \<lparr>resolved_metadata = idx_metadata idx, resolved_data = d, resolved_nested_refs = []\<rparr>)
                | (st1, Inl e) \<Rightarrow>
                    if is_not_found e then recover_and_reseal h i idx (w\<lparr>cw_plasma := Some st1\<rparr>)
                    else (w\<lparr>cw_plasma := Some st1\<rparr>, Inl (CorePlasma e)))))"

definition resolve_now ::
  "'r hook \<Rightarrow> ObjectId \<Rightarrow> 'r CoreWorker \<Rightarrow> 'r CoreWorker \<times> (CoreError, ResolvedObject option) result" where
  "resolve_now h i w =
     (case get_entry i (cw_store w) of
        None \<Rightarrow> (w, Inr None)
      | Some entry \<Rightarrow> (case resolve_entry h i entry w of (w', r) \<Rightarrow> (w', map_ok Some r)))"

text \<open>The blocking variant: \<open>None\<close> is a call that is still parked after all observations.\<close>

definition resolve_blocking ::
  "'r hook \<Rightarrow> ObjectId \<Rightarrow> nat \<Rightarrow> nat option \<Rightarrow> observation list \<Rightarrow> 'r CoreWorker \<Rightarrow>
   ('r CoreWorker \<times> (CoreError, ResolvedObject option) result) option" where
  "resolve_blocking h i start timeout obs w =
     (case get_entry_blocking i start timeout obs of
        None \<Rightarrow> None
      | Some None \<Rightarrow> Some (w, Inr None)
      | Some (Some entry) \<Rightarrow> Some (case resolve_entry h i entry w of (w', r) \<Rightarrow> (w', map_ok Some r)))"

section \<open>What a worker can still produce\<close>

text \<open>
  The bytes of an object that left the worker's own index to plasma: those of the plasma copy, or,
  when plasma has none, those that the recovery hook holds.
\<close>

definition spilled_bytes ::
  "('r \<Rightarrow> ObjectId \<Rightarrow> RecoveredObject option) \<Rightarrow> 'r option \<Rightarrow> ObjectId \<Rightarrow> (bytes \<times> bytes) option" where
  "spilled_bytes held r i =
     (case r of
        None \<Rightarrow> None
      | Some r \<Rightarrow> map_option (\<lambda>x. (recovered_metadata x, recovered_data x)) (held r i))"

definition available ::
  "('r \<Rightarrow> ObjectId \<Rightarrow> RecoveredObject option) \<Rightarrow> 'r CoreWorker \<Rightarrow> ObjectId \<Rightarrow> (bytes \<times> bytes) option" where
  "available held w i =
     (case cw_plasma w of
        None \<Rightarrow> None
      | Some st \<Rightarrow>
          (case server_view (snd st) (ObjectId_bytes i) of
             Sealed m d \<Rightarrow> Some (m, d)
           | Unsealed \<Rightarrow> None
           | Absent \<Rightarrow> spilled_bytes held (cw_recoverer w) i))"

text \<open>The value of an id: what a resolve is to return.\<close>

definition value_of ::
  "('r \<Rightarrow> ObjectId \<Rightarrow> RecoveredObject option) \<Rightarrow> 'r CoreWorker \<Rightarrow> ObjectId \<Rightarrow> (Metadata \<times> bytes) option" where
  "value_of held w i =
     (case get_entry i (cw_store w) of
        None \<Rightarrow> None
      | Some (Inline obj) \<Rightarrow> Some (obj_metadata obj, obj_data obj)
      | Some (Plasma idx) \<Rightarrow> map_option (\<lambda>(m, d). (idx_metadata idx, d)) (available held w i))"

definition cw_ok :: "('r \<Rightarrow> bool) \<Rightarrow> ('r \<Rightarrow> bool) \<Rightarrow> 'r CoreWorker \<Rightarrow> bool" where
  "cw_ok rinv rquiet w \<longleftrightarrow>
     (\<forall>st. cw_plasma w = Some st \<longrightarrow> conn_inv st) \<and>
     (\<forall>r. cw_recoverer w = Some r \<longrightarrow> rinv r \<and> rquiet r)"

text \<open>Two workers that differ in plasma and in the hook only.\<close>

definition same_index :: "'r CoreWorker \<Rightarrow> 'r CoreWorker \<Rightarrow> bool" where
  "same_index w w' \<longleftrightarrow> w' = w\<lparr>cw_plasma := cw_plasma w', cw_recoverer := cw_recoverer w'\<rparr>"

lemma same_index_refl [simp]: "same_index w w"
  by (simp add: same_index_def)

lemma same_index_trans: "same_index w w' \<Longrightarrow> same_index w' w'' \<Longrightarrow> same_index w w''"
  unfolding same_index_def by (cases w; cases w'; cases w'') simp

lemma same_index_updates [simp]:
  "same_index w (w\<lparr>cw_plasma := p\<rparr>)" "same_index w (w\<lparr>cw_recoverer := r\<rparr>)"
  "same_index w (w\<lparr>cw_plasma := p, cw_recoverer := r\<rparr>)"
  "same_index w (w\<lparr>cw_recoverer := r, cw_plasma := p\<rparr>)"
  by (simp_all add: same_index_def)

lemma same_indexD:
  assumes "same_index w w'"
  shows "cw_store w' = cw_store w" and "cw_refs w' = cw_refs w" and "cw_freed w' = cw_freed w"
    and "cw_free_callback w' = cw_free_callback w" and "cw_spill_policy w' = cw_spill_policy w"
    and "cw_inline_threshold w' = cw_inline_threshold w"
    and "cw_next_task_counter w' = cw_next_task_counter w" and "cw_job_id w' = cw_job_id w"
  using arg_cong [OF assms [unfolded same_index_def], of cw_store]
    arg_cong [OF assms [unfolded same_index_def], of cw_refs]
    arg_cong [OF assms [unfolded same_index_def], of cw_freed]
    arg_cong [OF assms [unfolded same_index_def], of cw_free_callback]
    arg_cong [OF assms [unfolded same_index_def], of cw_spill_policy]
    arg_cong [OF assms [unfolded same_index_def], of cw_inline_threshold]
    arg_cong [OF assms [unfolded same_index_def], of cw_next_task_counter]
    arg_cong [OF assms [unfolded same_index_def], of cw_job_id]
  by simp_all

lemma value_of_same_index:
  "same_index w w' \<Longrightarrow> available held w' = available held w \<Longrightarrow> value_of held w' = value_of held w"
  by (simp add: value_of_def fun_eq_iff same_indexD split: option.split StoredEntry.split)

lemma available_refs [simp]: "available held (w\<lparr>cw_refs := c\<rparr>) = available held w"
  by (simp add: available_def fun_eq_iff split: option.split slot_state.split)

lemma value_of_refs [simp]: "value_of held (w\<lparr>cw_refs := c\<rparr>) = value_of held w"
  by (simp add: value_of_def fun_eq_iff split: option.split StoredEntry.split)

lemma cw_ok_refs [simp]: "cw_ok rinv rquiet (w\<lparr>cw_refs := c\<rparr>) \<longleftrightarrow> cw_ok rinv rquiet w"
  by (simp add: cw_ok_def)

lemma sealed_rust_slice:
  assumes "conn_inv st" and "server_view (snd st) oid = Sealed m d"
  shows "rust_slice m" and "rust_slice d"
proof -
  have cap: "length (mmap (arena (snd st))) < 2 ^ 63"
    using assms(1) by (simp add: conn_inv_def server_inv_def arena_inv_def)
  have "length x \<le> length mem" if "byte_slice mem off n = Some x" for mem off n x
    using that by (auto simp: byte_slice_def split: if_splits)
  then have "length m \<le> length (mmap (arena (snd st)))" "length d \<le> length (mmap (arena (snd st)))"
    using assms(2)
    by (auto simp: server_view_def entry_bytes_def split: option.splits if_splits)
  with cap show "rust_slice m" "rust_slice d"
    by (simp_all add: rust_slice_def)
qed

lemma metadata_rust_slice: "rust_slice (encode md)"
  by (cases md) (simp_all add: rust_slice_def Let_def)

text \<open>Deleting through the worker.\<close>

lemma plasma_delete_result:
  assumes "cw_ok rinv rquiet w" and "plasma_delete i w = (w', r)"
  shows "r = Inr ()" and "cw_ok rinv rquiet w'" and "same_index w w'"
    and "cw_recoverer w' = cw_recoverer w"
    and "map_option (\<lambda>st. server_view (snd st)) (cw_plasma w') =
      map_option (\<lambda>st. (server_view (snd st))(ObjectId_bytes i := Absent)) (cw_plasma w)"
proof -
  have "r = Inr () \<and> cw_ok rinv rquiet w' \<and> same_index w w' \<and> cw_recoverer w' = cw_recoverer w
    \<and> map_option (\<lambda>st. server_view (snd st)) (cw_plasma w') =
      map_option (\<lambda>st. (server_view (snd st))(ObjectId_bytes i := Absent)) (cw_plasma w)"
  proof (cases "cw_plasma w")
    case None
    then show ?thesis using assms by (auto simp: plasma_delete_def)
  next
    case (Some st)
    then have "conn_inv st" using assms(1) by (simp add: cw_ok_def)
    then obtain st' where "client_delete direct_exchange (ObjectId_bytes i) st = (st', Inr ())"
      "conn_inv st'" "server_view (snd st') = (server_view (snd st))(ObjectId_bytes i := Absent)"
      using plasma.delete_view by blast
    then show ?thesis using Some assms by (cases st') (auto simp: plasma_delete_def cw_ok_def)
  qed
  then show "r = Inr ()" "cw_ok rinv rquiet w'" "same_index w w'" "cw_recoverer w' = cw_recoverer w"
    "map_option (\<lambda>st. server_view (snd st)) (cw_plasma w') =
      map_option (\<lambda>st. (server_view (snd st))(ObjectId_bytes i := Absent)) (cw_plasma w)"
    by blast+
qed

lemma available_deleted:
  assumes "map_option (\<lambda>st. server_view (snd st)) (cw_plasma w') =
      map_option (\<lambda>st. (server_view (snd st))(ObjectId_bytes i := Absent)) (cw_plasma w)"
    and "cw_recoverer w' = cw_recoverer w"
  shows "available held w' j =
    (if j = i then (if cw_plasma w = None then None else spilled_bytes held (cw_recoverer w) i)
     else available held w j)"
  using assms
  by (cases "cw_plasma w"; cases "cw_plasma w'")
    (auto simp: available_def ObjectId_bytes_eq_iff split: slot_state.split)

lemma is_not_found_simps [simp]:
  "is_not_found (PlasmaServerError k msg) \<longleftrightarrow> k = NotFound"
  "is_already_exists (PlasmaServerError k msg) \<longleftrightarrow> k = AlreadyExists"
  by (auto simp: is_not_found_def is_already_exists_def split: ServerErrorKind.split)

text \<open>Reading through the worker.\<close>

lemma get_bytes_cases:
  assumes "conn_inv st"
  obtains (sealed) st' m d where "client_get_bytes direct_exchange oid st = (st', Inr (m, d))"
      "conn_inv st'" "server_view (snd st') = server_view (snd st)" "server_view (snd st) oid = Sealed m d"
  | (absent) st' msg where
      "client_get_bytes direct_exchange oid st = (st', Inl (PlasmaServerError NotFound msg))"
      "conn_inv st'" "server_view (snd st') = server_view (snd st)" "server_view (snd st) oid = Absent"
  | (unsealed) st' msg where
      "client_get_bytes direct_exchange oid st = (st', Inl (PlasmaServerError NotSealed msg))"
      "conn_inv st'" "server_view (snd st') = server_view (snd st)" "server_view (snd st) oid = Unsealed"
proof (cases "server_view (snd st) oid")
  case Absent
  then show thesis using plasma.get_absent [OF assms Absent] absent by blast
next
  case Unsealed
  then show thesis using plasma.get_unsealed [OF assms Unsealed] unsealed by blast
next
  case (Sealed m d)
  then show thesis using plasma.get_sealed [OF assms Sealed] sealed by blast
qed

lemma create_cases:
  assumes "conn_inv st" and "rust_slice m" and "rust_slice d"
  obtains (ok) st' where "client_create_and_seal direct_exchange oid m d ow st = (st', Inr ())"
      "conn_inv st'" "server_view (snd st) oid = Absent"
      "server_view (snd st') = (server_view (snd st))(oid := Sealed m d)"
  | (exists) st' msg where
      "client_create_and_seal direct_exchange oid m d ow st = (st', Inl (PlasmaServerError AlreadyExists msg))"
      "conn_inv st'" "server_view (snd st) oid \<noteq> Absent" "server_view (snd st') = server_view (snd st)"
  | (oom) st' msg where
      "client_create_and_seal direct_exchange oid m d ow st = (st', Inl (PlasmaServerError OutOfMemory msg))"
      "conn_inv st'" "server_view (snd st) oid = Absent" "server_view (snd st') = server_view (snd st)"
proof -
  have inv: "conn_inv (fst (client_create_and_seal direct_exchange oid m d ow st))"
    by (rule plasma.create_inv [OF assms])
  show thesis
  proof (cases "server_view (snd st) oid = Absent")
    case True
    with plasma.create_absent [OF assms(1) True assms(2,3), of ow] inv show thesis
      by (metis fst_conv ok oom)
  next
    case False
    with plasma.create_present [OF assms(1) False, of m d ow] inv show thesis
      by (metis fst_conv exists)
  qed
qed

context object_recoverer
begin

abbreviation the_hook :: "'s hook" where
  "the_hook \<equiv> \<lparr>hook_recover = recover, hook_store = store\<rparr>"

lemma spill_stored:
  assumes r: "cw_recoverer w = Some r" and st: "cw_plasma w = Some st" and ok: "cw_ok rinv rquiet w"
    and v: "server_view (snd st) (ObjectId_bytes i) = Sealed m d"
    and st1: "conn_inv st1" "server_view (snd st1) = server_view (snd st)"
    and s: "store i m d r = (r1, Inr ())"
    and del: "plasma_delete i (w\<lparr>cw_plasma := Some st1, cw_recoverer := Some r1\<rparr>) = (w', q)"
  shows "q = Inr ()" and "cw_ok rinv rquiet w'" and "same_index w w'"
    and "available held w' = available held w"
proof -
  let ?w = "w\<lparr>cw_plasma := Some st1, cw_recoverer := Some r1\<rparr>"
  have rr: "rinv r" "rquiet r" and "conn_inv st"
    using ok r st by (auto simp: cw_ok_def)
  have r1: "rinv r1" "rquiet r1"
    using store_inv [OF rr(1), of i m d] store_quiet [of i m d r] rr(2) s by simp_all
  have held: "held r1 = (held r)(i \<mapsto> \<lparr>recovered_metadata = m, recovered_data = d\<rparr>)"
    using store_ok [OF rr(1) sealed_rust_slice(2) [OF \<open>conn_inv st\<close> v] s] .
  have ok1: "cw_ok rinv rquiet ?w"
    using r1 st1 by (simp add: cw_ok_def)
  note p = plasma_delete_result [OF ok1 del]
  show "q = Inr ()" "cw_ok rinv rquiet w'" using p(1,2) .
  show "same_index w w'"
    using p(3) same_index_trans [of w ?w w'] by simp
  show "available held w' = available held w"
  proof
    fix j
    have "available held w' j =
        (if j = i then spilled_bytes held (Some r1) i else available held ?w j)"
      using available_deleted [OF p(5,4), of held j] by simp
    then show "available held w' j = available held w j"
      using v st1(2) by (auto simp: available_def spilled_bytes_def st r held split: slot_state.split)
  qed
qed

lemma spill_to_recoverer_keeps:
  assumes ok: "cw_ok rinv rquiet w" and res: "spill_to_recoverer the_hook i w = (w', q)"
  shows "cw_ok rinv rquiet w' \<and> same_index w w' \<and> available held w' = available held w"
proof (cases "cw_recoverer w")
  case None
  then show ?thesis using ok res by (auto simp: spill_to_recoverer_def)
next
  case r: (Some r)
  show ?thesis
  proof (cases "cw_plasma w")
    case None
    then show ?thesis using ok res r by (auto simp: spill_to_recoverer_def)
  next
    case st: (Some st)
    then have inv: "conn_inv st" and rr: "rinv r" "rquiet r"
      using ok r by (auto simp: cw_ok_def)
    have quiet_get: ?thesis
      if "w' = w\<lparr>cw_plasma := Some st1\<rparr>" "conn_inv st1" "server_view (snd st1) = server_view (snd st)" for st1
      using that ok by (auto simp: cw_ok_def available_def st fun_eq_iff split: slot_state.split)
    from inv show ?thesis
    proof (cases rule: get_bytes_cases [of _ "ObjectId_bytes i"])
      case (sealed st1 m d)
      obtain r1 s where s: "store i m d r = (r1, s)" by fastforce
      show ?thesis
      proof (cases s)
        case (Inl e)
        have "rinv r1" "rquiet r1" "held r1 = held r"
          using store_inv [OF rr(1), of i m d] store_quiet [of i m d r] rr(2)
            store_failed [OF rr(1)] s Inl by auto
        moreover have "w' = w\<lparr>cw_plasma := Some st1, cw_recoverer := Some r1\<rparr>"
          using res r st sealed(1) s Inl
          by (auto simp: spill_to_recoverer_def Let_def split: RecoveryError.splits)
        ultimately show ?thesis
          using sealed(2,3) by (auto simp: cw_ok_def available_def spilled_bytes_def st r fun_eq_iff
              split: slot_state.split)
      next
        case (Inr u)
        obtain w2 q2 where del: "plasma_delete i (w\<lparr>cw_plasma := Some st1, cw_recoverer := Some r1\<rparr>) = (w2, q2)"
          by fastforce
        note k = spill_stored [OF r st ok sealed(4,2,3) _ del]
        have "store i m d r = (r1, Inr ())" using s Inr by simp
        then show ?thesis
          using k res r st sealed(1) s Inr del by (auto simp: spill_to_recoverer_def Let_def)
      qed
    next
      case (absent st1 msg)
      then show ?thesis using res r st by (intro quiet_get [of st1]) (auto simp: spill_to_recoverer_def)
    next
      case (unsealed st1 msg)
      then show ?thesis using res r st by (intro quiet_get [of st1]) (auto simp: spill_to_recoverer_def)
    qed
  qed
qed

lemma spill_loop_keeps:
  "cw_ok rinv rquiet w \<Longrightarrow> spill_loop the_hook limit es current n w = (w', k) \<Longrightarrow>
     cw_ok rinv rquiet w' \<and> same_index w w' \<and> available held w' = available held w"
proof (induction es arbitrary: current n w)
  case (Cons e es)
  obtain i idx where e: "e = (i, idx)" by fastforce
  obtain w1 q where q: "spill_to_recoverer the_hook i w = (w1, q)" by fastforce
  note k = spill_to_recoverer_keeps [OF Cons.prems(1) q]
  show ?case
  proof (cases "current \<le> limit")
    case True
    then show ?thesis using Cons.prems e by simp
  next
    case False
    then obtain current' n' where "spill_loop the_hook limit es current' n' w1 = (w', k)"
      using Cons.prems(2) e q by (auto split: sum.splits bool.splits)
    with Cons.IH [of w1] k show ?thesis
      by (auto intro: same_index_trans)
  qed
qed simp

lemma maybe_spill_keeps:
  assumes "cw_ok rinv rquiet w" and "maybe_spill_for_pressure the_hook w = (w', k)"
  shows "cw_ok rinv rquiet w'" and "same_index w w'" and "available held w' = available held w"
    and "value_of held w' = value_of held w"
proof -
  have "cw_ok rinv rquiet w' \<and> same_index w w' \<and> available held w' = available held w"
    using assms spill_loop_keeps [OF assms(1)]
    by (auto simp: maybe_spill_for_pressure_def Let_def split: if_splits)
  then show "cw_ok rinv rquiet w'" "same_index w w'" "available held w' = available held w"
    "value_of held w' = value_of held w"
    using value_of_same_index by blast+
qed

end

section \<open>Sealing and resolving\<close>

lemma value_of_put_plasma:
  assumes "cw_store w' = put_plasma i idx (cw_store w)" and "idx_metadata idx = md"
    and "available held w' = (available held w)(i \<mapsto> (m, d))"
  shows "value_of held w' = (value_of held w)(i \<mapsto> (md, d))"
  using assms by (auto simp: value_of_def put_plasma_def fun_eq_iff split: option.split StoredEntry.split)

lemma value_of_seal_inline:
  "value_of held (seal_inline i md d w) = (value_of held w)(i \<mapsto> (md, d))"
proof -
  have "available held (seal_inline i md d w) = available held w"
    by (simp add: available_def seal_inline_def fun_eq_iff split: option.split slot_state.split)
  then show ?thesis
    by (auto simp: value_of_def seal_inline_def put_inline_def RayObject_new_def fun_eq_iff
        split: option.split StoredEntry.split)
qed

text \<open>Storing in plasma: the index, the counter and the plasma copy.\<close>

definition sealed_in_plasma :: "ObjectId \<Rightarrow> Metadata \<Rightarrow> bytes \<Rightarrow> conn \<Rightarrow> 'r CoreWorker \<Rightarrow> 'r CoreWorker" where
  "sealed_in_plasma i md d st' w =
     w\<lparr>cw_plasma := Some st',
       cw_store := put_plasma i \<lparr>idx_metadata = md, idx_data_size = of_nat (length d)\<rparr> (cw_store w),
       cw_refs := add_owned i (cw_refs w)\<rparr>"

lemma value_of_sealed_in_plasma:
  assumes "cw_plasma w = Some st"
    and "server_view (snd st') = (server_view (snd st))(ObjectId_bytes i := Sealed m d)"
  shows "value_of held (sealed_in_plasma i md d st' w) = (value_of held w)(i \<mapsto> (md, d))"
proof (rule value_of_put_plasma)
  show "cw_store (sealed_in_plasma i md d st' w) =
      put_plasma i \<lparr>idx_metadata = md, idx_data_size = of_nat (length d)\<rparr> (cw_store w)"
    by (simp add: sealed_in_plasma_def)
  show "available held (sealed_in_plasma i md d st' w) = (available held w)(i \<mapsto> (m, d))"
    using assms by (auto simp: available_def sealed_in_plasma_def fun_eq_iff ObjectId_bytes_eq_iff
        split: slot_state.split)
qed simp

lemma available_cong_view:
  assumes "cw_plasma w = Some st" and "server_view (snd st') = server_view (snd st)"
  shows "available held (w\<lparr>cw_plasma := Some st'\<rparr>) = available held w"
  using assms by (auto simp: available_def fun_eq_iff split: slot_state.split)

lemma cw_ok_plasma: "cw_ok rinv rquiet w \<Longrightarrow> conn_inv st \<Longrightarrow> cw_ok rinv rquiet (w\<lparr>cw_plasma := Some st\<rparr>)"
  by (simp add: cw_ok_def)

lemma cw_ok_frame:
  "cw_ok rinv rquiet w \<Longrightarrow> cw_plasma w' = cw_plasma w \<Longrightarrow> cw_recoverer w' = cw_recoverer w \<Longrightarrow>
     cw_ok rinv rquiet w'"
  by (simp add: cw_ok_def)

lemma seal_value_cases:
  assumes ok: "cw_ok rinv rquiet w" and d: "rust_slice d" and s: "seal_value i md d w = (w', r)"
  obtains (inline) "r = Inr ()" "w' = seal_inline i md d w"
      "\<not> (cw_inline_threshold w < length d \<and> has_plasma w)"
  | (plasma) st st' where "r = Inr ()" "w' = sealed_in_plasma i md d st' w" "cw_plasma w = Some st"
      "cw_inline_threshold w < length d" "conn_inv st'"
      "server_view (snd st') = (server_view (snd st))(ObjectId_bytes i := Sealed (encode md) d)"
  | (failed) st st' e where "r = Inl (CorePlasma e)" "w' = w\<lparr>cw_plasma := Some st'\<rparr>" "cw_plasma w = Some st"
      "conn_inv st'" "server_view (snd st') = server_view (snd st)"
proof (cases "cw_inline_threshold w < length d \<and> has_plasma w")
  case False
  then show thesis
    using s by (intro inline) (auto simp: seal_value_def has_plasma_def Let_def split: option.splits bool.splits)
next
  case True
  then obtain st where st: "cw_plasma w = Some st" by (auto simp: has_plasma_def)
  have inv: "conn_inv st" using ok st by (simp add: cw_ok_def)
  show thesis
  proof (cases rule: create_cases [OF inv metadata_rust_slice [of md] d, of "ObjectId_bytes i" "address_blob w"])
    case (1 st')
    then show thesis
      using s st True by (intro plasma [of st' st]) (auto simp: seal_value_def sealed_in_plasma_def Let_def)
  next
    case (2 st' msg)
    then show thesis
      using s st True by (intro failed [of _ st' st]) (auto simp: seal_value_def Let_def)
  next
    case (3 st' msg)
    then show thesis
      using s st True by (intro failed [of _ st' st]) (auto simp: seal_value_def Let_def)
  qed
qed

lemma seal_value_result:
  assumes ok: "cw_ok rinv rquiet w" and d: "rust_slice d" and s: "seal_value i md d w = (w', r)"
  shows "cw_ok rinv rquiet w'
    \<and> value_of held w' = (if is_ok r then (value_of held w)(i \<mapsto> (md, d)) else value_of held w)
    \<and> cw_refs w' = (if is_ok r then add_owned i (cw_refs w) else cw_refs w)
    \<and> cw_free_callback w' = cw_free_callback w"
proof (cases rule: seal_value_cases [OF ok d s])
  case 1
  then show ?thesis
    using ok value_of_seal_inline [of held i md d w] by (auto simp: is_ok_def seal_inline_def cw_ok_def)
next
  case (2 st st')
  then show ?thesis
    using ok value_of_sealed_in_plasma [OF 2(3,6), of held md]
    by (auto simp: is_ok_def sealed_in_plasma_def cw_ok_def)
next
  case (3 st st' e)
  then show ?thesis
    using ok value_of_same_index [OF _ available_cong_view [OF 3(3,5)]]
    by (auto simp: is_ok_def cw_ok_def)
qed

context object_recoverer
begin

lemma seal_value_to_plasma_result:
  assumes ok: "cw_ok rinv rquiet w" and d: "rust_slice d"
    and s: "seal_value_to_plasma the_hook i md d w = (w', r)"
  shows "cw_ok rinv rquiet w'
    \<and> value_of held w' = (if is_ok r then (value_of held w)(i \<mapsto> (md, d)) else value_of held w)
    \<and> cw_refs w' = (if is_ok r then add_owned i (cw_refs w) else cw_refs w)
    \<and> cw_free_callback w' = cw_free_callback w"
proof (cases "cw_plasma w")
  case None
  then show ?thesis using s ok by (auto simp: seal_value_to_plasma_def is_ok_def)
next
  case (Some st)
  have inv: "conn_inv st" using ok Some by (simp add: cw_ok_def)
  have bad: ?thesis if "r = Inl e" "w' = w\<lparr>cw_plasma := Some st'\<rparr>" "conn_inv st'"
      "server_view (snd st') = server_view (snd st)" for e st'
    using that ok value_of_same_index [OF _ available_cong_view [OF Some that(4)]]
    by (auto simp: is_ok_def cw_ok_plasma)
  show ?thesis
  proof (cases rule: create_cases [OF inv metadata_rust_slice [of md] d, of "ObjectId_bytes i" "address_blob w"])
    case (1 st')
    let ?w = "sealed_in_plasma i md d st' w"
    obtain w2 k where w2: "maybe_spill_for_pressure the_hook ?w = (w2, k)" by fastforce
    have ok1: "cw_ok rinv rquiet ?w"
      using ok 1(2) by (simp add: sealed_in_plasma_def cw_ok_def)
    note m = maybe_spill_keeps [OF ok1 w2]
    have "w' = w2" "r = Inr (of_nat (length d))"
      using s Some 1(1) w2 by (auto simp: seal_value_to_plasma_def sealed_in_plasma_def Let_def)
    then show ?thesis
      using m value_of_sealed_in_plasma [OF Some 1(4), of held md] same_indexD(2,4) [OF m(2)]
      by (auto simp: is_ok_def sealed_in_plasma_def)
  next
    case (2 st' msg)
    then show ?thesis
      using s Some by (intro bad [of _ st']) (auto simp: seal_value_to_plasma_def)
  next
    case (3 st' msg)
    then show ?thesis
      using s Some by (intro bad [of _ st']) (auto simp: seal_value_to_plasma_def)
  qed
qed

text \<open>What a resolve may answer, given the value of the id and whether plasma has a copy.\<close>

lemma recover_and_reseal_result:
  assumes ok: "cw_ok rinv rquiet w" and st: "cw_plasma w = Some st"
    and v: "server_view (snd st) (ObjectId_bytes i) = Absent"
    and res: "recover_and_reseal the_hook i idx w = (w', q)"
  shows "cw_ok rinv rquiet w' \<and> same_index w w' \<and> available held w' = available held w \<and>
    (case spilled_bytes held (cw_recoverer w) i of
       None \<Rightarrow> \<exists>e. q = Inl e
     | Some (m, d) \<Rightarrow>
         q = Inr \<lparr>resolved_metadata = idx_metadata idx, resolved_data = d, resolved_nested_refs = []\<rparr> \<or>
         (\<exists>msg. q = Inl (CorePlasma (PlasmaServerError OutOfMemory msg))))"
proof (cases "cw_recoverer w")
  case None
  then show ?thesis using ok res by (auto simp: recover_and_reseal_def spilled_bytes_def)
next
  case (Some r)
  then have rr: "rinv r" "rquiet r" and inv: "conn_inv st"
    using ok st by (auto simp: cw_ok_def)
  show ?thesis
  proof (cases "held r i")
    case None
    obtain r1 a where a: "recover i r = (r1, a)" by fastforce
    have r1: "held r1 = held r" "\<forall>x. a \<noteq> Inr (Some x)" "rinv r1" "rquiet r1"
      using recover_absent [OF rr None a] recover_inv [OF rr(1), of i] recover_quiet [of i r] rr(2) a by auto
    have "w' = w\<lparr>cw_recoverer := Some r1\<rparr> \<and> (\<exists>e. q = Inl e)"
      using res Some a r1(2)
      by (auto simp: recover_and_reseal_def split: sum.splits option.splits RecoveryError.splits)
    then show ?thesis
      using ok r1 Some None
      by (auto simp: cw_ok_def available_def spilled_bytes_def fun_eq_iff split: option.split slot_state.split)
  next
    case x: (Some x)
    have rec: "recover i r = (r, Inr (Some x))" by (rule recover_held [OF rr x])
    have same: "w\<lparr>cw_recoverer := Some r\<rparr> = w" using Some by simp
    have sl: "rust_slice (recovered_metadata x)" "rust_slice (recovered_data x)"
      using held_slices [OF x] by auto
    show ?thesis
    proof (cases rule: create_cases [OF inv sl, of "ObjectId_bytes i" "address_blob w"])
      case (1 st')
      then have "w' = w\<lparr>cw_plasma := Some st'\<rparr>"
          "q = Inr \<lparr>resolved_metadata = idx_metadata idx, resolved_data = recovered_data x, resolved_nested_refs = []\<rparr>"
        using res Some rec st same by (auto simp: recover_and_reseal_def)
      then show ?thesis
        using 1 ok v Some x by (auto simp: cw_ok_plasma available_def st spilled_bytes_def fun_eq_iff
            ObjectId_bytes_eq_iff split: slot_state.split)
    next
      case (2 st' msg)
      then show ?thesis using v by simp
    next
      case (3 st' msg)
      then have "w' = w\<lparr>cw_plasma := Some st'\<rparr>" "q = Inl (CorePlasma (PlasmaServerError OutOfMemory msg))"
        using res Some rec st same by (auto simp: recover_and_reseal_def)
      then show ?thesis
        using 3 ok Some x available_cong_view [OF st 3(4)] by (auto simp: cw_ok_plasma spilled_bytes_def)
    qed
  qed
qed

end

text \<open>
  The answer of a resolve: the value of the id; or an out-of-memory error, possible only when plasma
  no longer has the object and it cannot be put back there.
\<close>

definition answers ::
  "(Metadata \<times> bytes) option \<Rightarrow> bool \<Rightarrow> (CoreError, ResolvedObject option) result \<Rightarrow> bool" where
  "answers v in_plasma r \<longleftrightarrow>
     (case v of
        None \<Rightarrow> r = Inr None \<or> (\<exists>e. r = Inl e)
      | Some (md, d) \<Rightarrow>
          (\<exists>nr. r = Inr (Some \<lparr>resolved_metadata = md, resolved_data = d, resolved_nested_refs = nr\<rparr>))
          \<or> (\<not> in_plasma \<and> (\<exists>msg. r = Inl (CorePlasma (PlasmaServerError OutOfMemory msg)))))"

definition in_plasma :: "'r CoreWorker \<Rightarrow> ObjectId \<Rightarrow> bool" where
  "in_plasma w i \<longleftrightarrow>
     (\<exists>st. cw_plasma w = Some st \<and> server_view (snd st) (ObjectId_bytes i) \<noteq> Absent)"

context object_recoverer
begin

lemma resolve_plasma_result:
  assumes ok: "cw_ok rinv rquiet w" and res: "resolve_entry the_hook i (Plasma idx) w = (w', q)"
  shows "cw_ok rinv rquiet w' \<and> same_index w w' \<and> available held w' = available held w \<and>
    answers (map_option (\<lambda>(m, d). (idx_metadata idx, d)) (available held w i)) (in_plasma w i) (map_ok Some q)"
proof (cases "cw_plasma w")
  case None
  then show ?thesis
    using ok res by (auto simp: resolve_entry_def available_def answers_def map_ok_def)
next
  case st: (Some st)
  have inv: "conn_inv st" using ok st by (simp add: cw_ok_def)
  from inv show ?thesis
  proof (cases rule: get_bytes_cases [of _ "ObjectId_bytes i"])
    case (sealed st1 m d)
    then show ?thesis
      using ok res st available_cong_view [OF st sealed(3), of held]
      by (auto simp: resolve_entry_def available_def answers_def map_ok_def cw_ok_plasma)
  next
    case (absent st1 msg)
    let ?w = "w\<lparr>cw_plasma := Some st1\<rparr>"
    have r: "recover_and_reseal the_hook i idx ?w = (w', q)"
      using res st absent(1) by (simp add: resolve_entry_def)
    have v: "server_view (snd st1) (ObjectId_bytes i) = Absent" using absent(3,4) by simp
    note k = recover_and_reseal_result [OF cw_ok_plasma [OF ok absent(2)] _ v r]
    have "available held w i = spilled_bytes held (cw_recoverer w) i" "\<not> in_plasma w i"
      using st absent(4) by (auto simp: available_def in_plasma_def)
    then show ?thesis
      using k available_cong_view [OF st absent(3), of held] same_index_trans [of w ?w w']
      by (auto simp: answers_def map_ok_def split: option.splits)
  next
    case (unsealed st1 msg)
    then show ?thesis
      using ok res st available_cong_view [OF st unsealed(3), of held]
      by (auto simp: resolve_entry_def available_def answers_def map_ok_def cw_ok_plasma)
  qed
qed

lemma resolve_now_result:
  assumes ok: "cw_ok rinv rquiet w" and res: "resolve_now the_hook i w = (w', q)"
  shows "cw_ok rinv rquiet w' \<and> same_index w w' \<and> value_of held w' = value_of held w \<and>
    answers (value_of held w i) (in_plasma w i) q"
proof (cases "get_entry i (cw_store w)")
  case None
  then show ?thesis using ok res by (auto simp: resolve_now_def value_of_def answers_def)
next
  case e: (Some e)
  show ?thesis
  proof (cases e)
    case (Inline obj)
    then show ?thesis
      using ok res e by (auto simp: resolve_now_def resolve_entry_def value_of_def answers_def map_ok_def)
  next
    case (Plasma idx)
    obtain q1 where q1: "resolve_entry the_hook i (Plasma idx) w = (w', q1)" "q = map_ok Some q1"
      using res e Plasma by (auto simp: resolve_now_def split: prod.splits)
    note k = resolve_plasma_result [OF ok q1(1)]
    have "value_of held w i = map_option (\<lambda>(m, d). (idx_metadata idx, d)) (available held w i)"
      using e Plasma by (simp add: value_of_def)
    then show ?thesis
      using k q1(2) value_of_same_index by metis
  qed
qed

end

section \<open>Freeing\<close>

lemma value_of_dropped:
  assumes "\<And>j. get_entry j (cw_store w') = (if j = i then None else get_entry j (cw_store w))"
    and "\<And>j. j \<noteq> i \<Longrightarrow> available held w' j = available held w j"
  shows "value_of held w' = (value_of held w)(i := None)"
  using assms by (auto simp: value_of_def fun_eq_iff split: option.split StoredEntry.split)

lemma evict_local_result:
  assumes ok: "cw_ok rinv rquiet w" and e: "evict_local i w = (w', r)"
  shows "r = Inr () \<and> cw_ok rinv rquiet w' \<and> value_of held w' = (value_of held w)(i := None) \<and>
    cw_refs w' = cw_refs w \<and> cw_free_callback w' = cw_free_callback w \<and>
    cw_recoverer w' = cw_recoverer w \<and> cw_freed w' = cw_freed w \<and> \<not> in_plasma w' i \<and>
    get_entry i (cw_store w') = None"
proof -
  let ?w = "w\<lparr>cw_store := delete [i] (cw_store w)\<rparr>"
  have ok1: "cw_ok rinv rquiet ?w" using ok by (simp add: cw_ok_def)
  note p = plasma_delete_result [OF ok1 e [unfolded evict_local_def]]
  note x = same_indexD [OF p(3)]
  have "available held ?w j = available held w j" for j
    by (simp add: available_def split: option.split slot_state.split)
  then have "available held w' j = available held w j" if "j \<noteq> i" for j
    using available_deleted [OF p(5,4), of held j] that by simp
  then have "value_of held w' = (value_of held w)(i := None)"
    using x(1) by (intro value_of_dropped) auto
  moreover have "\<not> in_plasma w' i"
    using p(5) by (cases "cw_plasma w") (auto simp: in_plasma_def)
  ultimately show ?thesis
    using p x by simp
qed

lemma free_all_local_result:
  assumes "cw_ok rinv rquiet w"
  shows "cw_ok rinv rquiet (free_all_local w) \<and> cw_refs (free_all_local w) = [] \<and>
    value_of held (free_all_local w) = (\<lambda>i. if hm_contains (cw_refs w) i then None else value_of held w i) \<and>
    cw_free_callback (free_all_local w) = cw_free_callback w \<and>
    cw_recoverer (free_all_local w) = cw_recoverer w"
proof -
  have "cw_ok rinv rquiet (fold (\<lambda>i w. fst (evict_local i w)) ids v) \<and>
      cw_refs (fold (\<lambda>i w. fst (evict_local i w)) ids v) = cw_refs v \<and>
      value_of held (fold (\<lambda>i w. fst (evict_local i w)) ids v) =
        (\<lambda>i. if i \<in> set ids then None else value_of held v i) \<and>
      cw_free_callback (fold (\<lambda>i w. fst (evict_local i w)) ids v) = cw_free_callback v \<and>
      cw_recoverer (fold (\<lambda>i w. fst (evict_local i w)) ids v) = cw_recoverer v"
    if "cw_ok rinv rquiet v" for ids and v :: "'a CoreWorker"
    using that
  proof (induction ids arbitrary: v)
    case (Cons i ids)
    obtain v1 r where v1: "evict_local i v = (v1, r)" by fastforce
    note k = evict_local_result [OF Cons.prems v1, of held]
    with Cons.IH [of v1] v1 show ?case by (auto simp: fun_eq_iff)
  qed (simp add: fun_eq_iff)
  moreover have "cw_ok rinv rquiet (w\<lparr>cw_refs := []\<rparr>)" using assms by (simp add: cw_ok_def)
  ultimately show ?thesis
    by (simp add: free_all_local_def drain_ids_def hm_contains_iff cong: if_cong)
qed

lemma free_unpinned_evict:
  "free_unpinned i w =
     (case evict_local i w of
        (w1, Inl e) \<Rightarrow> (w1, Inl e)
      | (w1, Inr _) \<Rightarrow>
          (case cw_free_callback w1 of
             None \<Rightarrow> (w1, Inr ())
           | Some cb \<Rightarrow>
               (w1\<lparr>cw_freed := cw_freed w1 @ [i], cw_recoverer := map_option (cb i) (cw_recoverer w1)\<rparr>,
                Inr ())))"
  by (simp add: free_unpinned_def evict_local_def)

context freeing_recoverer
begin

lemma free_unpinned_result:
  assumes ok: "cw_ok rinv rquiet w" and cb: "cw_free_callback w = Some on_free"
    and f: "free_unpinned i w = (w', r)"
  shows "r = Inr () \<and> cw_ok rinv rquiet w' \<and> value_of held w' = (value_of held w)(i := None) \<and>
    cw_refs w' = cw_refs w \<and> cw_free_callback w' = Some on_free \<and> cw_freed w' = cw_freed w @ [i] \<and>
    \<not> in_plasma w' i \<and> spilled_bytes held (cw_recoverer w') i = None"
proof -
  obtain w1 r1 where w1: "evict_local i w = (w1, r1)" by fastforce
  note e = evict_local_result [OF ok w1, of held]
  have w': "w' = w1\<lparr>cw_freed := cw_freed w1 @ [i], cw_recoverer := map_option (on_free i) (cw_recoverer w1)\<rparr>"
    and r: "r = Inr ()"
    using f e w1 cb by (auto simp: free_unpinned_evict)
  have h: "held (on_free i x) = (held x)(i := None)" "rinv (on_free i x)" "rquiet (on_free i x)"
    if "cw_recoverer w1 = Some x" for x
    using e that free_held [of x i] free_inv [of x i] free_quiet [of i x] by (auto simp: cw_ok_def)
  have "cw_ok rinv rquiet w'"
    using e h by (auto simp: cw_ok_def w')
  moreover have "value_of held w' = (value_of held w1)(i := None)"
  proof (rule value_of_dropped)
    show "get_entry j (cw_store w') = (if j = i then None else get_entry j (cw_store w1))" for j
      using e by (simp add: w')
    show "available held w' j = available held w1 j" if "j \<noteq> i" for j
      using h that by (auto simp: w' available_def spilled_bytes_def split: option.split slot_state.split)
  qed
  moreover have "spilled_bytes held (cw_recoverer w') i = None"
    using h by (cases "cw_recoverer w1") (auto simp: w' spilled_bytes_def)
  moreover have "\<not> in_plasma w' i" using e by (simp add: w' in_plasma_def)
  ultimately show ?thesis
    using e r cb by (simp add: w')
qed

end

section \<open>The effect of spilling under pressure\<close>

text \<open>
  An entry that can be spilled: absent from plasma already, or sealed there with metadata that the
  backend's format can hold.
\<close>

definition spillable_slot :: "slot_state \<Rightarrow> bool" where
  "spillable_slot v \<longleftrightarrow> (case v of Absent \<Rightarrow> True | Unsealed \<Rightarrow> False | Sealed m d \<Rightarrow> length m < 2 ^ 32)"

definition all_spillable :: "'r CoreWorker \<Rightarrow> (ObjectId \<times> PlasmaIndex) list \<Rightarrow> bool" where
  "all_spillable w es \<longleftrightarrow>
     (\<exists>st. cw_plasma w = Some st \<and>
        list_all (\<lambda>(i, idx). spillable_slot (server_view (snd st) (ObjectId_bytes i))) es)"

text \<open>The indexed bytes, and those whose object is still in plasma.\<close>

definition indexed_bytes :: "(ObjectId \<times> PlasmaIndex) list \<Rightarrow> nat" where
  "indexed_bytes es = sum_list (map (\<lambda>(i, idx). unat (idx_data_size idx)) es)"

definition resident_bytes :: "'r CoreWorker \<Rightarrow> (ObjectId \<times> PlasmaIndex) list \<Rightarrow> nat" where
  "resident_bytes w es =
     sum_list (map (\<lambda>(i, idx). if in_plasma w i then unat (idx_data_size idx) else 0) es)"

lemma resident_le_indexed: "resident_bytes w es \<le> indexed_bytes es"
  by (induction es) (auto simp: resident_bytes_def indexed_bytes_def)

context object_recoverer
begin

lemma spill_to_recoverer_succeeds:
  assumes ok: "cw_ok rinv rquiet w" and r: "cw_recoverer w = Some r" "rwritable r"
    and st: "cw_plasma w = Some st" and v: "spillable_slot (server_view (snd st) (ObjectId_bytes i))"
  obtains w' b r' st' where "spill_to_recoverer the_hook i w = (w', Inr b)" "cw_ok rinv rquiet w'"
    "cw_recoverer w' = Some r'" "rwritable r'" "cw_plasma w' = Some st'"
    "server_view (snd st') = (server_view (snd st))(ObjectId_bytes i := Absent)"
proof -
  have inv: "conn_inv st" and rr: "rinv r" "rquiet r"
    using ok st r by (auto simp: cw_ok_def)
  from inv show thesis
  proof (cases rule: get_bytes_cases [of _ "ObjectId_bytes i"])
    case (sealed st1 m d)
    have len: "length m < 2 ^ 32" using v sealed(4) by (simp add: spillable_slot_def)
    obtain r1 s where s: "store i m d r = (r1, s)" by fastforce
    have "s = Inr ()"
      using store_succeeds [OF rr(1) r(2) len, of i d] s by (cases s) (auto simp: is_ok_def)
    with s have s: "store i m d r = (r1, Inr ())" by simp
    obtain w2 q where del: "plasma_delete i (w\<lparr>cw_plasma := Some st1, cw_recoverer := Some r1\<rparr>) = (w2, q)"
      by fastforce
    note k = spill_stored [OF r(1) st ok sealed(4,2,3) s del]
    have "cw_ok rinv rquiet (w\<lparr>cw_plasma := Some st1, cw_recoverer := Some r1\<rparr>)"
      using store_inv [OF rr(1), of i m d] store_quiet [of i m d r] rr(2) s sealed(2)
      by (simp add: cw_ok_def)
    note p = plasma_delete_result(4,5) [OF this del]
    have "rwritable r1" using store_writable [of i m d r] s r(2) by simp
    moreover obtain st2 where "cw_plasma w2 = Some st2"
        "server_view (snd st2) = (server_view (snd st))(ObjectId_bytes i := Absent)"
      using p(2) sealed(3) by (cases "cw_plasma w2") auto
    moreover have "spill_to_recoverer the_hook i w = (w2, Inr True)"
      using r(1) st sealed(1) s del k(1) by (simp add: spill_to_recoverer_def)
    ultimately show thesis
      using that k(2) p(1) by simp
  next
    case (absent st1 msg)
    have "spill_to_recoverer the_hook i w = (w\<lparr>cw_plasma := Some st1\<rparr>, Inr False)"
      using r(1) st absent(1) by (simp add: spill_to_recoverer_def)
    then show thesis
      by (rule that) (use ok r absent in \<open>auto simp: cw_ok_def fun_eq_iff\<close>)
  next
    case (unsealed st1 msg)
    then show thesis using v by (simp add: spillable_slot_def)
  qed
qed

lemma spill_loop_bound:
  assumes "cw_ok rinv rquiet w" and "cw_recoverer w = Some r" "rwritable r" and "all_spillable w es"
    and "unat current = indexed_bytes es" and "spill_loop the_hook limit es current n w = (w', k)"
  shows "resident_bytes w' es \<le> unat limit \<and> (\<forall>j. in_plasma w' j \<longrightarrow> in_plasma w j)"
  using assms
proof (induction es arbitrary: current n w r)
  case Nil
  then show ?case by (simp add: resident_bytes_def)
next
  case (Cons e es)
  obtain i idx where e: "e = (i, idx)" by fastforce
  show ?case
  proof (cases "current \<le> limit")
    case True
    then have "w' = w" "unat current \<le> unat limit"
      using Cons.prems(6) e by (auto simp: word_le_nat_alt)
    then show ?thesis
      using resident_le_indexed [of w "e # es"] Cons.prems(5) by simp
  next
    case False
    obtain st where st: "cw_plasma w = Some st"
      and v: "spillable_slot (server_view (snd st) (ObjectId_bytes i))"
      and vs: "list_all (\<lambda>(i, idx). spillable_slot (server_view (snd st) (ObjectId_bytes i))) es"
      using Cons.prems(4) e by (auto simp: all_spillable_def)
    obtain w1 b r1 st1 where w1: "spill_to_recoverer the_hook i w = (w1, Inr b)" "cw_ok rinv rquiet w1"
        "cw_recoverer w1 = Some r1" "rwritable r1" "cw_plasma w1 = Some st1"
        "server_view (snd st1) = (server_view (snd st))(ObjectId_bytes i := Absent)"
      by (rule spill_to_recoverer_succeeds [OF Cons.prems(1-3) st v])
    let ?c = "saturating_sub current (idx_data_size idx)"
    have c: "unat ?c = indexed_bytes es"
      using Cons.prems(5) e by (simp add: unat_saturating_sub indexed_bytes_def)
    have a: "all_spillable w1 es"
      using vs w1(5,6) by (auto simp: all_spillable_def list_all_iff spillable_slot_def)
    obtain n' where l: "spill_loop the_hook limit es ?c n' w1 = (w', k)"
      using Cons.prems(6) False e w1(1) by (cases b) auto
    note IH = Cons.IH [OF w1(2-4) a c l]
    have mono: "in_plasma w j \<and> j \<noteq> i" if "in_plasma w1 j" for j
      using that st w1(5,6) by (auto simp: in_plasma_def split: if_splits)
    then have "\<not> in_plasma w' i" using IH by blast
    then show ?thesis
      using IH mono e by (auto simp: resident_bytes_def)
  qed
qed

end

lemma sum_of_sizes:
  "indexed_bytes es < 2 ^ 64 \<Longrightarrow> unat (sum_list (map (\<lambda>(i, idx). idx_data_size idx) es)) = indexed_bytes es"
proof (induction es)
  case (Cons e es)
  then show ?case by (cases e) (auto simp: indexed_bytes_def unat_word_ariths)
qed (simp add: indexed_bytes_def)

end
