(* ===== verification/Core_Runs.thy ===== *)
theory Core_Runs
imports Core_Worker
begin

text \<open>
  Executions of a worker whose recovery hook is an object manager over a directory, with the free
  callback that \<open>rayd-py/src/runtime.rs\<close> installs.  The specification of a run is a map from ids to
  values together with the reference counter.
\<close>

section \<open>The wiring of the runtime\<close>

text \<open>
  \<open>runtime.rs\<close> registers the manager as the hook and installs a callback that forgets the spilled copy;
  the raylet directory entry that it also removes is not part of the worker.
\<close>

definition manager_hook :: "fs_manager hook" where
  "manager_hook = \<lparr>hook_recover = mgr_recover fs_restore, hook_store = mgr_store fs_spill\<rparr>"

definition forget_on_free :: "ObjectId \<Rightarrow> fs_manager \<Rightarrow> fs_manager" where
  "forget_on_free i m = fst (mgr_forget fs_remove (ObjectId_bytes i) m)"

definition wire_manager :: "fs_manager \<Rightarrow> fs_manager CoreWorker \<Rightarrow> fs_manager CoreWorker" where
  "wire_manager m w = set_recoverer m (set_free_callback forget_on_free w)"

abbreviation spill_inv :: "bytes \<Rightarrow> fs_manager \<Rightarrow> bool" where
  "spill_inv r \<equiv> mgr_inv (fs_inv r) (\<lambda>oid. url_for (path_for r oid))"

abbreviation spill_quiet :: "fs_manager \<Rightarrow> bool" where
  "spill_quiet \<equiv> \<lambda>m. fs_quiet (backend m)"

definition worker_inv :: "bytes \<Rightarrow> fs_manager CoreWorker \<Rightarrow> bool" where
  "worker_inv r w \<longleftrightarrow> cw_ok (spill_inv r) spill_quiet w \<and> cw_free_callback w = Some forget_on_free"

abbreviation worker_value :: "fs_manager CoreWorker \<Rightarrow> ObjectId \<Rightarrow> (Metadata \<times> bytes) option" where
  "worker_value \<equiv> value_of (mgr_held fs_content)"

lemma forget_on_free_eq: "forget_on_free = (\<lambda>i m. fst (mgr_forget fs_remove (ObjectId_bytes i) m))"
  by (simp add: forget_on_free_def fun_eq_iff)

section \<open>Operations and outcomes\<close>

datatype CoreOp =
    DoSeal ObjectId Metadata bytes
  | DoSealPlasma ObjectId Metadata bytes
  | DoResolve ObjectId
  | DoSpill ObjectId
  | DoPressure
  | DoInc ObjectId
  | DoDec ObjectId
  | DoAddBorrower ObjectId WorkerId
  | DoRemoveBorrower ObjectId WorkerId
  | DoEvict ObjectId
  | DoFreeAll

datatype CoreOut =
    OutSealed bool
  | OutResolved "(CoreError, ResolvedObject option) result"
  | OutCount u64
  | OutUnit "(CoreError, unit) result"
  | OutNone

fun core_step :: "CoreOp \<Rightarrow> fs_manager CoreWorker \<Rightarrow> fs_manager CoreWorker \<times> CoreOut" where
  "core_step (DoSeal i md d) w = (case seal_value i md d w of (w', r) \<Rightarrow> (w', OutSealed (is_ok r)))"
| "core_step (DoSealPlasma i md d) w =
     (case seal_value_to_plasma manager_hook i md d w of (w', r) \<Rightarrow> (w', OutSealed (is_ok r)))"
| "core_step (DoResolve i) w = (case resolve_now manager_hook i w of (w', r) \<Rightarrow> (w', OutResolved r))"
| "core_step (DoSpill i) w = (fst (spill_to_recoverer manager_hook i w), OutNone)"
| "core_step DoPressure w = (fst (maybe_spill_for_pressure manager_hook w), OutNone)"
| "core_step (DoInc i) w = (case inc_local_ref i w of (w', n) \<Rightarrow> (w', OutCount n))"
| "core_step (DoDec i) w = (case dec_local_ref i w of (w', r) \<Rightarrow> (w', OutUnit r))"
| "core_step (DoAddBorrower i b) w = (add_borrower_pin i b w, OutNone)"
| "core_step (DoRemoveBorrower i b) w = (case remove_borrower_pin i b w of (w', r) \<Rightarrow> (w', OutUnit r))"
| "core_step (DoEvict i) w = (case evict_local i w of (w', r) \<Rightarrow> (w', OutUnit r))"
| "core_step DoFreeAll w = (free_all_local w, OutNone)"

fun core_run :: "CoreOp list \<Rightarrow> fs_manager CoreWorker \<Rightarrow> fs_manager CoreWorker \<times> CoreOut list" where
  "core_run [] w = (w, [])"
| "core_run (op # ops) w =
     (case core_step op w of (w1, out) \<Rightarrow> (case core_run ops w1 of (w2, outs) \<Rightarrow> (w2, out # outs)))"

type_synonym core_spec = "(ObjectId \<Rightarrow> (Metadata \<times> bytes) option) \<times> RefCounter"

text \<open>Dropping the value of an id when the counter reports its last release.\<close>

definition drop_if :: "ObjectId \<Rightarrow> RefCounter \<times> bool \<Rightarrow> core_spec \<Rightarrow> core_spec" where
  "drop_if i cf s = (if snd cf then (fst s)(i := None) else fst s, fst cf)"

definition core_spec_step :: "CoreOp \<Rightarrow> CoreOut \<Rightarrow> core_spec \<Rightarrow> core_spec" where
  "core_spec_step op out s =
     (let V = fst s; c = snd s;
          sealed = (\<lambda>i md d. if out = OutSealed True then (V(i \<mapsto> (md, d)), add_owned i c) else (V, c))
      in case op of
           DoSeal i md d \<Rightarrow> sealed i md d
         | DoSealPlasma i md d \<Rightarrow> sealed i md d
         | DoInc i \<Rightarrow> (V, fst (inc_local i c))
         | DoDec i \<Rightarrow> drop_if i (dec_local i c) s
         | DoAddBorrower i b \<Rightarrow> (V, fst (add_borrower i b c))
         | DoRemoveBorrower i b \<Rightarrow> drop_if i (remove_borrower i b c) s
         | DoEvict i \<Rightarrow> (V(i := None), c)
         | DoFreeAll \<Rightarrow> ((\<lambda>i. if hm_contains c i then None else V i), [])
         | _ \<Rightarrow> s)"

definition core_spec_allows :: "CoreOp \<Rightarrow> CoreOut \<Rightarrow> core_spec \<Rightarrow> bool" where
  "core_spec_allows op out s \<longleftrightarrow>
     (let unit_ok = (out = OutUnit (Inr ())); sealed = (\<exists>b. out = OutSealed b)
      in case op of
           DoSeal i md d \<Rightarrow> sealed
         | DoSealPlasma i md d \<Rightarrow> sealed
         | DoResolve i \<Rightarrow> (case out of OutResolved r \<Rightarrow> answers (fst s i) False r | _ \<Rightarrow> False)
         | DoInc i \<Rightarrow> out = OutCount (snd (inc_local i (snd s)))
         | DoDec i \<Rightarrow> unit_ok
         | DoRemoveBorrower i b \<Rightarrow> unit_ok
         | DoEvict i \<Rightarrow> unit_ok
         | _ \<Rightarrow> out = OutNone)"

lemmas core_spec_defs = core_spec_step_def core_spec_allows_def

fun core_spec_run :: "CoreOp list \<Rightarrow> CoreOut list \<Rightarrow> core_spec \<Rightarrow> bool" where
  "core_spec_run [] [] s \<longleftrightarrow> True"
| "core_spec_run (op # ops) (out # outs) s \<longleftrightarrow>
     core_spec_allows op out s \<and> core_spec_run ops outs (core_spec_step op out s)"
| "core_spec_run _ _ s \<longleftrightarrow> False"

fun op_data_ok :: "CoreOp \<Rightarrow> bool" where
  "op_data_ok (DoSeal i md d) \<longleftrightarrow> rust_slice d"
| "op_data_ok (DoSealPlasma i md d) \<longleftrightarrow> rust_slice d"
| "op_data_ok op \<longleftrightarrow> True"

section \<open>Each step refines the specification\<close>

definition worker_spec :: "fs_manager CoreWorker \<Rightarrow> core_spec" where
  "worker_spec w = (worker_value w, cw_refs w)"

lemma manager_hook_eq: "manager_hook = \<lparr>hook_recover = mgr_recover fs_restore, hook_store = mgr_store fs_spill\<rparr>"
  by (simp add: manager_hook_def)

lemma answers_weaken: "answers v b r \<Longrightarrow> answers v False r"
  by (auto simp: answers_def split: option.splits)

lemma worker_inv_ok: "worker_inv r w \<Longrightarrow> cw_ok (spill_inv r) spill_quiet w"
  by (simp add: worker_inv_def)

lemma worker_free:
  assumes "worker_inv r w" and "free_unpinned i w = (w', q)"
  shows "q = Inr () \<and> worker_inv r w' \<and> worker_value w' = (worker_value w)(i := None) \<and>
    cw_refs w' = cw_refs w \<and> cw_freed w' = cw_freed w @ [i] \<and> \<not> in_plasma w' i \<and>
    spilled_bytes (mgr_held fs_content) (cw_recoverer w') i = None"
  using localfs.hook.free_unpinned_result [OF worker_inv_ok [OF assms(1)] _ assms(2)] assms(1)
  by (simp add: worker_inv_def forget_on_free_eq)

text \<open>No copy of the object is left outside the index.\<close>

definition no_copy :: "fs_manager CoreWorker \<Rightarrow> ObjectId \<Rightarrow> bool" where
  "no_copy w i \<longleftrightarrow> \<not> in_plasma w i \<and> spilled_bytes (mgr_held fs_content) (cw_recoverer w) i = None"

lemma in_plasma_refs [simp]: "in_plasma (w\<lparr>cw_refs := c\<rparr>) i \<longleftrightarrow> in_plasma w i"
  by (simp add: in_plasma_def)

lemma worker_dec:
  assumes "worker_inv r w" and "dec_local_ref i w = (w', q)"
  shows "q = Inr () \<and> worker_inv r w' \<and> worker_spec w' = drop_if i (dec_local i (cw_refs w)) (worker_spec w)
    \<and> cw_freed w' = cw_freed w @ (if snd (dec_local i (cw_refs w)) then [i] else [])
    \<and> (no_copy w' i \<longleftrightarrow> no_copy w i \<or> snd (dec_local i (cw_refs w)))"
proof -
  obtain c f where c: "dec_local i (cw_refs w) = (c, f)" by fastforce
  have inv: "worker_inv r (w\<lparr>cw_refs := c\<rparr>)" using assms(1) by (simp add: worker_inv_def)
  show ?thesis
    using assms worker_free [OF inv, of i w' q] inv c
    by (cases f) (auto simp: dec_local_ref_def drop_if_def worker_spec_def no_copy_def)
qed

lemma worker_remove_borrower:
  assumes "worker_inv r w" and "remove_borrower_pin i b w = (w', q)"
  shows "q = Inr () \<and> worker_inv r w' \<and>
    worker_spec w' = drop_if i (remove_borrower i b (cw_refs w)) (worker_spec w)
    \<and> cw_freed w' = cw_freed w @ (if snd (remove_borrower i b (cw_refs w)) then [i] else [])
    \<and> (no_copy w' i \<longleftrightarrow> no_copy w i \<or> snd (remove_borrower i b (cw_refs w)))"
proof -
  obtain c f where c: "remove_borrower i b (cw_refs w) = (c, f)" by fastforce
  have inv: "worker_inv r (w\<lparr>cw_refs := c\<rparr>)" using assms(1) by (simp add: worker_inv_def)
  show ?thesis
    using assms worker_free [OF inv, of i w' q] inv c
    by (cases f) (auto simp: remove_borrower_pin_def drop_if_def worker_spec_def no_copy_def)
qed

lemma worker_quiet_step:
  assumes "worker_inv r w" and "cw_ok (spill_inv r) spill_quiet w'" and "same_index w w'"
    and "worker_value w' = worker_value w"
  shows "worker_inv r w' \<and> worker_spec w' = worker_spec w"
  using assms same_indexD [OF assms(3)] by (simp add: worker_inv_def worker_spec_def)

lemma core_step_refines:
  assumes inv: "worker_inv r w" and d: "op_data_ok op" and step: "core_step op w = (w', out)"
  shows "worker_inv r w' \<and> core_spec_allows op out (worker_spec w) \<and>
    core_spec_step op out (worker_spec w) = worker_spec w'"
  supply core_spec_defs [simp]
proof (cases op)
  case (DoSeal i md d)
  obtain q where q: "seal_value i md d w = (w', q)" "out = OutSealed (is_ok q)"
    using step DoSeal by (auto split: prod.splits)
  show ?thesis
    using seal_value_result [OF worker_inv_ok [OF inv] _ q(1), of "mgr_held fs_content"] q(2) inv d DoSeal
    by (auto simp: worker_inv_def worker_spec_def)
next
  case (DoSealPlasma i md d)
  obtain q where q: "seal_value_to_plasma manager_hook i md d w = (w', q)" "out = OutSealed (is_ok q)"
    using step DoSealPlasma by (auto split: prod.splits)
  show ?thesis
    using localfs.hook.seal_value_to_plasma_result [OF worker_inv_ok [OF inv] _ q(1) [unfolded manager_hook_eq]]
      q(2) inv d DoSealPlasma
    by (auto simp: worker_inv_def worker_spec_def)
next
  case (DoResolve i)
  obtain q where q: "resolve_now manager_hook i w = (w', q)" "out = OutResolved q"
    using step DoResolve by (auto split: prod.splits)
  note k = localfs.hook.resolve_now_result [OF worker_inv_ok [OF inv] q(1) [unfolded manager_hook_eq]]
  then show ?thesis
    using worker_quiet_step [OF inv] q(2) DoResolve answers_weaken
    by (auto simp: worker_spec_def)
next
  case (DoSpill i)
  obtain q where q: "spill_to_recoverer manager_hook i w = (w', q)" "out = OutNone"
    using step DoSpill by (metis core_step.simps(4) fst_conv prod.collapse snd_conv)
  note k = localfs.hook.spill_to_recoverer_keeps [OF worker_inv_ok [OF inv] q(1) [unfolded manager_hook_eq]]
  then show ?thesis
    using worker_quiet_step [OF inv, of w'] q(2) DoSpill value_of_same_index
    by (cases "worker_spec w") auto
next
  case DoPressure
  obtain k where k: "maybe_spill_for_pressure manager_hook w = (w', k)" "out = OutNone"
    using step DoPressure by (metis core_step.simps(5) fst_conv prod.collapse snd_conv)
  note m = localfs.hook.maybe_spill_keeps [OF worker_inv_ok [OF inv] k(1) [unfolded manager_hook_eq]]
  then show ?thesis
    using worker_quiet_step [OF inv m(1,2,4)] k(2) DoPressure by (cases "worker_spec w") auto
next
  case (DoInc i)
  then show ?thesis
    using step inv by (auto simp: inc_local_ref_def worker_inv_def worker_spec_def split: prod.splits)
next
  case (DoDec i)
  then show ?thesis
    using step worker_dec [OF inv, of i] by (auto simp: worker_spec_def split: prod.splits)
next
  case (DoAddBorrower i b)
  then show ?thesis
    using step inv by (auto simp: add_borrower_pin_def worker_inv_def worker_spec_def)
next
  case (DoRemoveBorrower i b)
  then show ?thesis
    using step worker_remove_borrower [OF inv, of i b] by (auto simp: worker_spec_def split: prod.splits)
next
  case (DoEvict i)
  obtain q where q: "evict_local i w = (w', q)" "out = OutUnit q"
    using step DoEvict by (auto split: prod.splits)
  show ?thesis
    using evict_local_result [OF worker_inv_ok [OF inv] q(1), of "mgr_held fs_content"] q(2) DoEvict inv
    by (auto simp: worker_inv_def worker_spec_def)
next
  case DoFreeAll
  then show ?thesis
    using step free_all_local_result [OF worker_inv_ok [OF inv], of "mgr_held fs_content"] inv
    by (auto simp: worker_inv_def worker_spec_def fun_eq_iff)
qed

lemma core_run_refines:
  "worker_inv r w \<Longrightarrow> list_all op_data_ok ops \<Longrightarrow>
     core_spec_run ops (snd (core_run ops w)) (worker_spec w) \<and> worker_inv r (fst (core_run ops w))"
proof (induction ops arbitrary: w)
  case (Cons op ops)
  obtain w1 out where s: "core_step op w = (w1, out)" by fastforce
  have st: "worker_inv r w1" "core_spec_allows op out (worker_spec w)"
    "core_spec_step op out (worker_spec w) = worker_spec w1"
    using core_step_refines [OF Cons.prems(1) _ s] Cons.prems(2) by auto
  obtain w2 outs where r: "core_run ops w1 = (w2, outs)" by fastforce
  have "core_spec_run ops outs (worker_spec w1)" "worker_inv r w2"
    using Cons.IH [OF st(1)] Cons.prems(2) r by auto
  then show ?case
    by (simp add: s r st)
qed simp

section \<open>Releases\<close>

text \<open>The two releasing methods of the worker, over the releases of the counter they use.\<close>

fun core_release :: "ObjectId \<Rightarrow> Release \<Rightarrow> fs_manager CoreWorker \<Rightarrow> fs_manager CoreWorker" where
  "core_release i RelLocal w = fst (dec_local_ref i w)"
| "core_release i (RelBorrower b) w = fst (remove_borrower_pin i b w)"
| "core_release i RelSubmitDep w = w"

lemma core_release_step:
  assumes "worker_inv r w" and "rel \<noteq> RelSubmitDep"
  shows "worker_inv r (core_release i rel w) \<and>
    worker_spec (core_release i rel w) = drop_if i (release i rel (cw_refs w)) (worker_spec w) \<and>
    cw_freed (core_release i rel w) = cw_freed w @ (if snd (release i rel (cw_refs w)) then [i] else []) \<and>
    (no_copy (core_release i rel w) i \<longleftrightarrow> no_copy w i \<or> snd (release i rel (cw_refs w)))"
proof (cases rel)
  case RelLocal
  obtain w' q where "dec_local_ref i w = (w', q)" by fastforce
  with RelLocal worker_dec [OF assms(1) this] show ?thesis by simp
next
  case (RelBorrower b)
  obtain w' q where "remove_borrower_pin i b w = (w', q)" by fastforce
  with RelBorrower worker_remove_borrower [OF assms(1) this] show ?thesis by simp
next
  case RelSubmitDep
  then show ?thesis using assms(2) by simp
qed

lemma core_releases:
  fixes i :: ObjectId
  assumes "worker_inv r w" and "RelSubmitDep \<notin> set rs"
  defines "w' \<equiv> fold (core_release i) rs w"
  defines "run \<equiv> run_flags (release i) rs (cw_refs w)"
  shows "worker_inv r w' \<and> cw_refs w' = fst run \<and>
    cw_freed w' = cw_freed w @ replicate (count_list (snd run) True) i \<and>
    worker_value w' = (if True \<in> set (snd run) then (worker_value w)(i := None) else worker_value w) \<and>
    (no_copy w' i \<longleftrightarrow> no_copy w i \<or> True \<in> set (snd run))"
  using assms(1,2) unfolding w'_def run_def
proof (induction rs arbitrary: w)
  case (Cons rel rs)
  let ?w = "core_release i rel w" and ?f = "snd (release i rel (cw_refs w))"
  have s: "worker_inv r ?w" "cw_refs ?w = fst (release i rel (cw_refs w))"
    "worker_value ?w = (if ?f then (worker_value w)(i := None) else worker_value w)"
    "cw_freed ?w = cw_freed w @ (if ?f then [i] else [])" "no_copy ?w i \<longleftrightarrow> no_copy w i \<or> ?f"
    using core_release_step [OF Cons.prems(1), of rel i] Cons.prems(2)
    by (auto simp: worker_spec_def drop_if_def)
  note IH = Cons.IH [OF s(1)]
  show ?case
    using IH s(2-5) Cons.prems(2) by (auto simp: split_beta)
qed simp

section \<open>Task ids\<close>

fun mint :: "nat \<Rightarrow> 'r CoreWorker \<Rightarrow> TaskId list" where
  "mint 0 w = []"
| "mint (Suc n) w = (case next_task_id w of (w', t) \<Rightarrow> t # mint n w')"

lemma mint_eq:
  "mint n w = map (\<lambda>k. TaskId (JobId_bytes (cw_job_id w)
     @ u64_to_le_bytes (cw_next_task_counter w + 1 + of_nat k))) [0..<n]"
proof (induction n arbitrary: w)
  case (Suc n)
  have *: "[0..<Suc n] = 0 # map Suc [0..<n]"
    by (simp only: upt_conv_Cons [OF zero_less_Suc] map_Suc_upt)
  show ?case
    unfolding * by (simp add: next_task_id_def Suc.IH Let_def add.assoc)
qed simp

lemma of_nat_u64_inj: "a < 2 ^ 64 \<Longrightarrow> b < 2 ^ 64 \<Longrightarrow> (of_nat a :: u64) = of_nat b \<Longrightarrow> a = b"
  by (drule arg_cong [of _ _ unat]) (simp only: unat_of_nat_u64)

section \<open>The arena under spilling\<close>

definition worker_arena :: "'r CoreWorker \<Rightarrow> Arena option" where
  "worker_arena w = map_option (\<lambda>st. arena (snd st)) (cw_plasma w)"

lemma get_bytes_arena: "arena (snd (fst (client_get_bytes direct_exchange oid st))) = arena (snd st)"
  by (cases st) (simp add: get_bytes_keeps)

lemma delete_arena: "arena (snd (fst (client_delete direct_exchange oid st))) = arena (snd st)"
  by (cases st) (simp add: delete_keeps)

lemma worker_arena_simps [simp]:
  "worker_arena (w\<lparr>cw_plasma := Some st\<rparr>) = Some (arena (snd st))"
  "worker_arena (w\<lparr>cw_recoverer := x\<rparr>) = worker_arena w"
  by (simp_all add: worker_arena_def)

lemma plasma_delete_arena: "worker_arena (fst (plasma_delete i w)) = worker_arena w"
proof (cases "cw_plasma w")
  case (Some st)
  then show ?thesis
    using delete_arena [of "ObjectId_bytes i" st]
    by (auto simp: plasma_delete_def worker_arena_def split: prod.split sum.split)
qed (simp add: plasma_delete_def)

lemma spill_to_recoverer_arena: "worker_arena (fst (spill_to_recoverer h i w)) = worker_arena w"
proof (cases "cw_recoverer w")
  case r: (Some r)
  show ?thesis
  proof (cases "cw_plasma w")
    case (Some st)
    obtain st1 q where g: "client_get_bytes direct_exchange (ObjectId_bytes i) st = (st1, q)" by fastforce
    have a: "arena (snd st1) = arena (snd st)"
      using get_bytes_arena [of "ObjectId_bytes i" st] g by simp
    then have w1: "worker_arena (w\<lparr>cw_plasma := Some st1\<rparr>) = worker_arena w"
      using Some by (simp add: worker_arena_def)
    show ?thesis
    proof (cases q)
      case (Inl e)
      then show ?thesis using r Some g w1 by (simp add: spill_to_recoverer_def)
    next
      case (Inr x)
      obtain md d where x: "x = (md, d)" by fastforce
      obtain r1 s where s: "hook_store h i md d r = (r1, s)" by fastforce
      have "worker_arena (fst (plasma_delete i (w\<lparr>cw_plasma := Some st1, cw_recoverer := Some r1\<rparr>))) = worker_arena w"
        using plasma_delete_arena [of i "w\<lparr>cw_plasma := Some st1, cw_recoverer := Some r1\<rparr>"] w1
        by simp
      then show ?thesis
        using r Some g Inr x s w1
        by (auto simp: spill_to_recoverer_def Let_def split: sum.split RecoveryError.split prod.split)
    qed
  qed (simp add: spill_to_recoverer_def r)
qed (simp add: spill_to_recoverer_def)

lemma spill_loop_arena: "worker_arena (fst (spill_loop h limit es current n w)) = worker_arena w"
proof (induction es arbitrary: current n w)
  case (Cons e es)
  obtain i idx where e: "e = (i, idx)" by fastforce
  obtain w1 q where q: "spill_to_recoverer h i w = (w1, q)" by fastforce
  then have "worker_arena w1 = worker_arena w"
    using spill_to_recoverer_arena [of h i w] by simp
  then show ?case
    by (simp add: e q Cons.IH split: sum.split bool.split)
qed simp

section \<open>Properties\<close>

definition example_worker :: "fs_manager CoreWorker" where
  "example_worker =
     wire_manager (LocalObjectManager_new example_backend)
       ((new_local 16 (\<lambda>bs. hex_lower bs) (WorkerId (replicate 16 1)) (JobId (replicate 16 2)))
          \<lparr>cw_plasma := Some example_conn\<rparr>)"

lemma example_worker_simps [simp]:
  "cw_plasma example_worker = Some example_conn"
  "cw_recoverer example_worker = Some (LocalObjectManager_new example_backend)"
  "cw_free_callback example_worker = Some forget_on_free"
  "cw_refs example_worker = []" "cw_store example_worker = MemoryStore_new 16"
  "cw_freed example_worker = []"
  by (simp_all add: example_worker_def wire_manager_def set_recoverer_def set_free_callback_def
      new_local_def CoreWorker_new_def RefCounter_new_def)

lemma example_worker_inv: "worker_inv example_root example_worker"
  using example_conn_inv example_backend_good
  by (simp add: worker_inv_def cw_ok_def mgr_good_def)

text \<open>C5. A worker is a map from ids to values with a reference counter.  In every run of seals,
  resolves, spills, pressure spills, pin changes, evictions and the final drain, a resolve answers with the
  metadata and bytes of the last successful seal that was not freed or evicted since, whether the object
  is inline, in plasma or spilled (or reports that plasma has no room to take a spilled object back);
  a value is dropped exactly when the counter reports the last release.\<close>

theorem worker_refines_value_map:
  assumes "worker_inv r w" and "list_all op_data_ok ops"
  shows "core_spec_run ops (snd (core_run ops w)) (worker_value w, cw_refs w)"
  using core_run_refines [OF assms] by (simp add: worker_spec_def)

theorem worker_refines_value_map_witness:
  "core_spec_run
     [DoSealPlasma (ObjectId [1]) Raw [9, 8], DoSpill (ObjectId [1]), DoResolve (ObjectId [1]), DoDec (ObjectId [1])]
     (snd (core_run
        [DoSealPlasma (ObjectId [1]) Raw [9, 8], DoSpill (ObjectId [1]), DoResolve (ObjectId [1]), DoDec (ObjectId [1])]
        example_worker))
     (worker_value example_worker, cw_refs example_worker)"
  by (rule worker_refines_value_map [OF example_worker_inv]) (simp add: rust_slice_def)



text \<open>Spilling under pressure brings the bytes that stay in plasma below the configured threshold:
  whenever the hook can write, every indexed entry is sealed or gone, and the sizes of the index sum to a
  \<open>u64\<close>, the entries still in plasma afterwards add up to at most the threshold.\<close>

lemma pressure_spill_reaches_threshold:
  assumes "worker_inv r w" and "cw_recoverer w = Some m" and "fs_writable (backend m)"
    and "all_spillable w (plasma_entries (cw_store w))"
    and "indexed_bytes (plasma_entries (cw_store w)) < 2 ^ 64"
    and "maybe_spill_for_pressure manager_hook w = (w', k)"
  shows "resident_bytes w' (plasma_entries (cw_store w')) \<le> unat (threshold_bytes (cw_spill_policy w))"
proof -
  let ?es = "plasma_entries (cw_store w)" and ?limit = "threshold_bytes (cw_spill_policy w)"
  let ?c = "sum_list (map (\<lambda>(i, idx). idx_data_size idx) ?es)"
  have c: "unat ?c = indexed_bytes ?es" by (rule sum_of_sizes [OF assms(5)])
  have "same_index w w'"
    by (rule localfs.hook.maybe_spill_keeps(2) [OF worker_inv_ok [OF assms(1)] assms(6) [unfolded manager_hook_eq]])
  then have st: "cw_store w' = cw_store w" by (rule same_indexD)
  show ?thesis
  proof (cases "?limit = - 1 \<or> ?c \<le> ?limit")
    case True
    have "indexed_bytes ?es \<le> unat ?limit"
    proof (cases "?limit = - 1")
      case True
      then show ?thesis
        using assms(5) by (simp add: unsigned_minus_1_eq_mask mask_eq_exp_minus_1)
    next
      case False
      with True have "?c \<le> ?limit" by simp
      then show ?thesis using c by (simp add: word_le_nat_alt)
    qed
    moreover have "w' = w"
      using True assms(6) by (auto simp: maybe_spill_for_pressure_def Let_def split: if_splits)
    ultimately show ?thesis
      using resident_le_indexed [of w ?es] by simp
  next
    case False
    then have "spill_loop manager_hook ?limit ?es ?c 0 w = (w', k)"
      using assms(6) by (auto simp: maybe_spill_for_pressure_def Let_def split: if_splits)
    then show ?thesis
      using localfs.hook.spill_loop_bound [OF worker_inv_ok [OF assms(1)] assms(2,3,4) c] st
      by (simp add: manager_hook_eq)
  qed
qed

lemma pressure_spill_reaches_threshold_witness:
  "resident_bytes (fst (maybe_spill_for_pressure manager_hook example_worker))
     (plasma_entries (cw_store (fst (maybe_spill_for_pressure manager_hook example_worker))))
   \<le> unat (threshold_bytes (cw_spill_policy example_worker))"
proof -
  obtain w' k where w': "maybe_spill_for_pressure manager_hook example_worker = (w', k)" by fastforce
  have "fs_writable (backend (LocalObjectManager_new example_backend))"
    by (simp add: fs_writable_def LocalObjectManager_new_def example_backend_def)
  moreover have es: "plasma_entries (cw_store example_worker) = []"
    by (simp add: MemoryStore_new_def plasma_entries_def List.map_filter_def)
  ultimately show ?thesis
    using pressure_spill_reaches_threshold [OF example_worker_inv _ _ _ _ w'] w'
    by (simp add: all_spillable_def indexed_bytes_def)
qed

text \<open>Spilling gives no memory back: whatever \<open>maybe_spill_for_pressure\<close> spills, the arena of the
  plasma server, its bump pointer included, is exactly what it was, so an allocation that failed before the
  spill fails after it.\<close>

lemma pressure_spill_frees_no_arena:
  "worker_arena (fst (maybe_spill_for_pressure h w)) = worker_arena w"
  by (simp add: maybe_spill_for_pressure_def Let_def spill_loop_arena)

text \<open>Task ids minted by one worker do not repeat within \<open>2 ^ 64\<close> calls, and each is the job id
  followed by eight bytes.\<close>

lemma task_ids_are_fresh:
  assumes "n \<le> 2 ^ 64"
  shows "distinct (mint n w) \<and> length (mint n w) = n \<and>
    (\<forall>t \<in> set (mint n w). \<exists>c. length c = 8 \<and> TaskId_bytes t = JobId_bytes (cw_job_id w) @ c)"
proof -
  have "inj_on (\<lambda>k. TaskId (JobId_bytes (cw_job_id w)
      @ u64_to_le_bytes (cw_next_task_counter w + 1 + of_nat k))) {0..<n}"
  proof (rule inj_onI)
    fix a b
    assume "a \<in> {0..<n}" "b \<in> {0..<n}" and "TaskId (JobId_bytes (cw_job_id w)
        @ u64_to_le_bytes (cw_next_task_counter w + 1 + of_nat a))
      = TaskId (JobId_bytes (cw_job_id w) @ u64_to_le_bytes (cw_next_task_counter w + 1 + of_nat b))"
    then have "(of_nat a :: u64) = of_nat b" "a < 2 ^ 64" "b < 2 ^ 64"
      using assms by (auto dest: u64_to_le_inj)
    then show "a = b" by (intro of_nat_u64_inj)
  qed
  then show ?thesis
    by (auto simp: mint_eq distinct_map)
qed

lemma task_ids_are_fresh_witness:
  "distinct (mint 3 example_worker) \<and> length (mint 3 example_worker) = 3"
  using task_ids_are_fresh [of 3 example_worker] by simp

lemma f64_one_clamped: "f64_clamp f64_one f64_MIN_POSITIVE f64_one = f64_one"
  by (simp add: f64_clamp_def f64_one_def f64_MIN_POSITIVE_def)

lemma mul_rounded_max: "f64_as_u64 (f64_mul (u64_as_f64 (- 1)) f64_one) = - 1"
proof -
  have "unat (- 1 :: u64) = 18446744073709551615"
    by (simp add: unsigned_minus_1_eq_mask mask_eq_exp_minus_1)
  then have "u64_as_f64 (- 1) = F64 9007199254740992 11"
    by (simp add: u64_as_f64_def f64_round_def round_53_u64_max)
  then show ?thesis
    by (simp add: f64_one_def f64_round_def round_53_power)
qed

lemma mul_rounded_near: "f64_as_u64 (f64_mul (u64_as_f64 9007199254740995) f64_one) = 9007199254740996"
  by (simp add: u64_as_f64_def f64_round_def round_53_above f64_one_def round_53_small)

lemma mul_NaN: "f64_as_u64 (f64_mul x F64_NaN) = 0"
  by (cases x) simp_all

text \<open>The spill threshold at its edges.  A budget of \<open>u64::MAX\<close> with ratio 1 disables spilling; a
  ratio that is not a number is not clamped and makes the threshold 0; and with ratio 1 the threshold can
  exceed the budget, because the budget is rounded to a double first.\<close>

lemma spill_threshold_edge_cases:
  "maybe_spill_for_pressure h (set_spill_policy (- 1) f64_one w) = (set_spill_policy (- 1) f64_one w, 0)
   \<and> threshold_bytes (cw_spill_policy (set_spill_policy b F64_NaN w)) = 0
   \<and> threshold_bytes (cw_spill_policy (set_spill_policy (2 ^ 53 + 3) f64_one w)) = 2 ^ 53 + 4"
  by (simp add: maybe_spill_for_pressure_def set_spill_policy_def threshold_bytes_def clamp_keeps_NaN
      f64_one_clamped Let_def mul_rounded_max mul_rounded_near mul_NaN)

end
