(* ===== verification/Gcs_Nodes.thy ===== *)
theory Gcs_Nodes
imports Rayd_Prelude
begin

text \<open>
  The node registry of the global control store: \<open>rayd-gcs/src/service.rs\<close>, with the sweeper of
  \<open>server.rs\<close>.  A handler is one function on the registry record; random ids and the clock are arguments.
  \<open>event_tx\<close> is the history of everything sent on the broadcast channel; what a subscriber receives from it
  is the channel's (tokio's) business, and is an argument of the watch stream.
\<close>

section \<open>Messages\<close>

datatype Code = InvalidArgument | CodeNotFound | CodeAlreadyExists | FailedPrecondition | OutOfRange | Unavailable | CodeInternal

datatype GrpcStatus = GrpcStatus (status_code: Code) (status_message: bytes)

datatype NodeStatus = Unspecified | Alive | Draining | Dead

fun as_i32 :: "NodeStatus \<Rightarrow> int" where
  "as_i32 Unspecified = 0"
| "as_i32 Alive = 1"
| "as_i32 Draining = 2"
| "as_i32 Dead = 3"

text \<open>\<open>NodeStatus::try_from(i).unwrap_or(NodeStatus::Unspecified)\<close>.\<close>

definition status_of_i32 :: "int \<Rightarrow> NodeStatus" where
  "status_of_i32 i = (if i = 1 then Alive else if i = 2 then Draining else if i = 3 then Dead else Unspecified)"

record NodeAddress =
  addr_host :: bytes
  addr_port :: u32
  addr_node_id :: bytes
  addr_plasma_socket :: bytes

record Resources =
  num_cpus :: u32
  num_gpus :: u32
  memory_bytes :: u64

record NodeInfo =
  ni_address :: "NodeAddress option"
  ni_resources :: "Resources option"
  ni_status :: int
  ni_registered_at :: u64
  ni_last_heartbeat :: u64

record NodeEvent =
  ev_sequence :: u64
  ev_node :: "NodeInfo option"

text \<open>Counters and gauges of the metrics bag; an \<open>IntGauge\<close> is signed.\<close>

record NodeMetrics =
  register_node_total :: nat
  heartbeat_received_total :: nat
  nodes_alive :: int
  nodes_total :: int
  watch_events_published_total :: nat

definition REPLAY_BUFFER_CAPACITY :: nat where
  "REPLAY_BUFFER_CAPACITY = 1024"

record Registry =
  nodes :: "(bytes, NodeInfo) hmap"
  cluster_session_id :: bytes
  event_tx :: "NodeEvent list"
  replay_buffer :: "NodeEvent list"
  next_sequence :: u64
  node_metrics :: "NodeMetrics option"

definition Registry_new :: "bytes \<Rightarrow> NodeMetrics option \<Rightarrow> Registry" where
  "Registry_new session_id ms =
     \<lparr>nodes = [], cluster_session_id = session_id, event_tx = [], replay_buffer = [],
      next_sequence = 1, node_metrics = ms\<rparr>"

definition NodeMetrics_new :: NodeMetrics where
  "NodeMetrics_new =
     \<lparr>register_node_total = 0, heartbeat_received_total = 0, nodes_alive = 0, nodes_total = 0,
      watch_events_published_total = 0\<rparr>"

section \<open>Registry\<close>

definition registry_snapshot :: "Registry \<Rightarrow> NodeInfo list" where
  "registry_snapshot r = map snd (nodes r)"

definition registry_len :: "Registry \<Rightarrow> nat" where
  "registry_len r = length (nodes r)"

definition publish :: "NodeInfo \<Rightarrow> Registry \<Rightarrow> Registry" where
  "publish node r =
     (let event = \<lparr>ev_sequence = next_sequence r, ev_node = Some node\<rparr>;
          buf = (if length (replay_buffer r) = REPLAY_BUFFER_CAPACITY
                 then tl (replay_buffer r) else replay_buffer r)
      in r\<lparr>next_sequence := next_sequence r + 1, replay_buffer := buf @ [event],
           event_tx := event_tx r @ [event]\<rparr>)"

definition oldest_buffered_sequence :: "Registry \<Rightarrow> u64 option" where
  "oldest_buffered_sequence r =
     (case replay_buffer r of [] \<Rightarrow> None | e # _ \<Rightarrow> Some (ev_sequence e))"

definition buffered_after :: "u64 \<Rightarrow> Registry \<Rightarrow> NodeEvent list" where
  "buffered_after after_sequence r = filter (\<lambda>e. after_sequence < ev_sequence e) (replay_buffer r)"

definition with_metrics :: "(NodeMetrics \<Rightarrow> NodeMetrics) \<Rightarrow> Registry \<Rightarrow> Registry" where
  "with_metrics f r = r\<lparr>node_metrics := map_option f (node_metrics r)\<rparr>"

definition is_stale :: "u64 \<Rightarrow> NodeInfo \<Rightarrow> bool" where
  "is_stale deadline_ms info \<longleftrightarrow> ni_status info = as_i32 Alive \<and> ni_last_heartbeat info < deadline_ms"

definition mark_dead :: "NodeInfo \<Rightarrow> NodeInfo" where
  "mark_dead info = info\<lparr>ni_status := as_i32 Dead\<rparr>"

definition expire_stale :: "u64 \<Rightarrow> Registry \<Rightarrow> Registry \<times> nat" where
  "expire_stale deadline_ms r =
     (let flipped = map mark_dead (filter (is_stale deadline_ms) (map snd (nodes r)));
          r1 = r\<lparr>nodes := map (\<lambda>(k, info). (k, if is_stale deadline_ms info then mark_dead info else info))
                            (nodes r)\<rparr>;
          r2 = with_metrics (\<lambda>m. m\<lparr>nodes_alive := nodes_alive m - int (length flipped),
                 watch_events_published_total := watch_events_published_total m + length flipped\<rparr>) r1
      in (fold publish flipped r2, length flipped))"

text \<open>One tick of the sweeper.\<close>

definition sweep_tick :: "u64 \<Rightarrow> u64 \<Rightarrow> Registry \<Rightarrow> Registry \<times> nat" where
  "sweep_tick now_ms timeout_ms r = expire_stale (saturating_sub now_ms timeout_ms) r"

text \<open>
  The sweeper over what it observes: \<open>Some now\<close> is a tick of the interval, \<open>None\<close> the shutdown signal.  The
  configured timeout is in milliseconds and saturates.
\<close>

definition timeout_ms :: "nat \<Rightarrow> u64" where
  "timeout_ms heartbeat_timeout = (if heartbeat_timeout < 2 ^ 64 then of_nat heartbeat_timeout else - 1)"

fun run_sweeper :: "nat \<Rightarrow> u64 option list \<Rightarrow> Registry \<Rightarrow> Registry \<times> bool" where
  "run_sweeper heartbeat_timeout [] r = (r, False)"
| "run_sweeper heartbeat_timeout (None # _) r = (r, True)"
| "run_sweeper heartbeat_timeout (Some now # obs) r =
     run_sweeper heartbeat_timeout obs (fst (sweep_tick now (timeout_ms heartbeat_timeout) r))"

section \<open>Handlers\<close>

record RegisterRequest =
  rr_host :: bytes
  rr_port :: u32
  rr_plasma_socket :: bytes
  rr_resources :: "Resources option"

record RegisterReply =
  reply_node_id :: bytes
  reply_session_id :: bytes

definition register_node ::
  "bytes \<Rightarrow> u64 \<Rightarrow> RegisterRequest \<Rightarrow> Registry \<Rightarrow> Registry \<times> (GrpcStatus, RegisterReply) result" where
  "register_node node_id now_ms req r =
     (if rr_host req = [] then (r, Inl (GrpcStatus InvalidArgument (ascii ''host must not be empty'')))
      else
        (let info = \<lparr>ni_address = Some \<lparr>addr_host = rr_host req, addr_port = rr_port req,
                       addr_node_id = node_id, addr_plasma_socket = rr_plasma_socket req\<rparr>,
                     ni_resources = rr_resources req, ni_status = as_i32 Alive,
                     ni_registered_at = now_ms, ni_last_heartbeat = now_ms\<rparr>;
             r1 = r\<lparr>nodes := hm_insert node_id info (nodes r)\<rparr>;
             r2 = with_metrics (\<lambda>m. m\<lparr>register_node_total := register_node_total m + 1,
                    nodes_alive := nodes_alive m + 1, nodes_total := nodes_total m + 1,
                    watch_events_published_total := watch_events_published_total m + 1\<rparr>) r1
         in (publish info r2,
             Inr \<lparr>reply_node_id = node_id, reply_session_id = cluster_session_id r\<rparr>)))"

definition parse_node_id :: "bytes \<Rightarrow> (GrpcStatus, bytes) result" where
  "parse_node_id bs =
     (if length bs \<noteq> 16
      then Inl (GrpcStatus InvalidArgument
             (ascii ''node_id must be 16 bytes, got '' @ dec_digits (length bs)))
      else Inr bs)"

definition drain :: "bytes \<Rightarrow> Registry \<Rightarrow> Registry \<times> (GrpcStatus, unit) result" where
  "drain raw_id r =
     (case parse_node_id raw_id of
        Inl e \<Rightarrow> (r, Inl e)
      | Inr node_id \<Rightarrow>
          (case hm_get (nodes r) node_id of
             None \<Rightarrow> (r, Inl (GrpcStatus CodeNotFound (ascii ''unknown node_id'')))
           | Some info \<Rightarrow>
               (let was_alive = (ni_status info = as_i32 Alive);
                    info' = info\<lparr>ni_status := as_i32 Draining\<rparr>;
                    r1 = r\<lparr>nodes := hm_insert node_id info' (nodes r)\<rparr>;
                    r2 = (if was_alive then with_metrics (\<lambda>m. m\<lparr>nodes_alive := nodes_alive m - 1\<rparr>) r1 else r1);
                    r3 = with_metrics (\<lambda>m. m\<lparr>watch_events_published_total :=
                           watch_events_published_total m + 1\<rparr>) r2
                in (publish info' r3, Inr ()))))"

definition heartbeat :: "bytes \<Rightarrow> u64 \<Rightarrow> Registry \<Rightarrow> Registry \<times> (GrpcStatus, unit) result" where
  "heartbeat raw_id now_ms r =
     (case parse_node_id raw_id of
        Inl e \<Rightarrow> (r, Inl e)
      | Inr node_id \<Rightarrow>
          (case hm_get (nodes r) node_id of
             None \<Rightarrow> (r, Inl (GrpcStatus CodeNotFound (ascii ''unknown node_id'')))
           | Some info \<Rightarrow>
               (with_metrics (\<lambda>m. m\<lparr>heartbeat_received_total := heartbeat_received_total m + 1\<rparr>)
                  (r\<lparr>nodes := hm_insert node_id (info\<lparr>ni_last_heartbeat := now_ms\<rparr>) (nodes r)\<rparr>),
                Inr ())))"

definition list_nodes :: "Registry \<Rightarrow> NodeInfo list" where
  "list_nodes r = registry_snapshot r"

section \<open>The watch stream\<close>

definition snapshot_as_events :: "Registry \<Rightarrow> NodeEvent list" where
  "snapshot_as_events r =
     map (\<lambda>node. \<lparr>ev_sequence = 0, ev_node = Some node\<rparr>) (registry_snapshot r)"

text \<open>
  The buffer is read under its lock twice, for the floor (in \<open>r1\<close>) and for the batch (in \<open>r2\<close>); publishes may
  come in between.  \<open>last_seen + 1\<close> wraps, as in a release build.
\<close>

definition watch_catchup :: "u64 \<Rightarrow> Registry \<Rightarrow> Registry \<Rightarrow> (GrpcStatus, NodeEvent list) result" where
  "watch_catchup last_seen r1 r2 =
     (if last_seen = 0 then Inr (snapshot_as_events r1)
      else
        (case oldest_buffered_sequence r1 of
           Some oldest \<Rightarrow>
             if last_seen + 1 < oldest
             then Inl (GrpcStatus OutOfRange
                    (ascii ''last_seen_sequence '' @ dec_digits (unat last_seen)
                     @ ascii '' is older than the buffer floor '' @ dec_digits (unat oldest)))
             else Inr (buffered_after last_seen r2)
         | None \<Rightarrow> Inr (buffered_after last_seen r2)))"

text \<open>What the broadcast receiver yields.\<close>

datatype RecvItem = RecvOk NodeEvent | RecvLagged nat

definition live_item :: "u64 \<Rightarrow> RecvItem \<Rightarrow> (GrpcStatus, NodeEvent) result option" where
  "live_item highest_catchup_seq item =
     (case item of
        RecvOk event \<Rightarrow> if highest_catchup_seq < ev_sequence event then Some (Inr event) else None
      | RecvLagged _ \<Rightarrow>
          Some (Inl (GrpcStatus OutOfRange
            (ascii ''subscriber lagged past broadcast capacity; reconnect with last_seen=0''))))"

definition highest_seq :: "NodeEvent list \<Rightarrow> u64" where
  "highest_seq catchup = (if catchup = [] then 0 else ev_sequence (last catchup))"

text \<open>
  The handler: the receiver is subscribed first, the catch-up batch is taken from the registry after
  that, and \<open>items\<close> is what the receiver yields.
\<close>

definition watch_nodes ::
  "u64 \<Rightarrow> Registry \<Rightarrow> Registry \<Rightarrow> RecvItem list \<Rightarrow>
     (GrpcStatus, (GrpcStatus, NodeEvent) result list) result" where
  "watch_nodes last_seen r1 r2 items =
     (case watch_catchup last_seen r1 r2 of
        Inl e \<Rightarrow> Inl e
      | Inr catchup \<Rightarrow>
          Inr (map Inr catchup @ List.map_filter (live_item (highest_seq catchup)) items))"

section \<open>Executions\<close>

datatype GcsOp =
    GcsRegister bytes u64 RegisterRequest
  | GcsDrain bytes
  | GcsHeartbeat bytes u64
  | GcsSweep u64 u64

fun gcs_step :: "GcsOp \<Rightarrow> Registry \<Rightarrow> Registry" where
  "gcs_step (GcsRegister node_id now req) r = fst (register_node node_id now req r)"
| "gcs_step (GcsDrain raw) r = fst (drain raw r)"
| "gcs_step (GcsHeartbeat raw now) r = fst (heartbeat raw now r)"
| "gcs_step (GcsSweep now timeout) r = fst (sweep_tick now timeout r)"

text \<open>A registration draws a node id that no registered node has.\<close>

fun fresh_id :: "GcsOp \<Rightarrow> Registry \<Rightarrow> bool" where
  "fresh_id (GcsRegister node_id now req) r \<longleftrightarrow> length node_id = 16 \<and> \<not> hm_contains (nodes r) node_id"
| "fresh_id _ r \<longleftrightarrow> True"

inductive gcs_reachable :: "Registry \<Rightarrow> bool" where
  start: "gcs_reachable (Registry_new session ms)" if "ms = None \<or> ms = Some NodeMetrics_new"
| step: "gcs_reachable (gcs_step op r)" if "gcs_reachable r" and "fresh_id op r"

text \<open>Any number of requests and ticks later.\<close>

inductive gcs_later :: "Registry \<Rightarrow> Registry \<Rightarrow> bool" where
  same: "gcs_later r r"
| step: "gcs_later r (gcs_step op r')" if "gcs_later r r'" and "fresh_id op r'"

section \<open>What the log says\<close>

text \<open>The entry that an event carries, and the table that a sequence of events amounts to.\<close>

type_synonym node_table = "bytes \<Rightarrow> (int \<times> NodeAddress) option"

definition put_entry :: "NodeInfo \<Rightarrow> node_table \<Rightarrow> node_table" where
  "put_entry info M =
     (case ni_address info of None \<Rightarrow> M | Some a \<Rightarrow> M(addr_node_id a \<mapsto> (ni_status info, a)))"

definition apply_event :: "NodeEvent \<Rightarrow> node_table \<Rightarrow> node_table" where
  "apply_event e M = (case ev_node e of None \<Rightarrow> M | Some info \<Rightarrow> put_entry info M)"

definition apply_log :: "NodeEvent list \<Rightarrow> node_table \<Rightarrow> node_table" where
  "apply_log evs M = fold apply_event evs M"

definition node_view :: "(bytes, NodeInfo) hmap \<Rightarrow> node_table" where
  "node_view ns k =
     (case hm_get ns k of None \<Rightarrow> None | Some info \<Rightarrow> map_option (\<lambda>a. (ni_status info, a)) (ni_address info))"

definition ids_match :: "(bytes, NodeInfo) hmap \<Rightarrow> bool" where
  "ids_match ns \<longleftrightarrow>
     (\<forall>k info. hm_get ns k = Some info \<longrightarrow>
        length k = 16 \<and> (\<exists>a. ni_address info = Some a \<and> addr_node_id a = k))"

text \<open>The events are numbered from 1 without gaps, and the buffer holds the newest of them.\<close>

definition numbered :: "NodeEvent list \<Rightarrow> bool" where
  "numbered evs \<longleftrightarrow> map ev_sequence evs = map of_nat [1..<Suc (length evs)]"

definition log_inv :: "Registry \<Rightarrow> bool" where
  "log_inv r \<longleftrightarrow>
     numbered (event_tx r) \<and> next_sequence r = of_nat (Suc (length (event_tx r))) \<and>
     replay_buffer r = drop (length (event_tx r) - REPLAY_BUFFER_CAPACITY) (event_tx r)"

definition alive_count :: "(bytes, NodeInfo) hmap \<Rightarrow> nat" where
  "alive_count ns = hm_sum (\<lambda>info. of_bool (ni_status info = as_i32 Alive)) ns"

definition metrics_inv :: "Registry \<Rightarrow> bool" where
  "metrics_inv r \<longleftrightarrow>
     (\<forall>m. node_metrics r = Some m \<longrightarrow>
        nodes_alive m = int (alive_count (nodes r)) \<and> nodes_total m = int (length (nodes r)) \<and>
        watch_events_published_total m = length (event_tx r))"

definition registry_inv :: "Registry \<Rightarrow> bool" where
  "registry_inv r \<longleftrightarrow>
     hm_wf (nodes r) \<and> ids_match (nodes r) \<and> log_inv r \<and> metrics_inv r \<and>
     apply_log (event_tx r) (\<lambda>_. None) = node_view (nodes r)"

section \<open>Lemmas\<close>

lemma publish_simps [simp]:
  "nodes (publish n r) = nodes r" "node_metrics (publish n r) = node_metrics r"
  "event_tx (publish n r) = event_tx r @ [\<lparr>ev_sequence = next_sequence r, ev_node = Some n\<rparr>]"
  "cluster_session_id (publish n r) = cluster_session_id r"
  by (simp_all add: publish_def Let_def)

lemma with_metrics_simps [simp]:
  "nodes (with_metrics f r) = nodes r" "event_tx (with_metrics f r) = event_tx r"
  "replay_buffer (with_metrics f r) = replay_buffer r" "next_sequence (with_metrics f r) = next_sequence r"
  "node_metrics (with_metrics f r) = map_option f (node_metrics r)"
  by (simp_all add: with_metrics_def)

lemma log_inv_cong:
  "event_tx r' = event_tx r \<Longrightarrow> replay_buffer r' = replay_buffer r \<Longrightarrow> next_sequence r' = next_sequence r \<Longrightarrow>
     log_inv r' = log_inv r"
  by (simp add: log_inv_def)

lemma log_inv_publish:
  assumes "log_inv r"
  shows "log_inv (publish n r)"
proof -
  let ?L = "event_tx r" and ?e = "\<lparr>ev_sequence = next_sequence r, ev_node = Some n\<rparr>"
  have "numbered (?L @ [?e])"
    using assms by (simp add: numbered_def log_inv_def)
  moreover have "Suc (length ?L - 1024) = length ?L - 1023" if "length ?L - (length ?L - 1024) = 1024"
    using that by arith
  then have "replay_buffer (publish n r) = drop (Suc (length ?L) - REPLAY_BUFFER_CAPACITY) (?L @ [?e])"
    using assms
    by (auto simp: log_inv_def publish_def Let_def REPLAY_BUFFER_CAPACITY_def drop_Suc tl_drop Suc_diff_le
        simp flip: drop_Suc)
  ultimately show ?thesis
    using assms by (simp add: log_inv_def publish_def Let_def)
qed

lemma log_inv_publishes: "log_inv r \<Longrightarrow> log_inv (fold publish ns r)"
  by (induction ns arbitrary: r) (auto simp: log_inv_publish)

lemma publishes_frame [simp]:
  "nodes (fold publish ns r) = nodes r" "node_metrics (fold publish ns r) = node_metrics r"
  by (induction ns arbitrary: r) auto

lemma publishes_log:
  "\<exists>evs. event_tx (fold publish ns r) = event_tx r @ evs \<and> map ev_node evs = map Some ns"
proof (induction ns arbitrary: r)
  case (Cons n ns)
  obtain evs where "event_tx (fold publish ns (publish n r)) = event_tx (publish n r) @ evs"
      "map ev_node evs = map Some ns"
    using Cons.IH by blast
  then show ?case
    by (intro exI [of _ "\<lparr>ev_sequence = next_sequence r, ev_node = Some n\<rparr> # evs"]) simp
qed simp

lemma apply_log_append [simp]: "apply_log (xs @ ys) M = apply_log ys (apply_log xs M)"
  by (simp add: apply_log_def)

lemma apply_log_Nil [simp]: "apply_log [] M = M"
  by (simp add: apply_log_def)

lemma apply_log_Cons [simp]: "apply_log (e # es) M = apply_log es (apply_event e M)"
  by (simp add: apply_log_def)

lemma apply_log_nodes:
  "map ev_node evs = map Some infos \<Longrightarrow>
     apply_log evs M = fold put_entry infos M"
proof (induction infos arbitrary: evs M)
  case (Cons i infos)
  then obtain e evs' where "evs = e # evs'" "ev_node e = Some i" "map ev_node evs' = map Some infos"
    by (cases evs) auto
  with Cons.IH show ?case
    by (simp add: apply_event_def)
qed simp

lemma node_view_insert [simp]:
  "node_view (hm_insert k info ns) =
     (node_view ns)(k := map_option (\<lambda>a. (ni_status info, a)) (ni_address info))"
  by (simp add: node_view_def fun_eq_iff)

lemma ids_match_get:
  "ids_match ns \<Longrightarrow> hm_get ns k = Some info \<Longrightarrow>
     length k = 16 \<and> (\<exists>a. ni_address info = Some a \<and> addr_node_id a = k)"
  unfolding ids_match_def by blast

lemma ids_match_insert:
  "ids_match ns \<Longrightarrow> length k = 16 \<Longrightarrow> ni_address info = Some a \<Longrightarrow> addr_node_id a = k \<Longrightarrow>
     ids_match (hm_insert k info ns)"
  unfolding ids_match_def by (metis hm_get_insert option.inject)

lemma ids_match_tail: "hm_wf ((i, info) # ns) \<Longrightarrow> ids_match ((i, info) # ns) \<Longrightarrow> ids_match ns"
  unfolding ids_match_def
proof (intro allI impI)
  fix k' info'
  assume wf: "hm_wf ((i, info) # ns)" and m: "\<forall>k inf. hm_get ((i, info) # ns) k = Some inf \<longrightarrow>
      length k = 16 \<and> (\<exists>a. ni_address inf = Some a \<and> addr_node_id a = k)"
    and "hm_get ns k' = Some info'"
  moreover from wf have "hm_get ns i = None" by (auto simp: map_of_eq_None_iff)
  ultimately show "length k' = 16 \<and> (\<exists>a. ni_address info' = Some a \<and> addr_node_id a = k')"
    using m [rule_format, of k' info'] by (cases "k' = i") auto
qed

text \<open>The sweep, on the table.\<close>

definition sweep_nodes :: "u64 \<Rightarrow> (bytes, NodeInfo) hmap \<Rightarrow> (bytes, NodeInfo) hmap" where
  "sweep_nodes deadline ns =
     map (\<lambda>(k, info). (k, if is_stale deadline info then mark_dead info else info)) ns"

definition flipped_nodes :: "u64 \<Rightarrow> (bytes, NodeInfo) hmap \<Rightarrow> NodeInfo list" where
  "flipped_nodes deadline ns = map mark_dead (filter (is_stale deadline) (map snd ns))"

lemma hm_get_sweep:
  "hm_get (sweep_nodes deadline ns) k =
     map_option (\<lambda>info. if is_stale deadline info then mark_dead info else info) (hm_get ns k)"
  by (induction ns) (auto simp: sweep_nodes_def)

lemma keys_sweep [simp]: "hm_keys (sweep_nodes deadline ns) = hm_keys ns"
  by (induction ns) (auto simp: sweep_nodes_def)

lemma mark_dead_address [simp]: "ni_address (mark_dead info) = ni_address info"
  by (simp add: mark_dead_def)

lemma sweep_log:
  assumes "hm_wf ns" and "ids_match ns"
  shows "fold put_entry (flipped_nodes deadline ns) M k =
    (case hm_get ns k of
       Some info \<Rightarrow> if is_stale deadline info then map_option (\<lambda>a. (as_i32 Dead, a)) (ni_address info) else M k
     | None \<Rightarrow> M k)"
  using assms
proof (induction ns arbitrary: M k)
  case Nil
  then show ?case by (simp add: flipped_nodes_def)
next
  case (Cons e ns)
  obtain i info where e: "e = (i, info)" by fastforce
  have fresh: "hm_get ns i = None" and wf: "hm_wf ns"
    using Cons.prems(1) e by (auto simp: map_of_eq_None_iff)
  obtain a where a: "ni_address info = Some a" "addr_node_id a = i"
    using ids_match_get [OF Cons.prems(2), of i info] e by auto
  have "ids_match ns" using ids_match_tail Cons.prems e by blast
  note IH = Cons.IH [OF wf this]
  have h: "put_entry (mark_dead info) M = M(i \<mapsto> (as_i32 Dead, a))"
    using a by (simp add: put_entry_def mark_dead_def)
  have "flipped_nodes deadline (e # ns) =
      (if is_stale deadline info then mark_dead info # flipped_nodes deadline ns else flipped_nodes deadline ns)"
    by (simp add: flipped_nodes_def e)
  then show ?case
    using a fresh by (simp add: IH h e split: option.split)
qed

lemma node_view_sweep:
  assumes "hm_wf ns" and "ids_match ns" and "map ev_node evs = map Some (flipped_nodes deadline ns)"
  shows "apply_log evs (node_view ns) = node_view (sweep_nodes deadline ns)"
proof
  fix k
  show "apply_log evs (node_view ns) k = node_view (sweep_nodes deadline ns) k"
    unfolding apply_log_nodes [OF assms(3)] sweep_log [OF assms(1,2)]
    by (auto simp: node_view_def hm_get_sweep mark_dead_def split: option.split)
qed

lemma alive_sweep:
  "alive_count (sweep_nodes deadline ns) + length (flipped_nodes deadline ns) = alive_count ns"
proof (induction ns)
  case (Cons e ns)
  have "ni_status (snd e) = as_i32 Alive" if "is_stale deadline (snd e)"
    using that by (simp add: is_stale_def)
  then show ?case
    using Cons by (cases "is_stale deadline (snd e)")
      (auto simp: alive_count_def hm_sum_def sweep_nodes_def flipped_nodes_def mark_dead_def split_beta)
qed (simp add: alive_count_def hm_sum_def sweep_nodes_def flipped_nodes_def)

lemma expire_stale_eq:
  "expire_stale deadline r =
     (fold publish (flipped_nodes deadline (nodes r))
        (with_metrics (\<lambda>m. m\<lparr>nodes_alive := nodes_alive m - int (length (flipped_nodes deadline (nodes r))),
           watch_events_published_total :=
             watch_events_published_total m + length (flipped_nodes deadline (nodes r))\<rparr>)
          (r\<lparr>nodes := sweep_nodes deadline (nodes r)\<rparr>)),
      length (flipped_nodes deadline (nodes r)))"
  by (simp add: expire_stale_def flipped_nodes_def sweep_nodes_def Let_def)

section \<open>The invariant\<close>

lemma registry_inv_sweep:
  assumes inv: "registry_inv r"
  shows "registry_inv (fst (expire_stale deadline r))"
proof -
  let ?ns = "nodes r" and ?fl = "flipped_nodes deadline (nodes r)"
  let ?r = "with_metrics (\<lambda>m. m\<lparr>nodes_alive := nodes_alive m - int (length ?fl),
           watch_events_published_total := watch_events_published_total m + length ?fl\<rparr>)
          (r\<lparr>nodes := sweep_nodes deadline ?ns\<rparr>)"
  have i: "hm_wf ?ns" "ids_match ?ns" "log_inv r" "metrics_inv r"
      "apply_log (event_tx r) (\<lambda>_. None) = node_view ?ns"
    using inv by (simp_all add: registry_inv_def)
  obtain evs where evs: "event_tx (fold publish ?fl ?r) = event_tx r @ evs" "map ev_node evs = map Some ?fl"
    using publishes_log [of ?fl ?r] by auto
  have len: "length evs = length ?fl"
    using arg_cong [OF evs(2), of length] by simp
  have "log_inv ?r" using i(3) by (simp add: log_inv_def)
  then have "log_inv (fold publish ?fl ?r)" by (rule log_inv_publishes)
  moreover have "ids_match (sweep_nodes deadline ?ns)"
    using i(2) by (auto simp: ids_match_def hm_get_sweep split: if_splits)
  moreover have "metrics_inv (fold publish ?fl ?r)"
  proof -
    have "int (alive_count ?ns) - int (length ?fl) = int (alive_count (sweep_nodes deadline ?ns))"
      using alive_sweep [of deadline ?ns] by linarith
    moreover have "length (sweep_nodes deadline ?ns) = length ?ns"
      by (simp add: sweep_nodes_def)
    ultimately show ?thesis
      using i(4) evs(1) len by (auto simp: metrics_inv_def)
  qed
  ultimately show ?thesis
    using i(1,5) evs node_view_sweep [OF i(1,2) evs(2)]
    by (simp add: expire_stale_eq registry_inv_def)
qed

lemma alive_insert:
  "alive_count (hm_insert k info ns) + (case hm_get ns k of None \<Rightarrow> 0 | Some p \<Rightarrow> of_bool (ni_status p = as_i32 Alive))
     = alive_count ns + of_bool (ni_status info = as_i32 Alive)"
  unfolding alive_count_def by (rule hm_sum_insert)

lemma length_insert_new: "hm_get ns k = None \<Longrightarrow> length (hm_insert k v ns) = Suc (length ns)"
  by (induction ns) (auto split: if_splits)

lemma length_insert_old: "hm_get ns k = Some p \<Longrightarrow> length (hm_insert k v ns) = length ns"
  by (induction ns) (auto split: if_splits)

lemma registry_inv_publish:
  assumes "hm_wf (nodes r)" "ids_match (nodes r)" "log_inv r" "metrics_inv (publish info r)"
    and "apply_log (event_tx r) (\<lambda>_. None) = V"
    and "node_view (nodes r) = put_entry info V"
  shows "registry_inv (publish info r)"
  using assms log_inv_publish [OF assms(3), of info] by (simp add: registry_inv_def apply_event_def)

lemma registry_inv_register:
  assumes inv: "registry_inv r" and len: "length node_id = 16" and fresh: "\<not> hm_contains (nodes r) node_id"
  shows "registry_inv (fst (register_node node_id now req r))"
proof (cases "rr_host req = []")
  case True
  then show ?thesis using inv by (simp add: register_node_def)
next
  case False
  note i = inv [unfolded registry_inv_def]
  have none: "hm_get (nodes r) node_id = None" using fresh by (simp add: hm_contains_def)
  define a where "a = \<lparr>addr_host = rr_host req, addr_port = rr_port req,
                       addr_node_id = node_id, addr_plasma_socket = rr_plasma_socket req\<rparr>"
  define info where "info = \<lparr>ni_address = Some a, ni_resources = rr_resources req, ni_status = as_i32 Alive,
                     ni_registered_at = now, ni_last_heartbeat = now\<rparr>"
  define r2 where "r2 = with_metrics (\<lambda>m. m\<lparr>register_node_total := register_node_total m + 1,
                    nodes_alive := nodes_alive m + 1, nodes_total := nodes_total m + 1,
                    watch_events_published_total := watch_events_published_total m + 1\<rparr>)
         (r\<lparr>nodes := hm_insert node_id info (nodes r)\<rparr>)"
  have "registry_inv (publish info r2)"
  proof (rule registry_inv_publish)
    show "ids_match (nodes r2)"
      using i len by (auto simp: r2_def info_def a_def intro!: ids_match_insert)
    show "metrics_inv (publish info r2)"
      using i none alive_insert [of node_id info "nodes r"]
      by (auto simp: metrics_inv_def r2_def length_insert_new info_def)
    show "apply_log (event_tx r2) (\<lambda>_. None) = node_view (nodes r)"
      using i by (simp add: r2_def)
    show "node_view (nodes r2) = put_entry info (node_view (nodes r))"
      by (simp add: r2_def put_entry_def info_def a_def)
  qed (use i in \<open>simp_all add: r2_def log_inv_def\<close>)
  then show ?thesis
    using False by (simp add: register_node_def Let_def r2_def info_def a_def)
qed

lemma parse_node_id_cases:
  obtains (bad) e where "length raw \<noteq> 16" "parse_node_id raw = Inl e"
  | (ok) "length raw = 16" "parse_node_id raw = Inr raw"
  by (cases "length raw = 16") (auto simp: parse_node_id_def)

lemma registry_inv_drain:
  assumes inv: "registry_inv r"
  shows "registry_inv (fst (drain raw r))"
proof (cases raw rule: parse_node_id_cases)
  case bad
  then show ?thesis using inv by (simp add: drain_def)
next
  case ok
  note i = inv [unfolded registry_inv_def]
  show ?thesis
  proof (cases "hm_get (nodes r) raw")
    case None
    then show ?thesis using inv ok by (simp add: drain_def)
  next
    case (Some info)
    then obtain a where a: "ni_address info = Some a" "addr_node_id a = raw"
      using ids_match_get i by blast
    define info' where "info' = info\<lparr>ni_status := as_i32 Draining\<rparr>"
    define r1 where "r1 = r\<lparr>nodes := hm_insert raw info' (nodes r)\<rparr>"
    define r2 where "r2 = (if ni_status info = as_i32 Alive
        then with_metrics (\<lambda>m. m\<lparr>nodes_alive := nodes_alive m - 1\<rparr>) r1 else r1)"
    define r3 where "r3 = with_metrics (\<lambda>m. m\<lparr>watch_events_published_total :=
                           watch_events_published_total m + 1\<rparr>) r2"
    have frame: "nodes r3 = hm_insert raw info' (nodes r)" "event_tx r3 = event_tx r" "log_inv r3 = log_inv r"
      by (simp_all add: r3_def r2_def r1_def log_inv_def)
    have "registry_inv (publish info' r3)"
    proof (rule registry_inv_publish)
      show "ids_match (nodes r3)"
        using i ok a by (auto simp: frame info'_def intro!: ids_match_insert)
      show "metrics_inv (publish info' r3)"
        using i Some alive_insert [of raw info' "nodes r"]
        by (auto simp: metrics_inv_def r3_def r2_def r1_def length_insert_old info'_def split: if_splits)
      show "apply_log (event_tx r3) (\<lambda>_. None) = node_view (nodes r)"
        using i by (simp add: frame)
      show "node_view (nodes r3) = put_entry info' (node_view (nodes r))"
        using a by (simp add: frame put_entry_def info'_def)
    qed (use i in \<open>simp_all add: frame\<close>)
    then show ?thesis
      using ok Some by (simp add: drain_def Let_def r3_def r2_def r1_def info'_def cong: if_cong)
  qed
qed

lemma registry_inv_heartbeat:
  assumes inv: "registry_inv r"
  shows "registry_inv (fst (heartbeat raw now r))"
proof (cases raw rule: parse_node_id_cases)
  case bad
  then show ?thesis using inv by (simp add: heartbeat_def)
next
  case ok
  note i = inv [unfolded registry_inv_def]
  show ?thesis
  proof (cases "hm_get (nodes r) raw")
    case None
    then show ?thesis using inv ok by (simp add: heartbeat_def)
  next
    case (Some info)
    then obtain a where a: "ni_address info = Some a" "addr_node_id a = raw"
      using ids_match_get i by blast
    let ?info = "info\<lparr>ni_last_heartbeat := now\<rparr>"
    have "node_view (hm_insert raw ?info (nodes r)) = node_view (nodes r)"
      using Some by (auto simp: fun_eq_iff node_view_def)
    moreover have "alive_count (hm_insert raw ?info (nodes r)) = alive_count (nodes r)"
      using alive_insert [of raw ?info "nodes r"] Some by simp
    moreover have "ids_match (hm_insert raw ?info (nodes r))"
      using i ok a by (auto intro!: ids_match_insert)
    ultimately show ?thesis
      using i ok Some
      by (auto simp: heartbeat_def registry_inv_def log_inv_def metrics_inv_def length_insert_old)
  qed
qed

lemma registry_inv_new: "ms = None \<or> ms = Some NodeMetrics_new \<Longrightarrow> registry_inv (Registry_new session ms)"
  by (auto simp: registry_inv_def Registry_new_def ids_match_def log_inv_def numbered_def metrics_inv_def
      NodeMetrics_new_def alive_count_def hm_sum_def node_view_def)

lemma registry_inv_step: "registry_inv r \<Longrightarrow> fresh_id op r \<Longrightarrow> registry_inv (gcs_step op r)"
  by (cases op) (auto simp: sweep_tick_def intro: registry_inv_register registry_inv_drain
      registry_inv_heartbeat registry_inv_sweep)

lemma reachable_inv: "gcs_reachable r \<Longrightarrow> registry_inv r"
  by (induction rule: gcs_reachable.induct) (auto intro: registry_inv_new registry_inv_step)

section \<open>Resuming a watch\<close>

lemma numbered_nth:
  assumes "numbered L" "i < length L"
  shows "ev_sequence (L ! i) = of_nat (Suc i)"
proof -
  have "map ev_sequence L ! i = map of_nat [1..<Suc (length L)] ! i"
    using assms by (simp add: numbered_def)
  then show ?thesis using assms(2) by (simp del: upt_Suc)
qed

lemma unat_of_nat64: "n < 2 ^ 64 \<Longrightarrow> unat (of_nat n :: u64) = n"
  by (simp add: unat_of_nat)

lemma unat_numbered:
  "numbered L \<Longrightarrow> i < length L \<Longrightarrow> length L < 2 ^ 64 \<Longrightarrow> unat (ev_sequence (L ! i)) = Suc i"
  by (simp add: numbered_nth unat_of_nat64 del: of_nat_Suc)

lemma filter_numbered:
  assumes "numbered L" "length L < 2 ^ 64" "s \<le> length L"
  shows "filter (\<lambda>e. (of_nat s :: u64) < ev_sequence e) (drop m L) = drop (max s m) L"
proof -
  have s: "unat (of_nat s :: u64) = s" using assms by (simp add: unat_of_nat64)
  have split: "drop m L = take (s - m) (drop m L) @ drop (max s m) L"
    by (metis append_take_drop_id drop_drop add.commute max_def nat_le_linear le_add_diff_inverse2 diff_is_0_eq drop0 add_0)
  have "filter (\<lambda>e. (of_nat s :: u64) < ev_sequence e) (take (s - m) (drop m L)) = []"
    using assms s by (auto simp: filter_empty_conv in_set_conv_nth word_less_nat_alt unat_numbered)
  moreover have "filter (\<lambda>e. (of_nat s :: u64) < ev_sequence e) (drop (max s m) L) = drop (max s m) L"
    using assms s by (auto simp: filter_id_conv in_set_conv_nth word_less_nat_alt unat_numbered)
  ultimately show ?thesis by (subst split) simp
qed

lemma live_items_ok:
  "List.map_filter (live_item h) (map RecvOk evs) = map Inr (filter (\<lambda>e. h < ev_sequence e) evs)"
  by (induction evs) (simp_all add: List.map_filter_def live_item_def)

lemma watch_catchup_resume:
  assumes inv: "log_inv r1" "log_inv r2" and s: "0 < s" "s \<le> length (event_tx r1)"
    and le: "length (event_tx r1) \<le> length (event_tx r2)" and small: "length (event_tx r2) < 2 ^ 64 - 1"
  shows "watch_catchup (of_nat s) r1 r2 =
    (if s + REPLAY_BUFFER_CAPACITY < length (event_tx r1)
     then Inl (GrpcStatus OutOfRange
            (ascii ''last_seen_sequence '' @ dec_digits s @ ascii '' is older than the buffer floor ''
             @ dec_digits (length (event_tx r1) - REPLAY_BUFFER_CAPACITY + 1)))
     else Inr (drop (max s (length (event_tx r2) - REPLAY_BUFFER_CAPACITY)) (event_tx r2)))"
proof -
  let ?L = "event_tx r1" and ?m = "length (event_tx r1) - REPLAY_BUFFER_CAPACITY"
  have nL: "numbered ?L" and buf: "replay_buffer r1 = drop ?m ?L" using inv by (simp_all add: log_inv_def)
  have m: "?m < length ?L" using s by (auto simp: REPLAY_BUFFER_CAPACITY_def)
  have us: "unat (of_nat s :: u64) = s" using s le small by (simp add: unat_of_nat64)
  then have nz: "(of_nat s :: u64) \<noteq> 0" using s by (metis unat_0 less_numeral_extra(3))
  have us1: "unat ((of_nat s :: u64) + 1) = s + 1"
    using us s le small by (subst unat_inc) simp_all
  have old: "oldest_buffered_sequence r1 = Some (ev_sequence (?L ! ?m))"
    using m by (simp add: oldest_buffered_sequence_def buf flip: Cons_nth_drop_Suc)
  have uo: "unat (ev_sequence (?L ! ?m)) = Suc ?m" using unat_numbered [OF nL m] le small by simp
  have "(of_nat s :: u64) + 1 < ev_sequence (?L ! ?m) \<longleftrightarrow> s + REPLAY_BUFFER_CAPACITY < length ?L"
    by (auto simp: word_less_nat_alt us1 uo)
  moreover have "buffered_after (of_nat s) r2 =
      drop (max s (length (event_tx r2) - REPLAY_BUFFER_CAPACITY)) (event_tx r2)"
    using inv(2) s le small by (simp add: buffered_after_def log_inv_def filter_numbered)
  ultimately show ?thesis
    by (simp add: watch_catchup_def nz old us uo)
qed

lemma highest_seq_resume:
  assumes "numbered L" "length L < 2 ^ 64" "s < length L"
  shows "highest_seq (drop s L) = of_nat (length L)"
proof -
  have "ev_sequence (last L) = of_nat (length L)"
    using assms numbered_nth [OF assms(1), of "length L - 1"] by (cases L rule: rev_cases) auto
  then show ?thesis using assms(3) by (simp add: highest_seq_def)
qed

lemma later_inv: "gcs_later r r' \<Longrightarrow> registry_inv r \<Longrightarrow> registry_inv r'"
  by (induction rule: gcs_later.induct) (auto intro: registry_inv_step)

lemma step_log: "\<exists>X. event_tx (gcs_step op r) = event_tx r @ X"
proof (cases op)
  case (GcsSweep now timeout)
  have "\<exists>X. event_tx (fst (expire_stale d r)) = event_tx r @ X" for d
    proof -
    let ?fl = "flipped_nodes d (nodes r)"
    have "\<exists>X. event_tx (fold publish ?fl (with_metrics f (r\<lparr>nodes := ns\<rparr>))) = event_tx r @ X" for f ns
      using publishes_log [of ?fl "with_metrics f (r\<lparr>nodes := ns\<rparr>)"] by auto
    then show ?thesis by (simp add: expire_stale_eq)
  qed
  then show ?thesis using GcsSweep by (simp add: sweep_tick_def)
qed (auto simp: register_node_def drain_def heartbeat_def Let_def split: sum.split option.split)

lemma later_log: "gcs_later r r' \<Longrightarrow> \<exists>X. event_tx r' = event_tx r @ X"
proof (induction rule: gcs_later.induct)
  case (step r r' op)
  then show ?case using step_log [of op r'] by auto
qed simp

lemma watch_resume_aux:
  assumes inv: "log_inv r1" "log_inv r2" "log_inv r3" and s: "0 < s" "s \<le> p" "p \<le> length (event_tx r1)"
    and ext: "event_tx r2 = event_tx r1 @ X" "event_tx r3 = event_tx r2 @ Y"
    and small: "length (event_tx r3) < 2 ^ 64 - 1" and ok: "length (event_tx r1) \<le> s + REPLAY_BUFFER_CAPACITY"
  shows "watch_nodes (of_nat s) r1 r2 (map RecvOk (drop p (event_tx r3))) =
     Inr (map Inr (drop (max s (length (event_tx r2) - REPLAY_BUFFER_CAPACITY)) (event_tx r3)))"
proof -
  let ?L2 = "event_tx r2" and ?L3 = "event_tx r3"
  let ?k = "max s (length ?L2 - REPLAY_BUFFER_CAPACITY)"
  have n: "numbered ?L2" "numbered ?L3" using inv by (simp_all add: log_inv_def)
  have c: "watch_catchup (of_nat s) r1 r2 = Inr (drop ?k ?L2)"
    using watch_catchup_resume [OF inv(1,2) s(1)] s ext small ok by simp
  have k: "?k \<le> length ?L2" using s ext by simp
  have "filter (\<lambda>e. highest_seq (drop ?k ?L2) < ev_sequence e) (drop p ?L3) = drop (length ?L2) ?L3"
  proof (cases "?k < length ?L2")
    case True
    then have h: "highest_seq (drop ?k ?L2) = of_nat (length ?L2)"
      using highest_seq_resume [OF n(1) _ True] ext small by simp
    show ?thesis unfolding h
      using filter_numbered [OF n(2), of "length ?L2" p] s ext small by (simp add: max_absorb1)
  next
    case False
    then have "length ?L2 \<le> s" using s ext by (auto simp: REPLAY_BUFFER_CAPACITY_def)
    moreover have "length (event_tx r1) \<le> length ?L2" by (simp add: ext)
    ultimately have "p = length ?L2" "drop ?k ?L2 = []" using s by simp_all
    moreover have "filter (\<lambda>e. (of_nat 0 :: u64) < ev_sequence e) (drop p ?L3) = drop p ?L3"
      using filter_numbered [OF n(2), of 0 p] small by simp
    ultimately show ?thesis by (simp add: highest_seq_def)
  qed
  then show ?thesis
    using c k ext(2) by (simp add: watch_nodes_def live_items_ok flip: map_append)
qed

section \<open>Properties\<close>

lemma alive_count_filter:
  "alive_count ns = length (filter (\<lambda>(k, info). ni_status info = as_i32 Alive) ns)"
  by (induction ns) (auto simp: alive_count_def hm_sum_def split: prod.splits)

lemma stale_unat:
  "is_stale (saturating_sub now timeout) info \<longleftrightarrow>
     ni_status info = as_i32 Alive \<and> unat (ni_last_heartbeat info) + unat timeout < unat now"
  by (auto simp: is_stale_def word_less_nat_alt unat_saturating_sub)

lemma flipped_nodes_sweep: "flipped_nodes deadline (sweep_nodes deadline ns) = []"
  by (auto simp: flipped_nodes_def sweep_nodes_def is_stale_def mark_dead_def filter_empty_conv split: if_splits)

text \<open>A run with one node, registered and then drained.\<close>

definition demo_request :: RegisterRequest where
  "demo_request = \<lparr>rr_host = ascii ''10.0.0.1'', rr_port = 7000, rr_plasma_socket = ascii ''/tmp/p'',
     rr_resources = None\<rparr>"

definition demo_registered :: Registry where
  "demo_registered = gcs_step (GcsRegister (replicate 16 1) 100 demo_request)
     (Registry_new (ascii ''s'') (Some NodeMetrics_new))"

definition demo_drained :: Registry where
  "demo_drained = gcs_step (GcsDrain (replicate 16 1)) demo_registered"

lemma demo_reachable: "gcs_reachable demo_registered"
  unfolding demo_registered_def
  by (rule gcs_reachable.step [OF gcs_reachable.start]) (simp_all add: hm_contains_def Registry_new_def)

lemma demo_later: "gcs_later demo_registered demo_drained" "gcs_later demo_drained demo_drained"
  unfolding demo_drained_def by (rule gcs_later.step [OF gcs_later.same], simp) (rule gcs_later.same)

definition demo_info :: NodeInfo where
  "demo_info = \<lparr>ni_address = Some \<lparr>addr_host = ascii ''10.0.0.1'', addr_port = 7000,
       addr_node_id = replicate 16 1, addr_plasma_socket = ascii ''/tmp/p''\<rparr>,
     ni_resources = None, ni_status = 1, ni_registered_at = 100, ni_last_heartbeat = 100\<rparr>"

lemma demo_nodes [simp]:
  "nodes demo_registered = [(replicate 16 1, demo_info)]"
  "nodes demo_drained = [(replicate 16 1, demo_info\<lparr>ni_status := 2\<rparr>)]"
  by (simp_all add: demo_registered_def demo_drained_def register_node_def drain_def parse_node_id_def
      Registry_new_def demo_request_def demo_info_def Let_def ascii_def)

lemma demo_events [simp]:
  "event_tx demo_registered = [\<lparr>ev_sequence = 1, ev_node = Some demo_info\<rparr>]"
  "event_tx demo_drained = [\<lparr>ev_sequence = 1, ev_node = Some demo_info\<rparr>,
     \<lparr>ev_sequence = 2, ev_node = Some (demo_info\<lparr>ni_status := 2\<rparr>)\<rparr>]"
  by (simp_all add: demo_registered_def demo_drained_def register_node_def drain_def parse_node_id_def
      Registry_new_def demo_request_def demo_info_def Let_def ascii_def publish_def with_metrics_def)

text \<open>C27.
  After any sequence of registrations, drains, heartbeats and sweeps (errors included), the node table is
  what the published events amount to, the events carry the sequence numbers 1, 2, 3, ... without a gap,
  the replay buffer holds the newest 1024 of them, and the gauges count the alive and the known nodes.
\<close>

theorem registry_agrees_with_log:
  assumes "gcs_reachable r"
  shows "apply_log (event_tx r) (\<lambda>_. None) = node_view (nodes r) \<and>
    map ev_sequence (event_tx r) = map of_nat [1..<Suc (length (event_tx r))] \<and>
    next_sequence r = of_nat (Suc (length (event_tx r))) \<and>
    replay_buffer r = drop (length (event_tx r) - 1024) (event_tx r) \<and>
    (\<forall>m. node_metrics r = Some m \<longrightarrow>
       nodes_alive m = int (length (filter (\<lambda>(k, info). ni_status info = as_i32 Alive) (nodes r))) \<and>
       nodes_total m = int (registry_len r) \<and> watch_events_published_total m = length (event_tx r))"
  using reachable_inv [OF assms] unfolding registry_inv_def log_inv_def metrics_inv_def numbered_def
  by (simp add: alive_count_filter registry_len_def REPLAY_BUFFER_CAPACITY_def)

theorem registry_agrees_with_log_witness:
  "gcs_reachable demo_registered \<and>
   replay_buffer demo_registered = drop (length (event_tx demo_registered) - 1024) (event_tx demo_registered)"
  using registry_agrees_with_log [OF demo_reachable] demo_reachable by blast

text \<open>C37.
  What a resumed watch delivers, exactly.  A subscriber that has seen event \<open>s\<close> subscribes when the log holds
  at least \<open>s\<close> events; the floor of the buffer is read in \<open>r1\<close>, the batch in \<open>r2\<close>, and the receiver does not lag.
  If more than 1024 newer events exist in \<open>r1\<close> the resume is refused; otherwise every event after \<open>s\<close> arrives
  once, in order - provided \<open>r2\<close> still buffers event \<open>s + 1\<close>.  If publishes between the two reads pushed it out,
  the stream starts at the new floor and the events in between are missing without an error.
\<close>

theorem watch_resume_stream:
  assumes "gcs_reachable r0" and "gcs_later r0 r1" and "gcs_later r1 r2" and "gcs_later r2 r3"
    and "0 < s" and "s \<le> length (event_tx r0)" and "length (event_tx r3) < 2 ^ 64 - 1"
  shows "watch_nodes (of_nat s) r1 r2 (map RecvOk (drop (length (event_tx r0)) (event_tx r3))) =
    (if s + 1024 < length (event_tx r1)
     then Inl (GrpcStatus OutOfRange
            (ascii ''last_seen_sequence '' @ dec_digits s @ ascii '' is older than the buffer floor ''
             @ dec_digits (length (event_tx r1) - 1024 + 1)))
     else Inr (map Inr (drop (max s (length (event_tx r2) - 1024)) (event_tx r3))))"
proof -
  obtain W X Y where ext: "event_tx r1 = event_tx r0 @ W" "event_tx r2 = event_tx r1 @ X"
      "event_tx r3 = event_tx r2 @ Y"
    using later_log [OF assms(2)] later_log [OF assms(3)] later_log [OF assms(4)] by blast
  have i1: "registry_inv r1" using later_inv assms(1,2) reachable_inv by blast
  have i2: "registry_inv r2" using later_inv [OF assms(3) i1] .
  have i3: "registry_inv r3" using later_inv [OF assms(4) i2] .
  have inv: "log_inv r1" "log_inv r2" "log_inv r3" using i1 i2 i3 by (simp_all add: registry_inv_def)
  show ?thesis
  proof (cases "s + 1024 < length (event_tx r1)")
    case True
    then show ?thesis
      using watch_catchup_resume [OF inv(1,2) assms(5)] assms(6,7) ext
      by (simp add: watch_nodes_def REPLAY_BUFFER_CAPACITY_def)
  next
    case False
    then show ?thesis
      using watch_resume_aux [OF inv assms(5,6) _ ext(2,3) assms(7)] ext
      by (simp add: REPLAY_BUFFER_CAPACITY_def)
  qed
qed

theorem watch_resume_stream_witness:
  "watch_nodes 1 demo_registered demo_registered
     [RecvOk \<lparr>ev_sequence = 2, ev_node = Some (demo_info\<lparr>ni_status := 2\<rparr>)\<rparr>] =
   Inr [Inr \<lparr>ev_sequence = 2, ev_node = Some (demo_info\<lparr>ni_status := 2\<rparr>)\<rparr>]"
  using watch_resume_stream [OF demo_reachable gcs_later.same gcs_later.same demo_later(1), of 1] by simp

text \<open>  A tick of the sweeper marks as dead exactly the alive nodes whose last heartbeat lies more than the
  timeout in the past (without overflow, and nothing expires while the clock is below the timeout), leaves
  every other entry as it was, publishes one event for each, reports how many there were, and is idempotent.
\<close>

lemma sweep_expires_exactly_stale:
  "(\<forall>k. hm_get (nodes (fst (sweep_tick now timeout r))) k =
      map_option (\<lambda>info. if ni_status info = 1 \<and> unat (ni_last_heartbeat info) + unat timeout < unat now
        then info\<lparr>ni_status := 3\<rparr> else info) (hm_get (nodes r) k)) \<and>
   (\<exists>evs. event_tx (fst (sweep_tick now timeout r)) = event_tx r @ evs \<and>
      map ev_node evs = map (\<lambda>info. Some (info\<lparr>ni_status := 3\<rparr>))
        (filter (\<lambda>info. ni_status info = 1 \<and> unat (ni_last_heartbeat info) + unat timeout < unat now)
          (list_nodes r)) \<and>
      snd (sweep_tick now timeout r) = length evs) \<and>
   snd (sweep_tick now timeout (fst (sweep_tick now timeout r))) = 0"
proof -
  let ?d = "saturating_sub now timeout"
  have stale: "is_stale ?d = (\<lambda>info. ni_status info = 1 \<and> unat (ni_last_heartbeat info) + unat timeout < unat now)"
    by (simp add: fun_eq_iff stale_unat)
  have nodes: "nodes (fst (sweep_tick now timeout r)) = sweep_nodes ?d (nodes r)"
    by (simp add: sweep_tick_def expire_stale_eq)
  obtain evs where evs: "event_tx (fst (sweep_tick now timeout r)) = event_tx r @ evs"
      "map ev_node evs = map Some (flipped_nodes ?d (nodes r))"
    using publishes_log [of "flipped_nodes ?d (nodes r)"] unfolding sweep_tick_def expire_stale_eq fst_conv
    by (metis (no_types, lifting) with_metrics_simps(2) Registry.ext_inject Registry.surjective Registry.update_convs(1))
  have len: "snd (sweep_tick now timeout r) = length evs"
    using arg_cong [OF evs(2), of length] by (simp add: sweep_tick_def expire_stale_eq)
  have "map ev_node evs = map (\<lambda>info. Some (info\<lparr>ni_status := 3\<rparr>)) (filter (is_stale ?d) (list_nodes r))"
    unfolding evs(2) by (simp add: flipped_nodes_def list_nodes_def registry_snapshot_def mark_dead_def)
  moreover have "hm_get (nodes (fst (sweep_tick now timeout r))) k =
      map_option (\<lambda>info. if is_stale ?d info then info\<lparr>ni_status := 3\<rparr> else info) (hm_get (nodes r) k)" for k
    unfolding nodes hm_get_sweep mark_dead_def by (simp cong: if_cong)
  moreover have "snd (sweep_tick now timeout (fst (sweep_tick now timeout r))) = 0"
    by (simp add: sweep_tick_def expire_stale_eq flipped_nodes_sweep)
  ultimately show ?thesis
    using evs(1) len unfolding stale by blast
qed

end
