(* ===== verification/Node_Index.thy ===== *)
theory Node_Index
imports Gcs_Nodes
begin

text \<open>
  The raylet's cache of the cluster's nodes, \<open>rayd-raylet/src/node_index.rs\<close>, with the parser of socket addresses
  of the Rust standard library that it relies on (the grammar of \<open>core::net\<close>: dotted IPv4, or IPv6 in
  brackets with an optional scope id, followed by a port).
\<close>

section \<open>Socket addresses\<close>

datatype SocketAddr = SockV4 "nat list" nat | SockV6 "nat list" nat nat

type_synonym 'a reader = "bytes \<Rightarrow> ('a \<times> bytes) option"

definition to_digit :: "nat \<Rightarrow> byte \<Rightarrow> nat option" where
  "to_digit radix b =
     (let n = unat b;
          d = (if 48 \<le> n \<and> n \<le> 57 then Some (n - 48)
               else if 97 \<le> n \<and> n \<le> 122 then Some (n - 87)
               else if 65 \<le> n \<and> n \<le> 90 then Some (n - 55) else None)
      in case d of Some v \<Rightarrow> if v < radix then Some v else None | None \<Rightarrow> None)"

definition read_number :: "nat \<Rightarrow> nat option \<Rightarrow> bool \<Rightarrow> nat \<Rightarrow> nat reader" where
  "read_number radix max_digits allow_zero_prefix limit bs =
     (let ds = takeWhile (\<lambda>b. to_digit radix b \<noteq> None) bs;
          v = foldl (\<lambda>acc b. acc * radix + the (to_digit radix b)) 0 ds
      in if ds = [] \<or> (case max_digits of Some m \<Rightarrow> m < length ds | None \<Rightarrow> False)
            \<or> (\<not> allow_zero_prefix \<and> List.hd ds = 48 \<and> 1 < length ds) \<or> limit \<le> v
         then None else Some (v, dropWhile (\<lambda>b. to_digit radix b \<noteq> None) bs))"

definition read_given_char :: "byte \<Rightarrow> unit reader" where
  "read_given_char c bs = (case bs of b # r \<Rightarrow> if b = c then Some ((), r) else None | [] \<Rightarrow> None)"

definition read_separator :: "byte \<Rightarrow> nat \<Rightarrow> 'a reader \<Rightarrow> 'a reader" where
  "read_separator sep i inner bs =
     (if 0 < i then Option.bind (read_given_char sep bs) (\<lambda>(_, r). inner r) else inner bs)"

fun read_octets :: "nat \<Rightarrow> nat \<Rightarrow> nat list reader" where
  "read_octets 0 i bs = Some ([], bs)"
| "read_octets (Suc n) i bs =
     Option.bind (read_separator 46 i (read_number 10 (Some 3) False 256) bs) (\<lambda>(v, r).
       map_option (\<lambda>(vs, r'). (v # vs, r')) (read_octets n (Suc i) r))"

definition read_ipv4_addr :: "nat list reader" where
  "read_ipv4_addr = read_octets 4 0"

definition v4_groups :: "nat list \<Rightarrow> nat list" where
  "v4_groups os = [os ! 0 * 256 + os ! 1, os ! 2 * 256 + os ! 3]"

fun read_groups :: "nat \<Rightarrow> nat \<Rightarrow> bytes \<Rightarrow> nat list \<times> bool \<times> bytes" where
  "read_groups 0 i bs = ([], False, bs)"
| "read_groups (Suc n) i bs =
     (case (if 0 < n then read_separator 58 i read_ipv4_addr bs else None) of
        Some (os, r) \<Rightarrow> (v4_groups os, True, r)
      | None \<Rightarrow>
          (case read_separator 58 i (read_number 16 (Some 4) True 65536) bs of
             None \<Rightarrow> ([], False, bs)
           | Some (g, r) \<Rightarrow> (case read_groups n (Suc i) r of (gs, v4, r') \<Rightarrow> (g # gs, v4, r'))))"

definition read_ipv6_addr :: "nat list reader" where
  "read_ipv6_addr bs =
     (case read_groups 8 0 bs of (gs, v4, r) \<Rightarrow>
        if length gs = 8 then Some (gs, r)
        else if v4 then None
        else
          Option.bind (read_given_char 58 r) (\<lambda>(_, r1).
          Option.bind (read_given_char 58 r1) (\<lambda>(_, r2).
            (case read_groups (8 - (length gs + 1)) 0 r2 of (ts, _, r3) \<Rightarrow>
               Some (gs @ replicate (8 - length gs - length ts) 0 @ ts, r3)))))"

definition read_port :: "nat reader" where
  "read_port bs = Option.bind (read_given_char 58 bs) (\<lambda>(_, r). read_number 10 None True 65536 r)"

definition read_scope_id :: "nat reader" where
  "read_scope_id bs = Option.bind (read_given_char 37 bs) (\<lambda>(_, r). read_number 10 None True (2 ^ 32) r)"

definition read_socket_addr_v4 :: "SocketAddr reader" where
  "read_socket_addr_v4 bs =
     Option.bind (read_ipv4_addr bs) (\<lambda>(ip, r). map_option (\<lambda>(p, r'). (SockV4 ip p, r')) (read_port r))"

definition read_socket_addr_v6 :: "SocketAddr reader" where
  "read_socket_addr_v6 bs =
     Option.bind (read_given_char 91 bs) (\<lambda>(_, r1).
     Option.bind (read_ipv6_addr r1) (\<lambda>(ip, r2).
       (let (scope, r3) = (case read_scope_id r2 of Some x \<Rightarrow> x | None \<Rightarrow> (0, r2)) in
        Option.bind (read_given_char 93 r3) (\<lambda>(_, r4).
          map_option (\<lambda>(p, r5). (SockV6 ip scope p, r5)) (read_port r4)))))"

definition parse_socket_addr :: "bytes \<Rightarrow> SocketAddr option" where
  "parse_socket_addr bs =
     (case (case read_socket_addr_v4 bs of Some x \<Rightarrow> Some x | None \<Rightarrow> read_socket_addr_v6 bs) of
        Some (a, []) \<Rightarrow> Some a | _ \<Rightarrow> None)"

section \<open>The index\<close>

record NodeEntry =
  ne_status :: NodeStatus
  ne_addr :: SocketAddr

type_synonym NodeIndex = "(bytes, NodeEntry) hmap"

datatype StatusTransition =
    Inserted NodeStatus
  | Changed NodeStatus NodeStatus
  | Unchanged
  | Skipped

definition addr_sock :: "NodeAddress \<Rightarrow> SocketAddr option" where
  "addr_sock a =
     (if unat (addr_port a) < 65536
      then parse_socket_addr (addr_host a @ [58] @ dec_digits (unat (addr_port a))) else None)"

definition parse_node_address :: "NodeInfo \<Rightarrow> SocketAddr option" where
  "parse_node_address info = Option.bind (ni_address info) addr_sock"

definition index_apply_event :: "NodeInfo \<Rightarrow> NodeIndex \<Rightarrow> NodeIndex \<times> StatusTransition" where
  "index_apply_event info idx =
     (case parse_node_address info of
        None \<Rightarrow> (idx, Skipped)
      | Some addr \<Rightarrow>
          (let new_status = status_of_i32 (ni_status info) in
           case map_option addr_node_id (ni_address info) of
             None \<Rightarrow> (idx, Skipped)
           | Some node_id \<Rightarrow>
               if length node_id \<noteq> 16 then (idx, Skipped)
               else
                 (hm_insert node_id \<lparr>ne_status = new_status, ne_addr = addr\<rparr> idx,
                  case hm_get idx node_id of
                    None \<Rightarrow> Inserted new_status
                  | Some prev \<Rightarrow>
                      if ne_status prev = new_status then Unchanged
                      else Changed (ne_status prev) new_status)))"

definition address_of :: "NodeIndex \<Rightarrow> bytes \<Rightarrow> SocketAddr option" where
  "address_of idx node_id = map_option ne_addr (hm_get idx node_id)"

definition status_of :: "NodeIndex \<Rightarrow> bytes \<Rightarrow> NodeStatus option" where
  "status_of idx node_id = map_option ne_status (hm_get idx node_id)"

section \<open>Which addresses are understood\<close>

lemma read_ipv4_unfold: "read_ipv4_addr = read_octets (Suc (Suc (Suc (Suc 0)))) 0"
  by (simp add: read_ipv4_addr_def eval_nat_numeral)

lemma read_number_None: "bs = [] \<or> to_digit radix (List.hd bs) = None \<Longrightarrow> read_number radix mx z lim bs = None"
  by (cases bs) (auto simp: read_number_def Let_def)

lemma parse_socket_addr_first:
  assumes "to_digit 10 b = None" and "b \<noteq> 91"
  shows "parse_socket_addr (b # bs) = None"
proof -
  have "read_number 10 (Some 3) False 256 (b # bs) = None"
    using assms(1) by (intro read_number_None) simp
  then have "read_ipv4_addr (b # bs) = None"
    by (simp add: read_ipv4_unfold read_separator_def)
  then show ?thesis
    using assms(2) by (simp add: parse_socket_addr_def read_socket_addr_v4_def read_socket_addr_v6_def read_given_char_def)
qed

text \<open>A host name (anything that does not start with a digit or a bracket) is skipped.\<close>

lemma hostname_is_skipped:
  assumes "ni_address info = Some a" "addr_host a = b # bs" "to_digit 10 b = None" "b \<noteq> 91"
  shows "index_apply_event info idx = (idx, Skipped)"
  using assms by (simp add: index_apply_event_def parse_node_address_def addr_sock_def parse_socket_addr_first)

lemma unat_digit: "k < 10 \<Longrightarrow> unat (of_nat (48 + k) :: byte) = 48 + k"
  unfolding unat_of_nat by simp

lemma to_digit_dec: "k < 10 \<Longrightarrow> to_digit 10 (of_nat (48 + k)) = Some k"
  unfolding to_digit_def by (simp only: unat_digit Let_def) simp

lemma dec_digits_all: "b \<in> set (dec_digits n) \<Longrightarrow> to_digit 10 b \<noteq> None"
proof (induction n rule: dec_digits.induct)
  case (1 n)
  show ?case
  proof (cases "n < 10")
    case True
    then show ?thesis using "1.prems" to_digit_dec [of n] by (simp add: dec_digits.simps [of n])
  next
    case False
    then show ?thesis
      using 1 to_digit_dec [of "n mod 10"] by (auto simp: dec_digits.simps [of n])
  qed
qed

lemma dec_digits_value: "foldl (\<lambda>acc b. acc * 10 + the (to_digit 10 b)) 0 (dec_digits n) = n"
proof (induction n rule: dec_digits.induct)
  case (1 n)
  show ?case
  proof (cases "n < 10")
    case True
    then show ?thesis using to_digit_dec [of n] by (simp add: dec_digits.simps [of n])
  next
    case False
    then show ?thesis
      using 1 to_digit_dec [of "n mod 10"] by (simp add: dec_digits.simps [of n])
  qed
qed

lemma dec_digits_span:
  assumes "rest = [] \<or> to_digit 10 (List.hd rest) = None"
  shows "takeWhile (\<lambda>b. to_digit 10 b \<noteq> None) (dec_digits n @ rest) = dec_digits n"
    "dropWhile (\<lambda>b. to_digit 10 b \<noteq> None) (dec_digits n @ rest) = rest"
  using assms dec_digits_all
  by (auto simp: takeWhile_append dropWhile_append takeWhile_eq_all_conv) (cases rest; auto)+

lemma dec_digits_first: "10 \<le> n \<Longrightarrow> List.hd (dec_digits n) \<noteq> 48"
proof (induction n rule: dec_digits.induct)
  case (1 n)
  have "(of_nat (48 + k) :: byte) \<noteq> 48" if "0 < k" "k < 10" for k
    using unat_digit [OF that(2)] that(1) by (auto dest: arg_cong [of _ _ unat])
  then show ?case
    using 1 by (cases "n div 10 < 10") (auto simp: dec_digits.simps [of n] dec_digits.simps [of "n div 10"])
qed

lemma read_number_dec:
  assumes "n < 256" and "rest = [] \<or> to_digit 10 (List.hd rest) = None"
  shows "read_number 10 (Some 3) False 256 (dec_digits n @ rest) = Some (n, rest)"
proof -
  have "length (dec_digits n) \<le> 3"
    using assms(1) by (simp add: dec_digits.simps [of n] dec_digits.simps [of "n div 10"] dec_digits.simps [of "n div 10 div 10"])
  moreover have "\<not> (List.hd (dec_digits n) = 48 \<and> 1 < length (dec_digits n))"
    using dec_digits_first [of n] by (cases "n < 10") (auto simp: dec_digits.simps [of n])
  ultimately show ?thesis
    using assms(1) unfolding read_number_def dec_digits_span [OF assms(2)] dec_digits_value Let_def by simp
qed

lemma read_port_dec: "p < 65536 \<Longrightarrow> read_port (58 # dec_digits p) = Some (p, [])"
  using dec_digits_span [of "[]" p]
  unfolding read_port_def read_number_def Let_def append_Nil2
  by (simp add: read_given_char_def dec_digits_value del: not_None_eq takeWhile_eq_all_conv)

lemma to_digit_punct [simp]: "to_digit 10 46 = None" "to_digit 10 58 = None"
  by (simp_all add: to_digit_def)

text \<open>A dotted address is understood: the parser inverts the way the four octets are written.\<close>

lemma parse_dotted:
  assumes "a < 256" "b < 256" "c < 256" "d < 256" "p < 65536"
  shows "parse_socket_addr (dec_digits a @ [46] @ dec_digits b @ [46] @ dec_digits c @ [46] @ dec_digits d
    @ [58] @ dec_digits p) = Some (SockV4 [a, b, c, d] p)"
  using assms
  by (simp add: parse_socket_addr_def read_socket_addr_v4_def read_ipv4_unfold read_separator_def
      read_given_char_def read_number_dec read_port_dec)

end
