(* ===== verification/Watch_Nodes.thy ===== *)
theory Watch_Nodes
imports Node_Index
begin

text \<open>
  The raylet's subscription to the node events, \<open>rayd-raylet/src/watch_nodes.rs\<close>, and its composition with the
  handler of the control store.  What the select loop observes (stream items, the end of the stream,
  the shutdown signal) is an argument, and so is the response to each attempt to subscribe.
\<close>

section \<open>The subscriber\<close>

definition INITIAL_BACKOFF :: nat where
  "INITIAL_BACKOFF = 200"

definition MAX_BACKOFF :: nat where
  "MAX_BACKOFF = 10000"

text \<open>The variables of the loop; \<open>died\<close> lists the calls of \<open>on_owner_died\<close> when a sink is present.\<close>

record Watcher =
  node_index :: NodeIndex
  last_seen_sequence :: u64
  backoff :: nat
  owner_sink :: bool
  died :: "bytes list"

definition Watcher_new :: "NodeIndex \<Rightarrow> bool \<Rightarrow> Watcher" where
  "Watcher_new idx sink =
     \<lparr>node_index = idx, last_seen_sequence = 0, backoff = INITIAL_BACKOFF, owner_sink = sink, died = []\<rparr>"

datatype StreamOutcome = Shutdown | ResetResume | TransientError | CleanReset

datatype StreamInput = ShutdownFired | StreamEnd | StreamNext "(GrpcStatus, NodeEvent) result"

definition node_id_from_addr :: "NodeAddress \<Rightarrow> bytes option" where
  "node_id_from_addr a = (if length (addr_node_id a) \<noteq> 16 then None else Some (addr_node_id a))"

definition is_dead_transition :: "StatusTransition \<Rightarrow> bool" where
  "is_dead_transition t = (case t of Inserted s \<Rightarrow> s = Dead | Changed _ s \<Rightarrow> s = Dead | _ \<Rightarrow> False)"

definition on_event :: "NodeEvent \<Rightarrow> Watcher \<Rightarrow> Watcher" where
  "on_event event w =
     (let w1 = (if last_seen_sequence w < ev_sequence event
                then w\<lparr>last_seen_sequence := ev_sequence event\<rparr> else w)
      in case ev_node event of
           None \<Rightarrow> w1
         | Some node \<Rightarrow>
             (case index_apply_event node (node_index w1) of
                (idx, transition) \<Rightarrow>
                  (let w2 = w1\<lparr>node_index := idx\<rparr>;
                       dead_node_id = (if is_dead_transition transition
                         then Option.bind (ni_address node) node_id_from_addr else None)
                   in case dead_node_id of
                        Some node_id \<Rightarrow> if owner_sink w2 then w2\<lparr>died := died w2 @ [node_id]\<rparr> else w2
                      | None \<Rightarrow> w2)))"

text \<open>\<open>None\<close>: the stream is still open when the observation ends.\<close>

fun consume_stream :: "StreamInput list \<Rightarrow> Watcher \<Rightarrow> Watcher \<times> StreamOutcome option" where
  "consume_stream [] w = (w, None)"
| "consume_stream (ShutdownFired # _) w = (w, Some Shutdown)"
| "consume_stream (StreamEnd # _) w = (w, Some CleanReset)"
| "consume_stream (StreamNext (Inl status) # _) w =
     (w, Some (if status_code status = OutOfRange then ResetResume else TransientError))"
| "consume_stream (StreamNext (Inr event) # rest) w = consume_stream rest (on_event event w)"

text \<open>
  One turn of the loop: how the store answers the subscription (given the resume token), and whether a
  shutdown is seen if the turn ends in a sleep.
\<close>

datatype Round = Round (subscribe: "u64 \<Rightarrow> (GrpcStatus, StreamInput list) result") (sleep_shutdown: bool)

datatype RunState = Looping | Returned | Streaming

definition double_backoff :: "Watcher \<Rightarrow> Watcher" where
  "double_backoff w = w\<lparr>backoff := min (backoff w * 2) MAX_BACKOFF\<rparr>"

definition sleep_with_shutdown :: "bool \<Rightarrow> Watcher \<Rightarrow> Watcher \<times> RunState" where
  "sleep_with_shutdown seen w = (if seen then (w, Returned) else (double_backoff w, Looping))"

definition watch_round :: "Round \<Rightarrow> Watcher \<Rightarrow> Watcher \<times> RunState" where
  "watch_round rd w =
     (case subscribe rd (last_seen_sequence w) of
        Inl e \<Rightarrow> sleep_with_shutdown (sleep_shutdown rd) w
      | Inr stream \<Rightarrow>
          (case consume_stream stream w of
             (w', None) \<Rightarrow> (w', Streaming)
           | (w', Some Shutdown) \<Rightarrow> (w', Returned)
           | (w', Some ResetResume) \<Rightarrow> (w'\<lparr>last_seen_sequence := 0, backoff := INITIAL_BACKOFF\<rparr>, Looping)
           | (w', Some TransientError) \<Rightarrow> sleep_with_shutdown (sleep_shutdown rd) w'
           | (w', Some CleanReset) \<Rightarrow> (w'\<lparr>backoff := INITIAL_BACKOFF\<rparr>, Looping)))"

fun run_watch_nodes :: "Round list \<Rightarrow> Watcher \<Rightarrow> Watcher \<times> RunState" where
  "run_watch_nodes [] w = (w, Looping)"
| "run_watch_nodes (rd # rds) w =
     (case watch_round rd w of
        (w', Looping) \<Rightarrow> run_watch_nodes rds w'
      | other \<Rightarrow> other)"

text \<open>The answer of a control store: floor read in \<open>r1\<close>, batch in \<open>r2\<close>, then what the receiver yields.\<close>

definition gcs_subscribe ::
  "Registry \<Rightarrow> Registry \<Rightarrow> RecvItem list \<Rightarrow> u64 \<Rightarrow> (GrpcStatus, StreamInput list) result" where
  "gcs_subscribe r1 r2 items seen =
     (case watch_nodes seen r1 r2 items of Inl e \<Rightarrow> Inl e | Inr xs \<Rightarrow> Inr (map StreamNext xs))"

section \<open>Applying events\<close>

lemma on_event_frame [simp]:
  "backoff (on_event e w) = backoff w" "owner_sink (on_event e w) = owner_sink w"
  by (simp_all add: on_event_def Let_def split: option.split prod.split)

lemma on_event_seen:
  "last_seen_sequence (on_event e w) = max (last_seen_sequence w) (ev_sequence e)"
  by (simp add: on_event_def Let_def split: option.split prod.split)

lemma on_event_index:
  "node_index (on_event e w) =
     (case ev_node e of None \<Rightarrow> node_index w | Some node \<Rightarrow> fst (index_apply_event node (node_index w)))"
  by (simp add: on_event_def Let_def split: option.split prod.split)

lemma consume_events:
  "consume_stream (map StreamNext (map Inr evs) @ rest) w = consume_stream rest (fold on_event evs w)"
  by (induction evs arbitrary: w) auto

lemma consume_events_only: "consume_stream (map StreamNext (map Inr evs)) w = (fold on_event evs w, None)"
  using consume_events [of evs "[]"] by simp

text \<open>The entry that the index keeps for what the log says of a node.\<close>

definition index_entry :: "int \<times> NodeAddress \<Rightarrow> NodeEntry" where
  "index_entry v = \<lparr>ne_status = status_of_i32 (fst v), ne_addr = the (addr_sock (snd v))\<rparr>"

definition usable :: "bytes \<Rightarrow> NodeEvent list \<Rightarrow> bool" where
  "usable k evs \<longleftrightarrow>
     (\<forall>e \<in> set evs. \<forall>info a. ev_node e = Some info \<longrightarrow> ni_address info = Some a \<longrightarrow> addr_node_id a = k \<longrightarrow>
        addr_sock a \<noteq> None)"

lemma index_apply_get:
  assumes "length k = 16"
    and "\<And>a. ni_address info = Some a \<Longrightarrow> addr_node_id a = k \<Longrightarrow> addr_sock a \<noteq> None"
  shows "hm_get (fst (index_apply_event info idx)) k =
    (case ni_address info of
       Some a \<Rightarrow> if addr_node_id a = k then Some (index_entry (ni_status info, a)) else hm_get idx k
     | None \<Rightarrow> hm_get idx k)"
  using assms
  by (auto simp: index_apply_event_def parse_node_address_def index_entry_def Let_def split: option.split)

lemma index_fold:
  assumes "length k = 16" "usable k evs"
  shows "hm_get (node_index (fold on_event evs w)) k =
    (case apply_log evs (\<lambda>_. None) k of None \<Rightarrow> hm_get (node_index w) k | Some v \<Rightarrow> Some (index_entry v))"
  using assms(2)
proof (induction evs rule: rev_induct)
  case (snoc e evs)
  have u: "usable k evs" using snoc.prems by (simp add: usable_def)
  show ?case
  proof (cases "ev_node e")
    case None
    then show ?thesis using snoc.IH [OF u] by (simp add: on_event_index apply_event_def)
  next
    case (Some info)
    have "addr_sock a \<noteq> None" if "ni_address info = Some a" "addr_node_id a = k" for a
      using snoc.prems Some that by (auto simp: usable_def)
    then have "hm_get (fst (index_apply_event info (node_index (fold on_event evs w)))) k =
      (case ni_address info of
         Some a \<Rightarrow> if addr_node_id a = k then Some (index_entry (ni_status info, a))
                   else hm_get (node_index (fold on_event evs w)) k
       | None \<Rightarrow> hm_get (node_index (fold on_event evs w)) k)"
      by (rule index_apply_get [OF assms(1)])
    then show ?thesis
      using Some snoc.IH [OF u]
      by (auto simp: on_event_index apply_event_def put_entry_def split: option.split)
  qed
qed simp

text \<open>A log applied to a table overrides it, so that a suffix can be applied twice.\<close>

lemma apply_event_add: "apply_event e M = M ++ apply_event e (\<lambda>_. None)"
  by (auto simp: apply_event_def put_entry_def split: option.split)

lemma apply_log_add: "apply_log evs M = M ++ apply_log evs (\<lambda>_. None)"
proof (induction evs rule: rev_induct)
  case (snoc e evs)
  then show ?case
    using apply_event_add [of e "apply_log evs M"] apply_event_add [of e "apply_log evs (\<lambda>_. None)"]
    by (simp add: map_add_assoc)
qed simp

lemma apply_suffix_again: "apply_log (drop p L) (apply_log L M) = apply_log L M"
proof -
  let ?N = "apply_log (drop p L) (\<lambda>_. None)"
  have "apply_log L M = apply_log (take p L) M ++ ?N"
    using apply_log_add [of "drop p L" "apply_log (take p L) M"] by (simp flip: apply_log_append)
  moreover have "?N ++ ?N = ?N"
    by (auto simp: map_add_def split: option.split)
  ultimately show ?thesis
    using apply_log_add [of "drop p L" "apply_log L M"] by (simp flip: map_add_assoc)
qed

lemma apply_snapshot:
  assumes "hm_wf (nodes r)" "ids_match (nodes r)"
  shows "apply_log (snapshot_as_events r) (\<lambda>_. None) = node_view (nodes r)"
proof -
  have "fold put_entry (map snd ns) M k =
      (case hm_get ns k of None \<Rightarrow> M k | Some info \<Rightarrow> map_option (\<lambda>a. (ni_status info, a)) (ni_address info))"
    if "hm_wf ns" "ids_match ns" for ns M k
    using that
  proof (induction ns arbitrary: M k)
    case (Cons e ns)
    obtain i info where e: "e = (i, info)" by fastforce
    have fresh: "hm_get ns i = None" and wf: "hm_wf ns"
      using Cons.prems(1) e by (auto simp: map_of_eq_None_iff)
    obtain a where a: "ni_address info = Some a" "addr_node_id a = i"
      using ids_match_get [OF Cons.prems(2), of i info] e by auto
    have "ids_match ns" using ids_match_tail Cons.prems e by blast
    note IH = Cons.IH [OF wf this]
    have "put_entry info M = M(i \<mapsto> (ni_status info, a))" using a by (simp add: put_entry_def)
    then show ?case using a fresh by (auto simp: IH e split: option.split)
  qed simp
  from this [OF assms, of "\<lambda>_. None"] show ?thesis
    using apply_log_nodes [of "snapshot_as_events r" "map snd (nodes r)" "\<lambda>_. None"]
    by (simp add: snapshot_as_events_def registry_snapshot_def node_view_def fun_eq_iff comp_def)
qed

section \<open>Addresses do not change\<close>

definition addrs_stable :: "Registry \<Rightarrow> bool" where
  "addrs_stable r \<longleftrightarrow>
     (\<forall>e \<in> set (event_tx r). \<forall>info. ev_node e = Some info \<longrightarrow>
        (\<exists>a i. ni_address info = Some a \<and> hm_get (nodes r) (addr_node_id a) = Some i \<and> ni_address i = Some a))"

definition keeps_addresses :: "Registry \<Rightarrow> Registry \<Rightarrow> bool" where
  "keeps_addresses r r' \<longleftrightarrow>
     (\<forall>k i. hm_get (nodes r) k = Some i \<longrightarrow> (\<exists>i'. hm_get (nodes r') k = Some i' \<and> ni_address i' = ni_address i))"

lemma addrs_stable_mono:
  assumes "addrs_stable r" "keeps_addresses r r'" "event_tx r' = event_tx r @ evs"
    and "\<And>e info. e \<in> set evs \<Longrightarrow> ev_node e = Some info \<Longrightarrow>
      \<exists>a i. ni_address info = Some a \<and> hm_get (nodes r') (addr_node_id a) = Some i \<and> ni_address i = Some a"
  shows "addrs_stable r'"
  unfolding addrs_stable_def
proof (intro ballI allI impI)
  fix e info
  assume e: "e \<in> set (event_tx r')" "ev_node e = Some info"
  then consider "e \<in> set (event_tx r)" | "e \<in> set evs" using assms(3) by auto
  then show "\<exists>a i. ni_address info = Some a \<and> hm_get (nodes r') (addr_node_id a) = Some i \<and> ni_address i = Some a"
  proof cases
    case 1
    then obtain a i where "ni_address info = Some a" "hm_get (nodes r) (addr_node_id a) = Some i" "ni_address i = Some a"
      using assms(1) e(2) unfolding addrs_stable_def by blast
    then show ?thesis using assms(2) unfolding keeps_addresses_def by metis
  next
    case 2
    then show ?thesis using assms(4) e(2) by blast
  qed
qed

lemma keeps_addresses_step: "fresh_id op r \<Longrightarrow> keeps_addresses r (gcs_step op r)"
  by (cases op)
    (auto simp: keeps_addresses_def register_node_def drain_def heartbeat_def sweep_tick_def expire_stale_eq
      hm_get_sweep hm_contains_def Let_def split: sum.split option.split)

lemma flipped_in:
  assumes "info \<in> set (flipped_nodes d ns)" "hm_wf ns" "ids_match ns"
  shows "\<exists>a i. ni_address info = Some a \<and> hm_get (sweep_nodes d ns) (addr_node_id a) = Some i \<and> ni_address i = Some a"
proof -
  obtain k i where ki: "(k, i) \<in> set ns" "is_stale d i" "info = mark_dead i"
    using assms(1) by (auto simp: flipped_nodes_def)
  have get: "hm_get ns k = Some i" using assms(2) ki(1) by simp
  then obtain a where "ni_address i = Some a" "addr_node_id a = k" using ids_match_get [OF assms(3) get] by blast
  then show ?thesis using ki get by (simp add: hm_get_sweep)
qed

lemma step_events:
  assumes inv: "registry_inv r" and fresh: "fresh_id op r"
  obtains evs where "event_tx (gcs_step op r) = event_tx r @ evs"
    and "\<And>e info. e \<in> set evs \<Longrightarrow> ev_node e = Some info \<Longrightarrow>
      \<exists>a i. ni_address info = Some a \<and> hm_get (nodes (gcs_step op r)) (addr_node_id a) = Some i \<and> ni_address i = Some a"
proof (cases op)
  case (GcsSweep now timeout)
  let ?d = "saturating_sub now timeout"
  let ?fl = "flipped_nodes ?d (nodes r)"
  define r' where "r' = with_metrics (\<lambda>m. m\<lparr>nodes_alive := nodes_alive m - int (length ?fl),
         watch_events_published_total := watch_events_published_total m + length ?fl\<rparr>)
        (r\<lparr>nodes := sweep_nodes ?d (nodes r)\<rparr>)"
  have step: "gcs_step op r = fold publish ?fl r'"
    using GcsSweep by (simp add: sweep_tick_def expire_stale_eq r'_def)
  obtain evs where evs: "event_tx (fold publish ?fl r') = event_tx r' @ evs" "map ev_node evs = map Some ?fl"
    using publishes_log by blast
  have "info \<in> set ?fl" if "e \<in> set evs" "ev_node e = Some info" for e info
    using that evs(2) by (metis (no_types, lifting) image_eqI imageE list.set_map option.inject)
  then have "\<exists>a i. ni_address info = Some a \<and> hm_get (nodes (gcs_step op r)) (addr_node_id a) = Some i \<and> ni_address i = Some a"
    if "e \<in> set evs" "ev_node e = Some info" for e info
    using flipped_in [of info ?d "nodes r"] that inv by (simp add: step r'_def registry_inv_def)
  then show ?thesis using that evs(1) by (simp add: step r'_def)
next
  case (GcsDrain raw)
  have m: "ids_match (nodes r)" using inv by (simp add: registry_inv_def)
  show ?thesis
  proof (rule that [of "drop (length (event_tx r)) (event_tx (gcs_step op r))"])
    show "event_tx (gcs_step op r) = event_tx r @ drop (length (event_tx r)) (event_tx (gcs_step op r))"
      using step_log [of op r] by auto
  qed (use GcsDrain ids_match_get [OF m, of raw] in
      \<open>auto simp: drain_def parse_node_id_def Let_def split: option.splits if_splits\<close>)
next
  case (GcsRegister node_id now req)
  then show ?thesis
    using that [of "[]"] that by (fastforce simp: register_node_def Let_def split: if_splits)
next
  case (GcsHeartbeat raw now)
  then have "event_tx (gcs_step op r) = event_tx r @ []"
    by (simp add: heartbeat_def split: sum.split option.split)
  then show ?thesis using that by simp
qed

lemma addrs_stable_step:
  assumes "registry_inv r" "fresh_id op r" "addrs_stable r"
  shows "addrs_stable (gcs_step op r)"
proof -
  obtain evs where evs: "event_tx (gcs_step op r) = event_tx r @ evs"
      "\<And>e info. e \<in> set evs \<Longrightarrow> ev_node e = Some info \<Longrightarrow>
        \<exists>a i. ni_address info = Some a \<and> hm_get (nodes (gcs_step op r)) (addr_node_id a) = Some i \<and> ni_address i = Some a"
    using step_events [OF assms(1,2)] by metis
  show ?thesis by (rule addrs_stable_mono [OF assms(3) keeps_addresses_step [OF assms(2)] evs])
qed

lemma addrs_stable_reachable: "gcs_reachable r \<Longrightarrow> addrs_stable r"
proof (induction rule: gcs_reachable.induct)
  case (start ms session)
  then show ?case by (simp add: addrs_stable_def Registry_new_def)
next
  case (step r op)
  then show ?case using addrs_stable_step reachable_inv by blast
qed

lemma later_reachable: "gcs_later r r' \<Longrightarrow> gcs_reachable r \<Longrightarrow> gcs_reachable r'"
  by (induction rule: gcs_later.induct) (auto intro: gcs_reachable.step)

lemma later_trans: "gcs_later b c \<Longrightarrow> gcs_later a b \<Longrightarrow> gcs_later a c"
  by (induction rule: gcs_later.induct) (auto intro: gcs_later.step)

lemma keeps_addresses_later: "gcs_later r r' \<Longrightarrow> keeps_addresses r r'"
proof (induction rule: gcs_later.induct)
  case (step r r' op)
  have "keeps_addresses r' (gcs_step op r')" using step by (intro keeps_addresses_step)
  with step.IH show ?case unfolding keeps_addresses_def by metis
qed (simp add: keeps_addresses_def)

lemma usable_log:
  assumes "addrs_stable r" "hm_get (nodes r) k = Some info" "ni_address info = Some a" "addr_sock a \<noteq> None"
    and "set evs \<subseteq> set (event_tx r)"
  shows "usable k evs"
  unfolding usable_def
proof (intro ballI allI impI)
  fix e i b
  assume "e \<in> set evs" "ev_node e = Some i" "ni_address i = Some b" "addr_node_id b = k"
  then have "b = a" using assms(1-3,5) unfolding addrs_stable_def by (metis option.inject subsetD)
  then show "addr_sock b \<noteq> None" using assms(4) by simp
qed

lemma usable_snapshot:
  assumes inv: "registry_inv r" and keep: "keeps_addresses r r'"
    and k: "hm_get (nodes r') k = Some info" "ni_address info = Some a" "addr_sock a \<noteq> None"
  shows "usable k (snapshot_as_events r)"
  unfolding usable_def
proof (intro ballI allI impI)
  fix e i b
  assume e: "e \<in> set (snapshot_as_events r)" "ev_node e = Some i" "ni_address i = Some b" "addr_node_id b = k"
  have wf: "hm_wf (nodes r)" and m: "ids_match (nodes r)" using inv by (simp_all add: registry_inv_def)
  obtain j where "(j, i) \<in> set (nodes r)"
    using e(1,2) by (auto simp: snapshot_as_events_def registry_snapshot_def)
  then have get: "hm_get (nodes r) j = Some i" using wf by simp
  then have "j = k" using ids_match_get [OF m get] e(3,4) by simp
  then have "b = a" using keep get k(1,2) e(3) unfolding keeps_addresses_def by fastforce
  then show "addr_sock b \<noteq> None" using k(3) by simp
qed

lemma usable_append [simp]: "usable k (xs @ ys) \<longleftrightarrow> usable k xs \<and> usable k ys"
  by (auto simp: usable_def)

lemma watch_snapshot:
  assumes "log_inv r3" "length (event_tx r3) < 2 ^ 64"
  shows "watch_nodes 0 r1 r2 (map RecvOk (drop p (event_tx r3))) =
    Inr (map Inr (snapshot_as_events r1 @ drop p (event_tx r3)))"
proof -
  have "highest_seq (snapshot_as_events r1) = of_nat 0"
    by (cases "nodes r1" rule: rev_cases) (simp_all add: highest_seq_def snapshot_as_events_def registry_snapshot_def)
  then show ?thesis
    using filter_numbered [of "event_tx r3" 0 p] assms
    by (simp add: watch_nodes_def watch_catchup_def live_items_ok log_inv_def)
qed

lemma snapshot_then_live:
  assumes "registry_inv r1" "registry_inv r3" "event_tx r3 = event_tx r1 @ Y" "p \<le> length (event_tx r1)"
  shows "apply_log (snapshot_as_events r1 @ drop p (event_tx r3)) (\<lambda>_. None) = node_view (nodes r3)"
proof -
  have "apply_log (drop p (event_tx r1)) (node_view (nodes r1)) = node_view (nodes r1)"
    using apply_suffix_again [of p "event_tx r1" "\<lambda>_. None"] assms(1) by (simp add: registry_inv_def)
  moreover have "apply_log Y (node_view (nodes r1)) = node_view (nodes r3)"
    using assms(1-3) by (simp add: registry_inv_def)
  ultimately show ?thesis
    using assms(1,3,4) apply_snapshot [of r1] by (simp add: registry_inv_def)
qed

lemma demo_sock: "addr_sock (the (ni_address demo_info)) = Some (SockV4 [10, 0, 0, 1] 7000)"
  using parse_dotted [of 10 0 0 1 7000]
  by (simp add: demo_info_def addr_sock_def ascii_def dec_digits.simps)

lemma index_apply_other:
  "put_entry info (\<lambda>_. None) k = None \<Longrightarrow> hm_get (fst (index_apply_event info idx)) k = hm_get idx k"
  by (auto simp: put_entry_def index_apply_event_def Let_def split: option.splits if_splits)

lemma index_untouched:
  "apply_log evs (\<lambda>_. None) k = None \<Longrightarrow> hm_get (node_index (fold on_event evs w)) k = hm_get (node_index w) k"
proof (induction evs rule: rev_induct)
  case (snoc e evs)
  then have "apply_log evs (\<lambda>_. None) k = None" "apply_event e (\<lambda>_. None) k = None"
    using fun_cong [OF apply_event_add [of e "apply_log evs (\<lambda>_. None)"], of k]
    by (auto simp: map_add_def split: option.splits)
  then show ?case
    using snoc.IH index_apply_other by (auto simp: on_event_index apply_event_def split: option.split)
qed simp

lemma watch_catchup_future:
  assumes inv: "log_inv r1" "log_inv r2" and le: "length (event_tx r1) \<le> length (event_tx r2)"
    and s: "length (event_tx r2) \<le> s" "0 < s" "s < 2 ^ 64 - 1"
  shows "watch_catchup (of_nat s) r1 r2 = Inr []"
proof -
  have us: "unat (of_nat s :: u64) = s" using s by (simp add: unat_of_nat64)
  then have nz: "(of_nat s :: u64) \<noteq> 0" using s by (metis unat_0 less_numeral_extra(3))
  have us1: "unat ((of_nat s :: u64) + 1) = s + 1" using us s by (subst unat_inc) simp_all
  have seq: "unat (ev_sequence e) \<le> s" if "e \<in> set (replay_buffer r)" "log_inv r" "length (event_tx r) \<le> s" for e r
  proof -
    have n: "numbered (event_tx r)" and "e \<in> set (event_tx r)"
      using that by (auto simp: log_inv_def dest: in_set_dropD)
    then obtain i where "i < length (event_tx r)" "e = event_tx r ! i" by (auto simp: in_set_conv_nth)
    then show ?thesis using unat_numbered [OF n] that(3) s(3) by simp
  qed
  have "\<not> (of_nat s :: u64) + 1 < ev_sequence e" if "oldest_buffered_sequence r1 = Some q" "q = ev_sequence e"
      "e \<in> set (replay_buffer r1)" for e q
    using seq [OF that(3) inv(1)] le s us1 by (simp add: word_less_nat_alt)
  moreover have "buffered_after (of_nat s) r2 = []"
    using seq [OF _ inv(2)] s us by (auto simp: buffered_after_def filter_empty_conv word_less_nat_alt not_less)
  ultimately show ?thesis
    using nz by (auto simp: watch_catchup_def oldest_buffered_sequence_def split: list.splits)
qed

lemma on_event_died:
  assumes "owner_sink w"
  shows "\<exists>one. died (on_event e w) = died w @ one \<and>
    (\<forall>k. status_of (node_index w) k \<noteq> Some Dead \<longrightarrow> status_of (node_index (on_event e w)) k = Some Dead \<longrightarrow> k \<in> set one) \<and>
    (\<forall>k. k \<in> set one \<longrightarrow> (\<exists>info a. ev_node e = Some info \<and> ni_address info = Some a \<and> addr_node_id a = k \<and>
       status_of_i32 (ni_status info) = Dead))"
proof (cases "ev_node e")
  case None
  then show ?thesis by (simp add: on_event_def Let_def)
next
  case (Some info)
  show ?thesis
  proof (cases "parse_node_address info")
    case None
    then show ?thesis using Some by (simp add: on_event_def Let_def index_apply_event_def is_dead_transition_def)
  next
    case addr: (Some sock)
    then obtain a where a: "ni_address info = Some a" by (auto simp: parse_node_address_def bind_eq_Some_conv)
    let ?dead = "length (addr_node_id a) = 16 \<and> status_of_i32 (ni_status info) = Dead \<and>
      status_of (node_index w) (addr_node_id a) \<noteq> Some Dead"
    show ?thesis
      using Some addr a assms
      by (intro exI [of _ "if ?dead then [addr_node_id a] else []"])
        (auto simp: on_event_def Let_def index_apply_event_def is_dead_transition_def node_id_from_addr_def
          status_of_def split: option.splits)
  qed
qed

section \<open>Properties\<close>



lemma stale_round:
  assumes "gcs_reachable r" "gcs_later r r1" "gcs_later r1 r2" "length (event_tx r2) < 2 ^ 64 - 1"
    and "last_seen_sequence w = of_nat s" "0 < s" "s + 1024 < length (event_tx r)"
  shows "watch_round (Round (gcs_subscribe r1 r2 items) False) w = (double_backoff w, Looping)"
proof -
  obtain X Y where ext: "event_tx r1 = event_tx r @ X" "event_tx r2 = event_tx r1 @ Y"
    using later_log [OF assms(2)] later_log [OF assms(3)] by blast
  have "gcs_reachable r1" "gcs_reachable r2" using assms(1-3) later_reachable by blast+
  then have inv: "log_inv r1" "log_inv r2" using reachable_inv registry_inv_def by blast+
  have "\<exists>e. watch_catchup (of_nat s) r1 r2 = Inl e"
    using watch_catchup_resume [OF inv assms(6)] ext assms(4,7) by (simp add: REPLAY_BUFFER_CAPACITY_def)
  then show ?thesis
    using assms(5) by (auto simp: watch_round_def gcs_subscribe_def watch_nodes_def sleep_with_shutdown_def)
qed

lemma min_doubled:
  fixes b c :: nat
  shows "min c (2 ^ n * min (b * 2) c) = min c (2 ^ Suc n * b)"
proof (cases "b * 2 \<le> c")
  case False
  have "1 * c \<le> 2 ^ n * c" by (rule mult_le_mono1) simp
  moreover have "1 * (2 * b) \<le> 2 ^ n * (2 * b)" by (rule mult_le_mono1) simp
  then have "c \<le> 2 ^ Suc n * b" using False by (simp only: power_Suc ac_simps)
  ultimately show ?thesis using False by (simp add: min_absorb1 del: power_Suc)
qed (simp add: mult.commute mult.left_commute)

lemma doubled:
  "(double_backoff w)\<lparr>backoff := min MAX_BACKOFF (2 ^ n * backoff (double_backoff w))\<rparr> =
   w\<lparr>backoff := min MAX_BACKOFF (2 ^ Suc n * backoff w)\<rparr>"
  by (simp add: double_backoff_def min_doubled del: power_Suc)

text \<open>A registry with a long log: the node is drained again and again.\<close>

definition demo_drains :: "nat \<Rightarrow> Registry" where
  "demo_drains n = (gcs_step (GcsDrain (replicate 16 1)) ^^ n) demo_registered"

lemma demo_drains_run:
  "gcs_reachable (demo_drains n) \<and> (\<exists>info. hm_get (nodes (demo_drains n)) (replicate 16 1) = Some info) \<and>
   length (event_tx (demo_drains n)) = Suc n"
proof (induction n)
  case 0
  then show ?case using demo_reachable by (simp add: demo_drains_def)
next
  case (Suc n)
  then obtain info where "hm_get (nodes (demo_drains n)) (replicate 16 1) = Some info" by blast
  moreover have "demo_drains (Suc n) = gcs_step (GcsDrain (replicate 16 1)) (demo_drains n)"
    by (simp add: demo_drains_def)
  ultimately show ?case
    using Suc gcs_reachable.step [of "demo_drains n" "GcsDrain (replicate 16 1)"]
    by (simp add: drain_def parse_node_id_def Let_def)
qed

text \<open>  A watcher whose resume token has fallen out of the replay buffer never recovers: the handler refuses the
  subscription itself, the loop keeps the token, and every further attempt, however many and whatever
  the registry does in between, is refused too.  The index stays as it was, only the sleep grows to 10 s.
\<close>

lemma stale_resume_never_recovers:
  assumes "gcs_reachable r" and "last_seen_sequence w = of_nat s" and "0 < s" and "s + 1024 < length (event_tx r)"
    and "backoff w \<le> 10000"
    and "\<forall>(r1, r2, items) \<in> set attempts.
      gcs_later r r1 \<and> gcs_later r1 r2 \<and> length (event_tx r2) < 2 ^ 64 - 1"
  shows "run_watch_nodes (map (\<lambda>(r1, r2, items). Round (gcs_subscribe r1 r2 items) False) attempts) w =
    (w\<lparr>backoff := min 10000 (2 ^ length attempts * backoff w)\<rparr>, Looping)"
  using assms(2,5,6)
proof (induction attempts arbitrary: w)
  case Nil
  then show ?case by simp
next
  case (Cons t attempts)
  obtain r1 r2 items where t: "t = (r1, r2, items)" by (cases t)
  have step: "watch_round (Round (gcs_subscribe r1 r2 items) False) w = (double_backoff w, Looping)"
    by (rule stale_round [OF assms(1)]) (use Cons.prems t assms(3,4) in auto)
  have "run_watch_nodes (map (\<lambda>(r1, r2, items). Round (gcs_subscribe r1 r2 items) False) attempts) (double_backoff w)
      = ((double_backoff w)\<lparr>backoff := min 10000 (2 ^ length attempts * backoff (double_backoff w))\<rparr>, Looping)"
    by (rule Cons.IH) (use Cons.prems in \<open>simp_all add: double_backoff_def MAX_BACKOFF_def\<close>)
  then show ?case
    using step t doubled [where w = w and n = "length attempts"] by (simp add: MAX_BACKOFF_def)
qed

lemma stale_resume_never_recovers_witness:
  "run_watch_nodes [Round (gcs_subscribe (demo_drains 2000) (demo_drains 2000) []) False]
     ((Watcher_new [] True)\<lparr>last_seen_sequence := 1\<rparr>) =
   ((Watcher_new [] True)\<lparr>last_seen_sequence := 1, backoff := 400\<rparr>, Looping)"
  using stale_resume_never_recovers [of "demo_drains 2000" "(Watcher_new [] True)\<lparr>last_seen_sequence := 1\<rparr>" 1
      "[(demo_drains 2000, demo_drains 2000, [])]"] demo_drains_run [of 2000]
  by (simp add: Watcher_new_def INITIAL_BACKOFF_def gcs_later.same)

text \<open>  After a restart of the control store a watcher resumes with a token of the old instance.  While the new
  log is not longer than the token, the handler answers with an empty catch-up batch and no error, so that
  of the new log only the events after the subscription arrive: every node that registered with the new
  instance before that, and has no event after it, stays unknown to the index (or keeps its old entry).
\<close>

lemma restart_hides_registered_nodes:
  assumes "gcs_reachable r0" and "gcs_later r0 r1" and "gcs_later r1 r2" and "gcs_later r2 r3"
    and "length (event_tx r2) \<le> s" and "0 < s" and "s < 2 ^ 64 - 1" and "length (event_tx r3) < 2 ^ 64"
    and "last_seen_sequence w = of_nat s"
  shows "\<exists>stream.
    gcs_subscribe r1 r2 (map RecvOk (drop (length (event_tx r0)) (event_tx r3))) (last_seen_sequence w) = Inr stream \<and>
    stream = map StreamNext (map Inr (drop (length (event_tx r0)) (event_tx r3))) \<and>
    (\<forall>k. apply_log (drop (length (event_tx r0)) (event_tx r3)) (\<lambda>_. None) k = None \<longrightarrow>
       hm_get (node_index (fst (consume_stream stream w))) k = hm_get (node_index w) k)"
proof -
  let ?evs = "drop (length (event_tx r0)) (event_tx r3)"
  have "gcs_reachable r1" "gcs_reachable r2" "gcs_reachable r3" using assms(1-4) later_reachable by blast+
  then have inv: "log_inv r1" "log_inv r2" "log_inv r3" using reachable_inv registry_inv_def by blast+
  have c: "watch_catchup (of_nat s) r1 r2 = Inr []"
    using later_log [OF assms(3)] by (intro watch_catchup_future [OF inv(1,2) _ assms(5-7)]) auto
  have "filter (\<lambda>e. (0 :: u64) < ev_sequence e) ?evs = ?evs"
    using filter_numbered [of "event_tx r3" 0 "length (event_tx r0)"] inv(3) assms(8) by (simp add: log_inv_def)
  then have "gcs_subscribe r1 r2 (map RecvOk ?evs) (last_seen_sequence w) = Inr (map StreamNext (map Inr ?evs))"
    using c assms(9) by (simp add: gcs_subscribe_def watch_nodes_def live_items_ok highest_seq_def)
  moreover have "hm_get (node_index (fold on_event evs w)) k = hm_get (node_index w) k"
    if "apply_log evs (\<lambda>_. None) k = None" for k evs
    using that by (rule index_untouched)
  ultimately show ?thesis
    by (intro exI [of _ "map StreamNext (map Inr ?evs)"]) (simp only: consume_events_only fst_conv, simp)
qed

lemma restart_hides_registered_nodes_witness:
  "\<exists>stream.
    gcs_subscribe demo_registered demo_registered [] (last_seen_sequence ((Watcher_new [] True)\<lparr>last_seen_sequence := 7\<rparr>))
      = Inr stream \<and>
    hm_get (node_index (fst (consume_stream stream ((Watcher_new [] True)\<lparr>last_seen_sequence := 7\<rparr>)))) (replicate 16 1) = None"
  using restart_hides_registered_nodes [OF demo_reachable gcs_later.same gcs_later.same gcs_later.same,
      of 7 "(Watcher_new [] True)\<lparr>last_seen_sequence := 7\<rparr>"]
  by (simp add: Watcher_new_def)

text \<open>  The owner sink hears of every death: if a node is not dead in the index before a stretch of the stream and dead
  after it, \<open>on_owner_died\<close> was called for it in between; and it is called for no node without an event that
  carries the status dead.
\<close>

lemma owner_died_reported:
  assumes "owner_sink w" and "consume_stream inputs w = (w', outcome)"
  shows "\<exists>reported. died w' = died w @ reported \<and>
    (\<forall>k. status_of (node_index w) k \<noteq> Some Dead \<longrightarrow> status_of (node_index w') k = Some Dead \<longrightarrow> k \<in> set reported) \<and>
    (\<forall>k \<in> set reported. \<exists>e info a. StreamNext (Inr e) \<in> set inputs \<and> ev_node e = Some info \<and>
       ni_address info = Some a \<and> addr_node_id a = k \<and> status_of_i32 (ni_status info) = Dead)"
  using assms
proof (induction inputs w rule: consume_stream.induct)
  case (5 e rest w)
  obtain rep where rep: "died w' = died (on_event e w) @ rep"
      "\<And>k. status_of (node_index (on_event e w)) k \<noteq> Some Dead \<Longrightarrow> status_of (node_index w') k = Some Dead \<Longrightarrow> k \<in> set rep"
      "\<And>k. k \<in> set rep \<Longrightarrow> \<exists>e info a. StreamNext (Inr e) \<in> set rest \<and> ev_node e = Some info \<and>
       ni_address info = Some a \<and> addr_node_id a = k \<and> status_of_i32 (ni_status info) = Dead"
    using "5.IH" "5.prems" by auto
  obtain one where one: "died (on_event e w) = died w @ one"
      "\<And>k. status_of (node_index w) k \<noteq> Some Dead \<Longrightarrow> status_of (node_index (on_event e w)) k = Some Dead \<Longrightarrow> k \<in> set one"
      "\<And>k. k \<in> set one \<Longrightarrow> \<exists>info a. ev_node e = Some info \<and>
       ni_address info = Some a \<and> addr_node_id a = k \<and> status_of_i32 (ni_status info) = Dead"
    using on_event_died [of w e] "5.prems"(1) by blast
  show ?case
  proof (intro exI [of _ "one @ rep"] conjI allI impI ballI)
    fix k
    assume "status_of (node_index w) k \<noteq> Some Dead" "status_of (node_index w') k = Some Dead"
    then show "k \<in> set (one @ rep)" using one(2) rep(2) by (cases "status_of (node_index (on_event e w)) k = Some Dead") auto
  next
    fix k
    assume "k \<in> set (one @ rep)"
    then show "\<exists>ev info a. StreamNext (Inr ev) \<in> set (StreamNext (Inr e) # rest) \<and> ev_node ev = Some info \<and>
       ni_address info = Some a \<and> addr_node_id a = k \<and> status_of_i32 (ni_status info) = Dead"
      using one(3) rep(3) by (metis Un_iff list.set_intros set_append)
  qed (simp add: one(1) rep(1))
qed simp_all

lemma owner_died_reported_witness:
  "\<exists>w' outcome reported.
     consume_stream [StreamNext (Inr \<lparr>ev_sequence = 1, ev_node = Some (demo_info\<lparr>ni_status := 3\<rparr>)\<rparr>)] (Watcher_new [] True)
       = (w', outcome) \<and> died w' = reported \<and>
     (status_of (node_index w') (replicate 16 1) = Some Dead \<longrightarrow> replicate 16 1 \<in> set reported)"
proof -
  obtain w' outcome where c: "consume_stream [StreamNext (Inr \<lparr>ev_sequence = 1, ev_node = Some (demo_info\<lparr>ni_status := 3\<rparr>)\<rparr>)]
      (Watcher_new [] True) = (w', outcome)" by fastforce
  have "owner_sink (Watcher_new [] True)" "died (Watcher_new [] True) = []"
      "status_of (node_index (Watcher_new [] True)) (replicate 16 1) \<noteq> Some Dead"
    by (simp_all add: Watcher_new_def status_of_def)
  then show ?thesis using owner_died_reported [OF _ c] c by auto
qed

end
