(* ===== verification/Plasma_Wire.thy ===== *)
theory Plasma_Wire
imports Plasma_Client
begin

text \<open>
  The socket between client and server, \<open>rayd-plasma/src/scm.rs\<close> and the use of \<open>codec.rs\<close>.  A direction of
  the socket is the list of bytes in flight, each with the number of descriptors attached to it.  What the
  kernel answers to the system calls of one frame is an \<open>io\<close>: how many bytes a call moved, \<open>None\<close> for an
  error.  A run that has used up its answers is blocked in a call, which is the result \<open>None\<close>.  The
  \<open>bincode\<close> encoding is the parameter \<open>wire_codec\<close>.
\<close>

section \<open>Frames\<close>

definition MAX_FRAME_BYTES :: nat where
  "MAX_FRAME_BYTES = 8 * 1024 * 1024"

definition HEADER_SIZE :: nat where
  "HEADER_SIZE = 4"

type_synonym channel = "(byte \<times> nat) list"

record io =
  hdr_send :: "nat option"
  writes :: "nat option list"
  hdr_recv :: "nat option"
  reads :: "nat option list"

definition plain :: "bytes \<Rightarrow> channel" where
  "plain bs = map (\<lambda>b. (b, 0)) bs"

fun write_loop :: "nat option list \<Rightarrow> bytes \<Rightarrow> channel \<Rightarrow> (channel \<times> (PlasmaError, unit) result) option" where
  "write_loop ns [] ch = Some (ch, Inr ())"
| "write_loop [] (b # bs) ch = None"
| "write_loop (None # ns) (b # bs) ch = Some (ch, Inl PlasmaIo)"
| "write_loop (Some n # ns) (b # bs) ch =
     (if n = 0 then Some (ch, Inl (PlasmaProtocol (ascii ''EOF mid-body during send'')))
      else write_loop ns (drop n (b # bs)) (ch @ plain (take n (b # bs))))"

definition send_frame :: "io \<Rightarrow> bytes \<Rightarrow> bool \<Rightarrow> channel \<Rightarrow> (channel \<times> (PlasmaError, unit) result) option" where
  "send_frame k body fd ch =
     (case u32_try_from (length body) of
        None \<Rightarrow> Some (ch, Inl (PlasmaProtocol (ascii ''frame too large: '')))
      | Some len \<Rightarrow>
          (case hdr_send k of
             None \<Rightarrow> Some (ch, Inl PlasmaNix)
           | Some n \<Rightarrow>
               (let hd_bytes = zip (u32_to_le_bytes len) [of_bool fd, 0, 0, 0];
                    ch1 = ch @ take n hd_bytes
                in if min n HEADER_SIZE \<noteq> HEADER_SIZE
                   then Some (ch1, Inl (PlasmaProtocol (ascii ''short header send: '')))
                   else write_loop (writes k) body ch1)))"

fun read_loop :: "nat option list \<Rightarrow> nat \<Rightarrow> bytes \<Rightarrow> channel \<Rightarrow> (channel \<times> (PlasmaError, bytes) result) option" where
  "read_loop ns 0 acc ch = Some (ch, Inr acc)"
| "read_loop [] (Suc m) acc ch = None"
| "read_loop (None # ns) (Suc m) acc ch = Some (ch, Inl PlasmaIo)"
| "read_loop (Some n # ns) (Suc m) acc ch =
     (let k = min n (min (Suc m) (length ch))
      in if k = 0 then Some (ch, Inl (PlasmaProtocol (ascii ''EOF mid-body during recv'')))
         else read_loop ns (Suc m - k) (acc @ map fst (take k ch)) (drop k ch))"

definition recv_frame :: "io \<Rightarrow> channel \<Rightarrow> (channel \<times> (PlasmaError, bytes \<times> nat) result) option" where
  "recv_frame k ch =
     (case hdr_recv k of
        None \<Rightarrow> Some (ch, Inl PlasmaNix)
      | Some n \<Rightarrow>
          (let got = take (min n HEADER_SIZE) ch; ch1 = drop (min n HEADER_SIZE) ch
           in if length got \<noteq> HEADER_SIZE
              then Some (ch1, Inl (PlasmaProtocol (ascii ''short header recv: '')))
              else
                (let fds = sum_list (map snd got); len = unat (u32_from_le_bytes (map fst got))
                 in if MAX_FRAME_BYTES < len
                    then Some (ch1, Inl (PlasmaProtocol (ascii ''frame too large: '')))
                    else
                      (case read_loop (reads k) len [] ch1 of
                         None \<Rightarrow> None
                       | Some (ch2, Inl e) \<Rightarrow> Some (ch2, Inl e)
                       | Some (ch2, Inr body) \<Rightarrow> Some (ch2, Inr (body, fds))))))"

section \<open>Exchanges over the socket\<close>

record wire_codec =
  encode_request :: "Request \<Rightarrow> bytes option"
  decode_request :: "bytes \<Rightarrow> (bytes, Request) result"
  encode_response :: "Response \<Rightarrow> bytes option"
  decode_response :: "bytes \<Rightarrow> Response option"

text \<open>The second component is what is in flight to the client; a connection that ends leaves it empty.\<close>

definition send_response ::
  "wire_codec \<Rightarrow> io \<Rightarrow> Response \<Rightarrow> bool \<Rightarrow> PlasmaServer \<Rightarrow> (PlasmaServer \<times> channel) option" where
  "send_response c k r fd s =
     (case encode_response c r of
        None \<Rightarrow> Some (s, [])
      | Some body \<Rightarrow> (case send_frame k body fd [] of None \<Rightarrow> None | Some (out, _) \<Rightarrow> Some (s, out)))"

definition serve_frame ::
  "wire_codec \<Rightarrow> io \<Rightarrow> io \<Rightarrow> channel \<Rightarrow> PlasmaServer \<Rightarrow> (PlasmaServer \<times> channel) option" where
  "serve_frame c k1 k2 ch s =
     (case recv_frame k1 ch of
        None \<Rightarrow> None
      | Some (_, Inl e) \<Rightarrow> Some (s, [])
      | Some (_, Inr (body, _)) \<Rightarrow>
          (case decode_request c body of
             Inl msg \<Rightarrow> send_response c k2 (ResponseError Internal (ascii ''malformed request: '' @ msg)) False s
           | Inr req \<Rightarrow>
               (case handle_request req s of
                  None \<Rightarrow> Some (s, [])
                | Some (s', None) \<Rightarrow> Some (s', [])
                | Some (s', Some (r, fd)) \<Rightarrow> send_response c k2 r fd s')))"

text \<open>The first three statements of every client method, around one iteration of the server's loop.\<close>

definition socket_exchange ::
  "wire_codec \<Rightarrow> io \<Rightarrow> io \<Rightarrow> Request \<Rightarrow> PlasmaServer \<Rightarrow>
     (PlasmaServer \<times> (PlasmaError, Response \<times> nat) result) option" where
  "socket_exchange c k1 k2 req s =
     (case encode_request c req of
        None \<Rightarrow> Some (s, Inl PlasmaEncode)
      | Some body \<Rightarrow>
          (case send_frame k1 body False [] of
             None \<Rightarrow> None
           | Some (_, Inl e) \<Rightarrow> Some (s, Inl e)
           | Some (ch, Inr _) \<Rightarrow>
               (case serve_frame c k1 k2 ch s of
                  None \<Rightarrow> None
                | Some (s', out) \<Rightarrow>
                    (case recv_frame k2 out of
                       None \<Rightarrow> None
                     | Some (_, Inl e) \<Rightarrow> Some (s', Inl e)
                     | Some (_, Inr (rbody, fds)) \<Rightarrow>
                         (case decode_response c rbody of
                            None \<Rightarrow> Some (s', Inl PlasmaDecode)
                          | Some r \<Rightarrow> Some (s', Inr (r, fds)))))))"

section \<open>One frame\<close>

text \<open>The kernel makes progress: headers move whole and every other call moves at least one byte.\<close>

definition progress :: "nat \<Rightarrow> nat option list \<Rightarrow> bool" where
  "progress len ns \<longleftrightarrow> len \<le> length ns \<and> list_all (\<lambda>a. case a of None \<Rightarrow> False | Some n \<Rightarrow> 0 < n) ns"

definition io_ok :: "nat \<Rightarrow> io \<Rightarrow> bool" where
  "io_ok len k \<longleftrightarrow> hdr_send k = Some HEADER_SIZE \<and> hdr_recv k = Some HEADER_SIZE
     \<and> progress len (writes k) \<and> progress len (reads k)"

definition frame_of :: "bytes \<Rightarrow> bool \<Rightarrow> channel" where
  "frame_of body fd = zip (u32_to_le_bytes (of_nat (length body))) [of_bool fd, 0, 0, 0] @ plain body"

lemma progress_Cons: "progress len ns \<Longrightarrow> 0 < len \<Longrightarrow> \<exists>n ns'. ns = Some n # ns' \<and> 0 < n \<and> progress (len - n) ns'"
  by (cases ns) (auto simp: progress_def split: option.splits)

lemma write_loop_done: "progress (length body) ns \<Longrightarrow> write_loop ns body ch = Some (ch @ plain body, Inr ())"
proof (induction "length body" arbitrary: ns body ch rule: less_induct)
  case less
  show ?case
  proof (cases body)
    case (Cons b bs)
    obtain n ns' where ns: "ns = Some n # ns'" "0 < n" "progress (length body - n) ns'"
      using progress_Cons [OF less.prems] Cons by auto
    have "write_loop ns' (drop n body) (ch @ plain (take n body)) =
        Some ((ch @ plain (take n body)) @ plain (drop n body), Inr ())"
      using less.hyps [of "drop n body" ns'] ns(2,3) Cons by simp
    then show ?thesis
      using ns(1,2) Cons by (simp add: plain_def flip: map_append)
  qed (simp add: plain_def)
qed

lemma read_loop_done:
  "progress (length body) ns \<Longrightarrow> read_loop ns (length body) acc (plain body @ rest) = Some (rest, Inr (acc @ body))"
proof (induction "length body" arbitrary: ns body acc rule: less_induct)
  case less
  show ?case
  proof (cases body)
    case (Cons b bs)
    obtain n ns' where ns: "ns = Some n # ns'" "0 < n" "progress (length body - n) ns'"
      using progress_Cons [OF less.prems] Cons by auto
    define k where "k = min n (length body)"
    have k: "0 < k" "k \<le> length body" "min n (min (length body) (length (plain body @ rest))) = k"
      using ns(2) Cons by (auto simp: k_def plain_def)
    have "read_loop ns' (length (drop k body)) (acc @ take k body) (plain (drop k body) @ rest) =
        Some (rest, Inr ((acc @ take k body) @ drop k body))"
      using less.hyps [of "drop k body" ns' "acc @ take k body"] ns k by (simp add: k_def min_def split: if_splits)
    moreover have "map fst (take k (plain body @ rest)) = take k body" "drop k (plain body @ rest) = plain (drop k body) @ rest"
      using k(2) by (simp_all add: plain_def take_map drop_map comp_def)
    moreover obtain m where "length body = Suc m" using Cons by simp
    ultimately show ?thesis
      using ns(1) k by (simp add: Let_def)
  qed (simp add: plain_def)
qed

lemma header_facts:
  assumes "length body < 2 ^ 32"
  shows "u32_try_from (length body) = Some (of_nat (length body))"
    and "unat (of_nat (length body) :: u32) = length body"
  using assms by (simp_all add: u32_try_from_def unat_of_nat)

lemma send_frame_done:
  assumes "io_ok (length body) k" and "length body < 2 ^ 32"
  shows "send_frame k body fd ch = Some (ch @ frame_of body fd, Inr ())"
  using assms write_loop_done [of body "writes k"] header_facts [OF assms(2)]
  by (simp add: send_frame_def io_ok_def HEADER_SIZE_def frame_of_def Let_def)

lemma header_taken:
  "take 4 (frame_of body fd @ rest) = zip (u32_to_le_bytes (of_nat (length body))) [of_bool fd, 0, 0, 0]"
  "drop 4 (frame_of body fd @ rest) = plain body @ rest"
  by (simp_all add: frame_of_def)

lemma header_parts:
  "map fst (zip (u32_to_le_bytes w) [f, 0, 0, 0]) = u32_to_le_bytes w"
  "sum_list (map snd (zip (u32_to_le_bytes w) [f :: nat, 0, 0, 0])) = f"
  by (simp_all add: map_fst_zip map_snd_zip)

lemma recv_frame_done:
  assumes "io_ok (length body) k" and "length body \<le> MAX_FRAME_BYTES"
  shows "recv_frame k (frame_of body fd @ rest) = Some (rest, Inr (body, of_bool fd))"
proof -
  have len: "length body < 2 ^ 32" using assms(2) by (simp add: MAX_FRAME_BYTES_def)
  show ?thesis
    using assms read_loop_done [of body "reads k" "[]" rest] header_facts(2) [OF len]
    by (simp add: recv_frame_def io_ok_def HEADER_SIZE_def header_taken header_parts Let_def
        del: take_append drop_append)
qed

text \<open>
  A frame above the limit of the receiver is sent without complaint.  The receiver refuses it after the
  header, and the body stays in the socket, where the next call takes its first bytes for a header.
\<close>

lemma oversized_frame_stays_in_stream:
  assumes "io_ok (length body) k" and "MAX_FRAME_BYTES < length body" and "length body < 2 ^ 32"
  shows "send_frame k body fd [] = Some (frame_of body fd, Inr ())
    \<and> (\<exists>msg. recv_frame k (frame_of body fd) = Some (plain body, Inl (PlasmaProtocol msg)))"
  using send_frame_done [OF assms(1,3), of fd "[]"] assms(1,2) header_facts(2) [OF assms(3)]
    header_taken [of body fd "[]"]
  by (simp add: recv_frame_def io_ok_def HEADER_SIZE_def header_parts Let_def)

section \<open>Properties\<close>

fun send_all :: "io list \<Rightarrow> (bytes \<times> bool) list \<Rightarrow> channel \<Rightarrow> (channel \<times> (PlasmaError, unit) result) option" where
  "send_all (k # ks) ((body, fd) # frames) ch =
     (case send_frame k body fd ch of Some (ch', Inr _) \<Rightarrow> send_all ks frames ch' | other \<Rightarrow> other)"
| "send_all _ _ ch = Some (ch, Inr ())"

fun recv_all :: "io list \<Rightarrow> channel \<Rightarrow> (channel \<times> (PlasmaError, (bytes \<times> nat) list) result) option" where
  "recv_all [] ch = Some (ch, Inr [])"
| "recv_all (k # ks) ch =
     (case recv_frame k ch of
        None \<Rightarrow> None
      | Some (ch', Inl e) \<Rightarrow> Some (ch', Inl e)
      | Some (ch', Inr x) \<Rightarrow>
          (case recv_all ks ch' of
             None \<Rightarrow> None
           | Some (ch'', Inl e) \<Rightarrow> Some (ch'', Inl e)
           | Some (ch'', Inr xs) \<Rightarrow> Some (ch'', Inr (x # xs))))"

definition frames_ok :: "io list \<Rightarrow> (bytes \<times> bool) list \<Rightarrow> bool" where
  "frames_ok ks frames \<longleftrightarrow>
     list_all2 (\<lambda>k (body, fd). length body \<le> MAX_FRAME_BYTES \<and> io_ok (length body) k) ks frames"

abbreviation stream_of :: "(bytes \<times> bool) list \<Rightarrow> channel" where
  "stream_of frames \<equiv> concat (map (\<lambda>(body, fd). frame_of body fd) frames)"

lemma send_all_done:
  "frames_ok ks frames \<Longrightarrow> send_all ks frames ch = Some (ch @ stream_of frames, Inr ())"
proof (induction ks frames ch rule: send_all.induct)
  case (1 k ks body fd frames ch)
  then have b: "length body \<le> MAX_FRAME_BYTES" "io_ok (length body) k" "frames_ok ks frames"
    by (simp_all add: frames_ok_def)
  then have "length body < 2 ^ 32" by (simp add: MAX_FRAME_BYTES_def)
  note sent = send_frame_done [OF b(2) this, of fd ch]
  from 1(1) [OF sent refl refl b(3)] sent show ?case by simp
qed (auto simp: frames_ok_def)

lemma recv_all_done:
  "frames_ok ks frames \<Longrightarrow>
     recv_all ks (stream_of frames @ rest) = Some (rest, Inr (map (map_prod (\<lambda>x. x) of_bool) frames))"
proof (induction ks arbitrary: frames)
  case (Cons k ks)
  then obtain body fd frames' where f: "frames = (body, fd) # frames'" "length body \<le> MAX_FRAME_BYTES"
      "io_ok (length body) k" "frames_ok ks frames'"
    by (auto simp: frames_ok_def list_all2_Cons1)
  then show ?case
    using Cons.IH [OF f(4)] recv_frame_done [OF f(3,2), of fd "stream_of frames' @ rest"] by simp
qed (simp add: frames_ok_def)

text \<open>Framing is a round trip for any sequence of frames of at most 8 MiB: however the kernel splits the
  writes and the reads into short counts, both sides finish, and the receiver gets the bodies in order, each with the
  descriptors attached to it, and leaves nothing behind.\<close>

lemma frames_round_trip:
  assumes "frames_ok ks frames"
  shows "\<exists>ch. send_all ks frames [] = Some (ch, Inr ())
    \<and> recv_all ks (ch @ rest) = Some (rest, Inr (map (map_prod (\<lambda>x. x) of_bool) frames))"
  using send_all_done [OF assms, of "[]"] recv_all_done [OF assms, of rest] by simp

definition example_io :: io where
  "example_io = \<lparr>hdr_send = Some 4, writes = replicate 64 (Some 1), hdr_recv = Some 4, reads = replicate 64 (Some 3)\<rparr>"

lemma example_io_ok: "n \<le> 64 \<Longrightarrow> io_ok n example_io"
  by (simp add: io_ok_def example_io_def HEADER_SIZE_def progress_def list_all_iff)

lemma frames_round_trip_witness:
  "\<exists>ch. send_all [example_io, example_io] [([1, 2, 3], True), ([], False)] [] = Some (ch, Inr ())
    \<and> recv_all [example_io, example_io] (ch @ plain [7]) = Some (plain [7], Inr [([1, 2, 3], 1), ([], 0)])"
  using frames_round_trip [of "[example_io, example_io]" "[([1, 2, 3], True), ([], False)]" "plain [7]"]
  by (simp add: frames_ok_def example_io_ok MAX_FRAME_BYTES_def)


text \<open>A fragment of the little-endian fixed-width format: a tag of four bytes, then the id.\<close>

definition example_codec :: wire_codec where
  "example_codec =
     \<lparr>encode_request = (\<lambda>req. case req of Delete oid \<Rightarrow> Some ([5, 0, 0, 0] @ oid) | List \<Rightarrow> Some [6, 0, 0, 0] | _ \<Rightarrow> None),
      decode_request = (\<lambda>bs. if take 4 bs = [5, 0, 0, 0] then Inr (Delete (drop 4 bs))
        else if take 4 bs = [6, 0, 0, 0] then Inr List else Inl []),
      encode_response = (\<lambda>r. case r of ResponseOk \<Rightarrow> Some [0, 0, 0, 0] | _ \<Rightarrow> None),
      decode_response = (\<lambda>bs. if bs = [0, 0, 0, 0] then Some ResponseOk else None)\<rparr>"


end
