(* ===== verification/Raylet.thy ===== *)
theory Raylet
imports Core_Worker Gcs_Nodes
begin

text \<open>
  The object transport between nodes: the raylet's service and client (\<open>rayd-raylet/src/service.rs\<close>, \<open>client.rs\<close>), its
  replica directory (\<open>directory.rs\<close>) and the sink that feeds borrower changes to the owner's worker
  (\<open>owner_sink.rs\<close>, \<open>rayd-py/src/owner_sink_impl.rs\<close>).  A stream is the list of its items.  The bytes of a
  pulled object are read when the handle is opened; that they do not change while they are streamed is the
  stability of read handles shown for the plasma client.  The texts of operating-system and library errors are an argument.
\<close>

section \<open>Replica directory\<close>

type_synonym ObjectDirectory = "(bytes, bytes set) hmap"

definition directory_register :: "bytes \<Rightarrow> bytes \<Rightarrow> ObjectDirectory \<Rightarrow> ObjectDirectory" where
  "directory_register object_id node_id d = hm_upsert object_id {} (insert node_id) d"

definition directory_remove :: "bytes \<Rightarrow> bytes \<Rightarrow> ObjectDirectory \<Rightarrow> ObjectDirectory" where
  "directory_remove object_id node_id d =
     (case hm_get d object_id of
        None \<Rightarrow> d
      | Some ns \<Rightarrow>
          (let ns' = ns - {node_id}
           in if ns' = {} then hm_remove object_id (hm_insert object_id ns' d) else hm_insert object_id ns' d))"

definition directory_locations :: "bytes \<Rightarrow> ObjectDirectory \<Rightarrow> bytes set" where
  "directory_locations object_id d = (case hm_get d object_id of None \<Rightarrow> {} | Some ns \<Rightarrow> ns)"

definition directory_len :: "ObjectDirectory \<Rightarrow> nat" where
  "directory_len d = length d"

section \<open>State\<close>

datatype SinkCall = SinkAddBorrower bytes bytes | SinkRemoveBorrower bytes bytes

record RayletMetrics =
  pull_total :: nat
  push_total :: nat
  register_object_total :: nat
  directory_entries :: nat
  get_object_locations_total :: nat
  spill_restore_total :: nat

text \<open>\<open>sink_calls\<close> lists what the owner sink, if there is one, was called with.\<close>

record Raylet =
  rl_plasma :: conn
  rl_directory :: ObjectDirectory
  sink_calls :: "SinkCall list option"
  object_manager :: "fs_manager option"
  rl_metrics :: "RayletMetrics option"

definition raylet_metric :: "(RayletMetrics \<Rightarrow> RayletMetrics) \<Rightarrow> Raylet \<Rightarrow> Raylet" where
  "raylet_metric f r = r\<lparr>rl_metrics := map_option f (rl_metrics r)\<rparr>"

definition parse_object_id :: "bytes \<Rightarrow> (GrpcStatus, bytes) result" where
  "parse_object_id bs =
     (if length bs \<noteq> 28
      then Inl (GrpcStatus InvalidArgument (ascii ''object_id must be 28 bytes, got '' @ dec_digits (length bs)))
      else Inr bs)"

definition kind_debug :: "ServerErrorKind \<Rightarrow> bytes" where
  "kind_debug k =
     (case k of NotFound \<Rightarrow> ascii ''NotFound'' | AlreadyExists \<Rightarrow> ascii ''AlreadyExists''
      | OutOfMemory \<Rightarrow> ascii ''OutOfMemory'' | NotSealed \<Rightarrow> ascii ''NotSealed''
      | AlreadySealed \<Rightarrow> ascii ''AlreadySealed'' | Internal \<Rightarrow> ascii ''Internal'')"

definition plasma_display :: "(PlasmaError \<Rightarrow> bytes) \<Rightarrow> PlasmaError \<Rightarrow> bytes" where
  "plasma_display lib e =
     (case e of
        PlasmaServerError k m \<Rightarrow> ascii ''plasma server error: '' @ kind_debug k @ ascii '': '' @ m
      | PlasmaProtocol m \<Rightarrow> ascii ''plasma protocol mismatch: '' @ m
      | PlasmaMmap m \<Rightarrow> ascii ''plasma mmap: '' @ m
      | MissingFd \<Rightarrow> ascii ''plasma: missing file descriptor in server reply''
      | _ \<Rightarrow> lib e)"

definition plasma_to_status :: "(PlasmaError \<Rightarrow> bytes) \<Rightarrow> PlasmaError \<Rightarrow> GrpcStatus" where
  "plasma_to_status lib e =
     (case e of
        PlasmaServerError NotFound _ \<Rightarrow> GrpcStatus CodeNotFound (ascii ''object not present in plasma'')
      | PlasmaServerError NotSealed _ \<Rightarrow> GrpcStatus FailedPrecondition (ascii ''object exists but is unsealed'')
      | _ \<Rightarrow> GrpcStatus CodeInternal (ascii ''plasma: '' @ plasma_display lib e))"

section \<open>Reading with restore\<close>

definition reopen ::
  "(PlasmaError \<Rightarrow> bytes) \<Rightarrow> bytes \<Rightarrow> Raylet \<Rightarrow> Raylet \<times> (GrpcStatus, bytes \<times> bytes) result" where
  "reopen lib oid r =
     (case client_get_bytes direct_exchange oid (rl_plasma r) of
        (st, Inr x) \<Rightarrow> (r\<lparr>rl_plasma := st\<rparr>, Inr x)
      | (st, Inl e) \<Rightarrow> (r\<lparr>rl_plasma := st\<rparr>, Inl (plasma_to_status lib e)))"

definition reseal ::
  "(PlasmaError \<Rightarrow> bytes) \<Rightarrow> bytes \<Rightarrow> RestoredObject \<Rightarrow> Raylet \<Rightarrow> Raylet \<times> (GrpcStatus, bytes \<times> bytes) result" where
  "reseal lib oid restored r =
     (case client_create_and_seal direct_exchange oid (restored_metadata restored) (restored_data restored)
             AddressBlob_nil (rl_plasma r) of
        (st, Inr _) \<Rightarrow> reopen lib oid (r\<lparr>rl_plasma := st\<rparr>)
      | (st, Inl e) \<Rightarrow>
          if is_already_exists e then reopen lib oid (r\<lparr>rl_plasma := st\<rparr>)
          else (r\<lparr>rl_plasma := st\<rparr>, Inl (plasma_to_status lib e)))"

text \<open>A panic of the blocking task is reported with the text of the join error, of which the prefix is kept.\<close>

definition restore_spilled ::
  "(PlasmaError \<Rightarrow> bytes) \<Rightarrow> bytes \<Rightarrow> Raylet \<Rightarrow> Raylet \<times> (GrpcStatus, bytes \<times> bytes) result" where
  "restore_spilled lib oid r =
     (case object_manager r of
        None \<Rightarrow> (r, Inl (GrpcStatus CodeNotFound (ascii ''object not present in plasma'')))
      | Some m \<Rightarrow>
          (case mgr_restore fs_restore oid m of
             (m', Inr (Some restored)) \<Rightarrow>
               reseal lib oid restored
                 (raylet_metric (\<lambda>x. x\<lparr>spill_restore_total := spill_restore_total x + 1\<rparr>) (r\<lparr>object_manager := Some m'\<rparr>))
           | (m', Inr None) \<Rightarrow>
               (r\<lparr>object_manager := Some m'\<rparr>, Inl (GrpcStatus CodeNotFound (ascii ''object not present in plasma or spill'')))
           | (m', Inl e) \<Rightarrow>
               (r\<lparr>object_manager := Some m'\<rparr>,
                Inl (GrpcStatus CodeInternal
                  (if e = SpillPanic then ascii ''plasma blocking task panicked: ''
                   else ascii ''spill restore: '' @ spill_error_display e)))))"

definition plasma_get_with_restore ::
  "(PlasmaError \<Rightarrow> bytes) \<Rightarrow> bytes \<Rightarrow> Raylet \<Rightarrow> Raylet \<times> (GrpcStatus, bytes \<times> bytes) result" where
  "plasma_get_with_restore lib oid r =
     (case client_get_bytes direct_exchange oid (rl_plasma r) of
        (st, Inr x) \<Rightarrow> (r\<lparr>rl_plasma := st\<rparr>, Inr x)
      | (st, Inl e) \<Rightarrow>
          if is_not_found e then restore_spilled lib oid (r\<lparr>rl_plasma := st\<rparr>)
          else (r\<lparr>rl_plasma := st\<rparr>, Inl (plasma_to_status lib e)))"

section \<open>Pull\<close>

definition PULL_CHUNK_SIZE :: nat where
  "PULL_CHUNK_SIZE = 64 * 1024"

datatype PullKind = PullMeta bytes u64 | PullData bytes

text \<open>The slicing loop of the streaming task.\<close>

function pull_loop :: "bytes \<Rightarrow> nat \<Rightarrow> PullKind list" where
  "pull_loop d start =
     (if start < length d
      then
        (let e = min (start + PULL_CHUNK_SIZE) (length d)
         in PullData (take (e - start) (drop start d)) # pull_loop d e)
      else [])"
  by pat_completeness auto

termination pull_loop
  by (relation "measure (\<lambda>(d, start). length d - start)") (auto simp: PULL_CHUNK_SIZE_def)

declare pull_loop.simps [simp del]

definition raylet_pull ::
  "(PlasmaError \<Rightarrow> bytes) \<Rightarrow> bytes \<Rightarrow> Raylet \<Rightarrow> Raylet \<times> (GrpcStatus, PullKind list) result" where
  "raylet_pull lib raw r =
     (case parse_object_id raw of
        Inl e \<Rightarrow> (r, Inl e)
      | Inr oid \<Rightarrow>
          (case plasma_get_with_restore lib oid (raylet_metric (\<lambda>x. x\<lparr>pull_total := pull_total x + 1\<rparr>) r) of
             (r', Inl e) \<Rightarrow> (r', Inl e)
           | (r', Inr (md, d)) \<Rightarrow> (r', Inr (PullMeta md (of_nat (length d)) # pull_loop d 0))))"

text \<open>The receiving side; an item is a frame (whose kind may be missing) or an error of the stream.\<close>

datatype ObjectTransportClientError =
    TransportConnect
  | TransportRpc GrpcStatus
  | TransportMalformed bytes
  | ShortRead u64 u64

record PulledObject =
  pulled_metadata :: bytes
  pulled_data :: bytes

fun collect_pull ::
  "(GrpcStatus, PullKind option) result list \<Rightarrow> bytes \<Rightarrow> (ObjectTransportClientError, bytes) result" where
  "collect_pull [] acc = Inr acc"
| "collect_pull (Inl e # _) acc = Inl (TransportRpc e)"
| "collect_pull (Inr (Some (PullData bs)) # items) acc = collect_pull items (acc @ bs)"
| "collect_pull (Inr (Some (PullMeta _ _)) # _) acc =
     Inl (TransportMalformed (ascii ''received second metadata frame mid-stream''))"
| "collect_pull (Inr None # _) acc = Inl (TransportMalformed (ascii ''received empty pull frame''))"

text \<open>\<open>None\<close>: the caller panics, because \<open>Vec::with_capacity\<close> is asked for more than \<open>isize::MAX\<close> bytes.\<close>

definition transport_pull ::
  "(PullKind option \<Rightarrow> bytes) \<Rightarrow> (GrpcStatus, (GrpcStatus, PullKind option) result list) result \<Rightarrow>
     (ObjectTransportClientError, PulledObject) result option" where
  "transport_pull dbg reply =
     (case reply of
        Inl e \<Rightarrow> Some (Inl (TransportRpc e))
      | Inr [] \<Rightarrow> Some (Inl (TransportMalformed (ascii ''pull stream closed before metadata'')))
      | Inr (Inl e # _) \<Rightarrow> Some (Inl (TransportRpc e))
      | Inr (Inr (Some (PullMeta md sz)) # items) \<Rightarrow>
          if 2 ^ 63 \<le> unat sz then None
          else
            (case collect_pull items [] of
               Inl e \<Rightarrow> Some (Inl e)
             | Inr d \<Rightarrow>
                 if of_nat (length d) \<noteq> sz then Some (Inl (ShortRead sz (of_nat (length d))))
                 else Some (Inr \<lparr>pulled_metadata = md, pulled_data = d\<rparr>))
      | Inr (Inr other # _) \<Rightarrow>
          Some (Inl (TransportMalformed (ascii ''first pull frame must be metadata, got '' @ dbg other))))"

section \<open>Push\<close>

datatype PushKind = PushHeader bytes bytes u64 | PushData bytes

text \<open>\<open>slice::chunks\<close>.\<close>

function chunks :: "nat \<Rightarrow> bytes \<Rightarrow> bytes list" where
  "chunks n xs = (if xs = [] \<or> n = 0 then [] else take n xs # chunks n (drop n xs))"
  by pat_completeness auto

termination chunks
  by (relation "measure (\<lambda>(n, xs). length xs)") auto

declare chunks.simps [simp del]

definition push_frames :: "bytes \<Rightarrow> bytes \<Rightarrow> bytes \<Rightarrow> PushKind list" where
  "push_frames oid md d = PushHeader oid md (of_nat (length d)) # map PushData (chunks (64 * 1024) d)"

fun collect_push ::
  "nat \<Rightarrow> (GrpcStatus, PushKind option) result list \<Rightarrow> bytes \<Rightarrow> (GrpcStatus, bytes) result" where
  "collect_push limit [] acc = Inr acc"
| "collect_push limit (Inl e # _) acc = Inl e"
| "collect_push limit (Inr (Some (PushData bs)) # items) acc =
     (if limit < length acc + length bs
      then Inl (GrpcStatus InvalidArgument
             (ascii ''push data overran header.data_size: header said '' @ dec_digits limit
              @ ascii '', received '' @ dec_digits (length acc) @ ascii '' so far + '' @ dec_digits (length bs)
              @ ascii '' more''))
      else collect_push limit items (acc @ bs))"
| "collect_push limit (Inr (Some (PushHeader _ _ _)) # _) acc =
     Inl (GrpcStatus InvalidArgument (ascii ''received second header frame mid-stream''))"
| "collect_push limit (Inr None # _) acc =
     Inl (GrpcStatus InvalidArgument (ascii ''received empty push frame''))"

definition push_seal ::
  "(PlasmaError \<Rightarrow> bytes) \<Rightarrow> bytes \<Rightarrow> bytes \<Rightarrow> bytes \<Rightarrow> Raylet \<Rightarrow> Raylet \<times> (GrpcStatus, unit) result" where
  "push_seal lib oid md d r =
     (case client_create_and_seal direct_exchange oid md d AddressBlob_nil (rl_plasma r) of
        (st, Inr _) \<Rightarrow> (r\<lparr>rl_plasma := st\<rparr>, Inr ())
      | (st, Inl e) \<Rightarrow>
          (r\<lparr>rl_plasma := st\<rparr>,
           if is_already_exists e then Inr ()
           else Inl (GrpcStatus CodeInternal (ascii ''plasma: '' @ plasma_display lib e))))"

text \<open>\<open>None\<close>: the handler panics, because \<open>Vec::with_capacity\<close> is asked for more than \<open>isize::MAX\<close> bytes.\<close>

definition raylet_push ::
  "(PlasmaError \<Rightarrow> bytes) \<Rightarrow> (GrpcStatus, PushKind option) result list \<Rightarrow> Raylet \<Rightarrow>
     Raylet \<times> (GrpcStatus, unit) result option" where
  "raylet_push lib items r0 =
     (let r = raylet_metric (\<lambda>x. x\<lparr>push_total := push_total x + 1\<rparr>) r0
      in case items of
           [] \<Rightarrow> (r, Some (Inl (GrpcStatus InvalidArgument (ascii ''push stream closed before header''))))
         | Inl e # _ \<Rightarrow> (r, Some (Inl e))
         | Inr None # _ \<Rightarrow> (r, Some (Inl (GrpcStatus InvalidArgument (ascii ''first push frame is empty''))))
         | Inr (Some (PushData _)) # _ \<Rightarrow>
             (r, Some (Inl (GrpcStatus InvalidArgument (ascii ''first push frame must be a Header, got Data''))))
         | Inr (Some (PushHeader raw md sz)) # rest \<Rightarrow>
             (case parse_object_id raw of
                Inl e \<Rightarrow> (r, Some (Inl e))
              | Inr oid \<Rightarrow>
                  if 2 ^ 63 \<le> unat sz then (r, None)
                  else
                    (case collect_push (unat sz) rest [] of
                       Inl e \<Rightarrow> (r, Some (Inl e))
                     | Inr d \<Rightarrow>
                         if length d \<noteq> unat sz
                         then (r, Some (Inl (GrpcStatus InvalidArgument
                                 (ascii ''push short read: header promised '' @ dec_digits (unat sz)
                                  @ ascii '' bytes, got '' @ dec_digits (length d)))))
                         else (case push_seal lib oid md d r of (r', x) \<Rightarrow> (r', Some x)))))"

section \<open>Replicas and eviction\<close>

definition raylet_register_object :: "bytes \<Rightarrow> bytes \<Rightarrow> Raylet \<Rightarrow> Raylet \<times> (GrpcStatus, unit) result" where
  "raylet_register_object raw_oid raw_node r =
     (case parse_object_id raw_oid of
        Inl e \<Rightarrow> (r, Inl e)
      | Inr oid \<Rightarrow>
          (case parse_node_id raw_node of
             Inl e \<Rightarrow> (r, Inl e)
           | Inr node \<Rightarrow>
               (let d = directory_register oid node (rl_directory r);
                    r1 = r\<lparr>rl_directory := d, sink_calls := map_option (\<lambda>cs. cs @ [SinkAddBorrower oid node]) (sink_calls r)\<rparr>
                in (raylet_metric (\<lambda>x. x\<lparr>register_object_total := register_object_total x + 1,
                      directory_entries := directory_len d\<rparr>) r1, Inr ()))))"

definition raylet_wait_for_ref_removed :: "bytes \<Rightarrow> bytes \<Rightarrow> Raylet \<Rightarrow> Raylet \<times> (GrpcStatus, unit) result" where
  "raylet_wait_for_ref_removed raw_oid raw_node r =
     (case parse_object_id raw_oid of
        Inl e \<Rightarrow> (r, Inl e)
      | Inr oid \<Rightarrow>
          (case parse_node_id raw_node of
             Inl e \<Rightarrow> (r, Inl e)
           | Inr node \<Rightarrow>
               (r\<lparr>rl_directory := directory_remove oid node (rl_directory r),
                  sink_calls := map_option (\<lambda>cs. cs @ [SinkRemoveBorrower oid node]) (sink_calls r)\<rparr>, Inr ())))"

definition evict_one :: "bytes \<Rightarrow> Raylet \<Rightarrow> Raylet" where
  "evict_one oid r =
     (case client_delete direct_exchange oid (rl_plasma r) of
        (st, _) \<Rightarrow> r\<lparr>rl_plasma := st,
          object_manager := map_option (\<lambda>m. fst (mgr_forget fs_remove oid m)) (object_manager r)\<rparr>)"

fun parse_object_ids :: "bytes list \<Rightarrow> (GrpcStatus, bytes list) result" where
  "parse_object_ids [] = Inr []"
| "parse_object_ids (raw # raws) =
     (case parse_object_id raw of
        Inl e \<Rightarrow> Inl e
      | Inr oid \<Rightarrow> (case parse_object_ids raws of Inl e \<Rightarrow> Inl e | Inr oids \<Rightarrow> Inr (oid # oids)))"

definition raylet_evict :: "bytes list \<Rightarrow> Raylet \<Rightarrow> Raylet \<times> (GrpcStatus, unit) result" where
  "raylet_evict raws r =
     (case parse_object_ids raws of
        Inl e \<Rightarrow> (r, Inl e)
      | Inr oids \<Rightarrow> (fold evict_one oids r, Inr ()))"

definition raylet_get_object_locations :: "bytes \<Rightarrow> Raylet \<Rightarrow> Raylet \<times> (GrpcStatus, bytes set) result" where
  "raylet_get_object_locations raw r0 =
     (let r = raylet_metric (\<lambda>x. x\<lparr>get_object_locations_total := get_object_locations_total x + 1\<rparr>) r0
      in case parse_object_id raw of
           Inl e \<Rightarrow> (r, Inl e)
         | Inr oid \<Rightarrow> (r, Inr (directory_locations oid (rl_directory r))))"

section \<open>The owner's sink\<close>

definition sink_add_borrower :: "bytes \<Rightarrow> bytes \<Rightarrow> 'r CoreWorker \<Rightarrow> 'r CoreWorker" where
  "sink_add_borrower oid node w = add_borrower_pin (ObjectId oid) (WorkerId node) w"

definition sink_remove_borrower :: "bytes \<Rightarrow> bytes \<Rightarrow> 'r CoreWorker \<Rightarrow> 'r CoreWorker" where
  "sink_remove_borrower oid node w = fst (remove_borrower_pin (ObjectId oid) (WorkerId node) w)"

text \<open>The sink of the worker keeps the default of the trait.\<close>

definition sink_on_owner_died :: "bytes \<Rightarrow> 'r CoreWorker \<Rightarrow> 'r CoreWorker" where
  "sink_on_owner_died dead_node_id w = w"

section \<open>Chunks\<close>

lemma chunks_concat: "0 < n \<Longrightarrow> concat (chunks n xs) = xs"
proof (induction n xs rule: chunks.induct)
  case (1 n xs)
  then show ?case by (subst chunks.simps) simp
qed

lemma collect_pull_loop: "collect_pull (map (\<lambda>k. Inr (Some k)) (pull_loop d start)) acc = Inr (acc @ drop start d)"
proof (induction d start arbitrary: acc rule: pull_loop.induct)
  case (1 d start)
  show ?case
  proof (cases "start < length d")
    case True
    let ?e = "min (start + PULL_CHUNK_SIZE) (length d)"
    have "take (?e - start) (drop start d) @ drop ?e d = drop start d"
      by (metis True PULL_CHUNK_SIZE_def append_take_drop_id drop_drop le_add1 le_add_diff_inverse2 less_imp_le min.bounded_iff)
    then show ?thesis
      using 1 [OF True refl] True by (subst pull_loop.simps) (simp add: Let_def)
  next
    case False
    then show ?thesis by (subst pull_loop.simps) simp
  qed
qed

lemma collect_push_chunks:
  "length acc + length (concat bss) \<le> limit \<Longrightarrow>
     collect_push limit (map (\<lambda>k. Inr (Some k)) (map PushData bss)) acc = Inr (acc @ concat bss)"
  by (induction bss arbitrary: acc) auto

lemma collect_push_whole:
  "collect_push (length d) (map (\<lambda>k. Inr (Some k)) (map PushData (chunks 65536 d))) [] = Inr d"
  using collect_push_chunks [of "[]" "chunks 65536 d" "length d"] chunks_concat [of 65536 d] by simp

section \<open>Transfers\<close>

abbreviation raylet_view :: "Raylet \<Rightarrow> bytes \<Rightarrow> slot_state" where
  "raylet_view r \<equiv> server_view (snd (rl_plasma r))"

text \<open>The spill manager has the object on disk and reads go through.\<close>

definition spilled_as :: "bytes \<Rightarrow> Raylet \<Rightarrow> bytes \<Rightarrow> RestoredObject \<Rightarrow> bool" where
  "spilled_as base r oid x \<longleftrightarrow>
     (\<exists>m. object_manager r = Some m \<and> mgr_good base m \<and> hm_contains (directory m) oid \<and>
        fs_content (backend m) oid = Some x)"

lemma spilled_restore:
  assumes "spilled_as base r oid x"
  obtains m where "object_manager r = Some m" "mgr_restore fs_restore oid m = (m, Inr (Some x))"
proof -
  obtain m where m: "object_manager r = Some m" "mgr_good base m" "hm_contains (directory m) oid"
      "fs_content (backend m) oid = Some x"
    using assms unfolding spilled_as_def by blast
  have g: "fs_inv base (backend m)" "fs_quiet (backend m)"
      "\<And>oid url. hm_get (directory m) oid = Some url \<Longrightarrow> url = url_for (path_for base oid)"
    using m(2) by (auto simp: mgr_good_def mgr_inv_def)
  obtain url where url: "hm_get (directory m) oid = Some url" using m(3) by (auto simp: hm_contains_def)
  have "fs_restore url (backend m) = Inr x"
    using localfs.restore_some [OF g(1,2) m(4)] g(3) [OF url] by simp
  then show thesis using that m(1) url by (simp add: mgr_restore_def spill_url_def)
qed

lemma spilled_slices: "spilled_as base r oid x \<Longrightarrow> rust_slice (restored_metadata x) \<and> rust_slice (restored_data x)"
  unfolding spilled_as_def using localfs.content_slices by blast

lemma spilled_as_plasma [simp]: "spilled_as base (r\<lparr>rl_plasma := st\<rparr>) = spilled_as base r"
  by (simp add: spilled_as_def fun_eq_iff)

lemma raylet_metric_simps [simp]:
  "rl_plasma (raylet_metric f r) = rl_plasma r" "object_manager (raylet_metric f r) = object_manager r"
  "rl_directory (raylet_metric f r) = rl_directory r" "sink_calls (raylet_metric f r) = sink_calls r"
  "spilled_as base (raylet_metric f r) = spilled_as base r"
  by (simp_all add: raylet_metric_def spilled_as_def fun_eq_iff)

lemma reopen_sealed:
  assumes "conn_inv (rl_plasma r)" "raylet_view r oid = Sealed md d" "reopen lib oid r = (r', res)"
  shows "res = Inr (md, d) \<and> conn_inv (rl_plasma r') \<and> raylet_view r' = raylet_view r"
  using plasma.get_sealed [OF assms(1,2)] assms(3) by (auto simp: reopen_def)

lemma reseal_absent:
  assumes inv: "conn_inv (rl_plasma r)" and v: "raylet_view r oid = Absent"
    and x: "rust_slice (restored_metadata x)" "rust_slice (restored_data x)" and res: "reseal lib oid x r = (r', res)"
  shows "conn_inv (rl_plasma r') \<and>
    (res = Inr (restored_metadata x, restored_data x) \<and>
       raylet_view r' = (raylet_view r)(oid := Sealed (restored_metadata x) (restored_data x)) \<or>
     (\<exists>msg. res = Inl (GrpcStatus CodeInternal msg)) \<and> raylet_view r' = raylet_view r)"
proof -
  let ?c = "client_create_and_seal direct_exchange oid (restored_metadata x) (restored_data x) AddressBlob_nil (rl_plasma r)"
  have inv': "conn_inv (fst ?c)" using plasma.create_inv [OF inv x] .
  consider (ok) st where "?c = (st, Inr ())" "server_view (snd st) = (raylet_view r)(oid := Sealed (restored_metadata x) (restored_data x))"
    | (oom) st msg where "?c = (st, Inl (PlasmaServerError OutOfMemory msg))" "server_view (snd st) = raylet_view r"
    using plasma.create_absent [OF inv v x, of AddressBlob_nil] by blast
  then show ?thesis
  proof cases
    case ok
    have "reopen lib oid (r\<lparr>rl_plasma := st\<rparr>) = (r', res)" using res ok(1) by (simp add: reseal_def)
    then show ?thesis
      using reopen_sealed [of "r\<lparr>rl_plasma := st\<rparr>" oid "restored_metadata x" "restored_data x" lib r' res] ok inv' by simp
  next
    case oom
    then show ?thesis using res inv' by (auto simp: reseal_def is_already_exists_def plasma_to_status_def)
  qed
qed

lemma get_with_restore:
  assumes inv: "conn_inv (rl_plasma r)"
    and have_it: "raylet_view r oid = Sealed md d \<or>
      raylet_view r oid = Absent \<and> spilled_as base r oid \<lparr>restored_metadata = md, restored_data = d\<rparr>"
    and res: "plasma_get_with_restore lib oid r = (r', res)"
  shows "conn_inv (rl_plasma r') \<and>
    (res = Inr (md, d) \<and> raylet_view r' = (raylet_view r)(oid := Sealed md d) \<or>
     raylet_view r oid = Absent \<and> (\<exists>msg. res = Inl (GrpcStatus CodeInternal msg)) \<and> raylet_view r' = raylet_view r)"
proof (cases "raylet_view r oid = Absent")
  case False
  then have v: "raylet_view r oid = Sealed md d" using have_it by blast
  then show ?thesis
    using plasma.get_sealed [OF inv v] res by (auto simp: plasma_get_with_restore_def fun_eq_iff)
next
  case True
  let ?x = "\<lparr>restored_metadata = md, restored_data = d\<rparr>"
  have sp: "spilled_as base r oid ?x" using have_it True by simp
  obtain st msg where g: "client_get_bytes direct_exchange oid (rl_plasma r) = (st, Inl (PlasmaServerError NotFound msg))"
      "conn_inv st" "server_view (snd st) = raylet_view r"
    using plasma.get_absent [OF inv True] by blast
  obtain m where m: "object_manager r = Some m" "mgr_restore fs_restore oid m = (m, Inr (Some ?x))"
    using spilled_restore [OF sp] by blast
  let ?r = "raylet_metric (\<lambda>x. x\<lparr>spill_restore_total := spill_restore_total x + 1\<rparr>)
      (r\<lparr>rl_plasma := st, object_manager := Some m\<rparr>)"
  have "reseal lib oid ?x ?r = (r', res)"
    using res g(1) m by (simp add: plasma_get_with_restore_def is_not_found_def restore_spilled_def)
  from reseal_absent [OF _ _ _ _ this] show ?thesis
    using g True spilled_slices [OF sp] by auto
qed

lemma pull_frames_reassemble:
  assumes "rust_slice d"
  shows "transport_pull dbg (Inr (map (\<lambda>k. Inr (Some k)) (PullMeta md (of_nat (length d)) # pull_loop d 0))) =
    Some (Inr \<lparr>pulled_metadata = md, pulled_data = d\<rparr>)"
  using assms unat_length [OF assms] by (simp add: transport_pull_def collect_pull_loop rust_slice_def)

lemma push_result:
  assumes inv: "conn_inv (rl_plasma r)" and len: "length oid = 28" and sl: "rust_slice md" "rust_slice d"
    and res: "raylet_push lib (map (\<lambda>k. Inr (Some k)) (push_frames oid md d)) r = (r', res)"
  shows "conn_inv (rl_plasma r') \<and>
    (if raylet_view r oid = Absent
     then res = Some (Inr ()) \<and> raylet_view r' = (raylet_view r)(oid := Sealed md d) \<or>
          (\<exists>msg. res = Some (Inl (GrpcStatus CodeInternal msg))) \<and> raylet_view r' = raylet_view r
     else res = Some (Inr ()) \<and> raylet_view r' = raylet_view r)"
proof -
  define r1 where "r1 = raylet_metric (\<lambda>x. x\<lparr>push_total := push_total x + 1\<rparr>) r"
  have p: "rl_plasma r1 = rl_plasma r" by (simp add: r1_def)
  have small: "\<not> 2 ^ 63 \<le> unat (of_nat (length d) :: u64)" using sl(2) unat_length [OF sl(2)] by (simp add: rust_slice_def)
  have push: "raylet_push lib (map (\<lambda>k. Inr (Some k)) (push_frames oid md d)) r =
      (case push_seal lib oid md d r1 of (r', x) \<Rightarrow> (r', Some x))"
    unfolding raylet_push_def Let_def push_frames_def r1_def [symmetric]
    using len small by (simp add: parse_object_id_def unat_length [OF sl(2)] collect_push_whole [simplified])
  obtain x where x: "push_seal lib oid md d r1 = (r', x)" "res = Some x"
    using res push by (auto split: prod.splits)
  let ?c = "client_create_and_seal direct_exchange oid md d AddressBlob_nil (rl_plasma r)"
  have inv': "conn_inv (fst ?c)" using plasma.create_inv [OF inv sl] .
  show ?thesis
  proof (cases "raylet_view r oid = Absent")
    case True
    then show ?thesis
      using plasma.create_absent [OF inv True sl, of AddressBlob_nil] x inv'
      by (auto simp: push_seal_def p is_already_exists_def)
  next
    case False
    then show ?thesis
      using plasma.create_present [OF inv False, of md d AddressBlob_nil] x inv'
      by (auto simp: push_seal_def p is_already_exists_def)
  qed
qed

section \<open>Borrowers\<close>

text \<open>What a raylet expects of the owner's sink: a set of borrowing nodes for each object.\<close>

locale borrower_sink =
  fixes pins :: "'s \<Rightarrow> bytes \<Rightarrow> bytes set"
    and add :: "bytes \<Rightarrow> bytes \<Rightarrow> 's \<Rightarrow> 's"
    and remove :: "bytes \<Rightarrow> bytes \<Rightarrow> 's \<Rightarrow> 's"
  assumes pins_add: "pins (add oid n s) = (pins s)(oid := insert n (pins s oid))"
    and pins_remove: "pins (remove oid n s) = (pins s)(oid := pins s oid - {n})"
begin

definition deliver :: "SinkCall \<Rightarrow> 's \<Rightarrow> 's" where
  "deliver call s = (case call of SinkAddBorrower oid n \<Rightarrow> add oid n s | SinkRemoveBorrower oid n \<Rightarrow> remove oid n s)"

lemma pins_deliver:
  "pins (deliver call s) =
     (case call of
        SinkAddBorrower oid n \<Rightarrow> (pins s)(oid := insert n (pins s oid))
      | SinkRemoveBorrower oid n \<Rightarrow> (pins s)(oid := pins s oid - {n}))"
  by (cases call) (simp_all add: deliver_def pins_add pins_remove)

end

definition borrowers_of :: "RefCounter \<Rightarrow> bytes \<Rightarrow> bytes set" where
  "borrowers_of c oid = (case hm_get c (ObjectId oid) of None \<Rightarrow> {} | Some e \<Rightarrow> {n. WorkerId n \<in> borrowers e})"

lemma refs_plasma_delete [simp]: "cw_refs (fst (plasma_delete i w)) = cw_refs w"
  by (auto simp: plasma_delete_def split: option.split prod.split sum.split)

lemma refs_free_unpinned [simp]: "cw_refs (fst (free_unpinned i w)) = cw_refs w"
proof -
  obtain w1 res where "plasma_delete i (w\<lparr>cw_store := delete [i] (cw_store w)\<rparr>) = (w1, res)"
    by (rule prod.exhaust)
  then show ?thesis
    using refs_plasma_delete [of i "w\<lparr>cw_store := delete [i] (cw_store w)\<rparr>"]
    by (simp add: free_unpinned_def split: sum.split option.split)
qed

lemma refs_remove_borrower_pin: "cw_refs (fst (remove_borrower_pin i b w)) = fst (remove_borrower i b (cw_refs w))"
  by (simp add: remove_borrower_pin_def split: prod.split bool.split)

lemma refs_dec_local_ref: "cw_refs (fst (dec_local_ref i w)) = fst (dec_local i (cw_refs w))"
  by (simp add: dec_local_ref_def split: prod.split bool.split)

lemma borrowers_add:
  "borrowers_of (fst (add_borrower (ObjectId oid) (WorkerId n) c)) = (borrowers_of c)(oid := insert n (borrowers_of c oid))"
  by (auto simp: borrowers_of_def add_borrower_def OwnerEntry_default_def fun_eq_iff split: option.split)

lemma borrowers_if_unpinned:
  "borrowers_of (fst (remove_if_unpinned (ObjectId oid) e c)) = (borrowers_of c)(oid := {n. WorkerId n \<in> borrowers e})"
  by (auto simp: borrowers_of_def remove_if_unpinned_def is_unpinned_def fun_eq_iff)

lemma borrowers_remove:
  "borrowers_of (fst (remove_borrower (ObjectId oid) (WorkerId n) c)) = (borrowers_of c)(oid := borrowers_of c oid - {n})"
proof (cases "hm_get c (ObjectId oid)")
  case (Some e)
  have "borrowers_of c oid = {m. WorkerId m \<in> borrowers e}"
    using Some by (simp add: borrowers_of_def)
  with Some show ?thesis
    by (simp add: remove_borrower_def borrowers_if_unpinned set_diff_eq)
qed (auto simp: remove_borrower_def borrowers_of_def fun_eq_iff)

lemma borrowers_dec: "borrowers_of (fst (dec_local i c)) = borrowers_of c"
proof (cases i)
  case (ObjectId oid)
  show ?thesis
  proof (cases "hm_get c i")
    case (Some e)
    then have "{n. WorkerId n \<in> borrowers e} = borrowers_of c oid"
      by (simp add: ObjectId borrowers_of_def)
    with Some show ?thesis
      by (auto simp: ObjectId dec_local_def Let_def borrowers_if_unpinned)
  qed (simp add: dec_local_def)
qed

lemma borrowers_inc: "borrowers_of (fst (inc_local i c)) = borrowers_of c"
  by (auto simp: inc_local_def borrowers_of_def OwnerEntry_default_def Let_def fun_eq_iff split: option.split)

interpretation worker_sink: borrower_sink "\<lambda>w. borrowers_of (cw_refs w)" sink_add_borrower sink_remove_borrower
  by unfold_locales
    (simp_all add: sink_add_borrower_def sink_remove_borrower_def add_borrower_pin_def borrowers_add
      refs_remove_borrower_pin borrowers_remove)

lemma locations_register:
  "directory_locations oid' (directory_register oid n d) =
     (if oid' = oid then insert n (directory_locations oid d) else directory_locations oid' d)"
  by (auto simp: directory_locations_def directory_register_def split: option.split)

lemma locations_remove:
  "directory_locations oid' (directory_remove oid n d) =
     (if oid' = oid then directory_locations oid d - {n} else directory_locations oid' d)"
  by (auto simp: directory_locations_def directory_remove_def Let_def split: option.split)

text \<open>The owner's node: requests of peers to its raylet and local reference changes, in any order.\<close>

datatype OwnerOp =
    PeerRegisters bytes bytes
  | PeerReleases bytes bytes
  | LocalInc ObjectId
  | LocalDec ObjectId
  | PeerDies bytes

definition peer_request ::
  "(Raylet \<Rightarrow> Raylet \<times> (GrpcStatus, unit) result) \<Rightarrow> Raylet \<times> 'r CoreWorker \<Rightarrow> Raylet \<times> 'r CoreWorker" where
  "peer_request handler st =
     (case handler ((fst st)\<lparr>sink_calls := Some []\<rparr>) of
        (r, _) \<Rightarrow> (r, fold worker_sink.deliver (the (sink_calls r)) (snd st)))"

fun owner_step :: "OwnerOp \<Rightarrow> Raylet \<times> 'r CoreWorker \<Rightarrow> Raylet \<times> 'r CoreWorker" where
  "owner_step (PeerRegisters oid n) st = peer_request (raylet_register_object oid n) st"
| "owner_step (PeerReleases oid n) st = peer_request (raylet_wait_for_ref_removed oid n) st"
| "owner_step (LocalInc i) (r, w) = (r, fst (inc_local_ref i w))"
| "owner_step (LocalDec i) (r, w) = (r, fst (dec_local_ref i w))"
| "owner_step (PeerDies n) (r, w) = (r, sink_on_owner_died n w)"

text \<open>The nodes that a sequence of requests leaves as borrowers of one object.\<close>

fun borrow_effect :: "bytes \<Rightarrow> OwnerOp \<Rightarrow> bytes set \<Rightarrow> bytes set" where
  "borrow_effect oid (PeerRegisters i n) ns = (if i = oid \<and> length i = 28 \<and> length n = 16 then insert n ns else ns)"
| "borrow_effect oid (PeerReleases i n) ns = (if i = oid \<and> length i = 28 \<and> length n = 16 then ns - {n} else ns)"
| "borrow_effect oid _ ns = ns"

lemma borrowers_step:
  "borrowers_of (cw_refs (snd (owner_step op st))) oid = borrow_effect oid op (borrowers_of (cw_refs (snd st)) oid)"
proof (cases op)
  case (PeerRegisters i n)
  then show ?thesis
    using worker_sink.pins_deliver [of "SinkAddBorrower i n" "snd st"]
    by (auto simp: peer_request_def raylet_register_object_def parse_object_id_def parse_node_id_def Let_def)
next
  case (PeerReleases i n)
  then show ?thesis
    using worker_sink.pins_deliver [of "SinkRemoveBorrower i n" "snd st"]
    by (auto simp: peer_request_def raylet_wait_for_ref_removed_def parse_object_id_def parse_node_id_def)
next
  case (LocalInc i)
  then show ?thesis
    using borrowers_inc [of i "cw_refs (snd st)"]
    by (cases st; cases "inc_local i (cw_refs (snd st))") (simp add: inc_local_ref_def)
next
  case (LocalDec i)
  then show ?thesis
    using borrowers_dec [of i "cw_refs (snd st)"] by (cases st) (simp add: refs_dec_local_ref)
qed (cases st, simp add: sink_on_owner_died_def)

lemma locations_step:
  "directory_locations oid (rl_directory (fst (owner_step op st))) =
     borrow_effect oid op (directory_locations oid (rl_directory (fst st)))"
  by (cases op; cases st)
    (auto simp: peer_request_def raylet_register_object_def raylet_wait_for_ref_removed_def parse_object_id_def
      parse_node_id_def locations_register locations_remove Let_def)

lemma borrowers_run:
  "borrowers_of (cw_refs (snd (fold owner_step ops st))) oid = fold (borrow_effect oid) ops (borrowers_of (cw_refs (snd st)) oid)"
  by (induction ops arbitrary: st) (simp_all add: borrowers_step)

lemma locations_run:
  "directory_locations oid (rl_directory (fst (fold owner_step ops st))) =
     fold (borrow_effect oid) ops (directory_locations oid (rl_directory (fst st)))"
  by (induction ops arbitrary: st) (simp_all add: locations_step)

section \<open>Properties\<close>

text \<open>C7. Moving an object between nodes: if the source raylet has the object sealed, or has it on disk, the frames
  it streams reassemble to exactly its metadata and data, and pushing those bytes leaves the object sealed with the
  same contents at a node that lacked it and changes nothing at a node that had it. The only failures are internal
  errors (restoring or storing ran out of arena space), and they change no object on either side.\<close>

theorem pull_push_transfers_object:
  assumes "conn_inv (rl_plasma a)" and "conn_inv (rl_plasma b)" and "length oid = 28"
    and "rust_slice md" and "rust_slice d"
    and "raylet_view a oid = Sealed md d \<or>
      raylet_view a oid = Absent \<and> spilled_as base a oid \<lparr>restored_metadata = md, restored_data = d\<rparr>"
    and "raylet_pull lib oid a = (a', reply)"
    and "raylet_push lib (map (\<lambda>k. Inr (Some k)) (push_frames oid md d)) b = (b', res)"
  shows "(case reply of
      Inl (GrpcStatus c _) \<Rightarrow> c = CodeInternal \<and> raylet_view a oid = Absent \<and> raylet_view a' = raylet_view a
    | Inr frames \<Rightarrow>
        transport_pull dbg (Inr (map (\<lambda>k. Inr (Some k)) frames)) = Some (Inr \<lparr>pulled_metadata = md, pulled_data = d\<rparr>)
        \<and> raylet_view a' = (raylet_view a)(oid := Sealed md d))
    \<and> (case res of
      None \<Rightarrow> False
    | Some (Inl (GrpcStatus c _)) \<Rightarrow>
        c = CodeInternal \<and> raylet_view b oid = Absent \<and> raylet_view b' = raylet_view b
    | Some (Inr _) \<Rightarrow>
        raylet_view b' =
          (if raylet_view b oid = Absent then (raylet_view b)(oid := Sealed md d) else raylet_view b))"
proof -
  let ?a = "raylet_metric (\<lambda>x. x\<lparr>pull_total := pull_total x + 1\<rparr>) a"
  obtain got where g: "plasma_get_with_restore lib oid ?a = (a', got)"
      "reply = (case got of Inl e \<Rightarrow> Inl e | Inr (md, d) \<Rightarrow> Inr (PullMeta md (of_nat (length d)) # pull_loop d 0))"
    using assms(3,7) by (auto simp: raylet_pull_def parse_object_id_def split: prod.splits sum.splits)
  from get_with_restore [OF _ _ g(1), of md d base]
  have "got = Inr (md, d) \<and> raylet_view a' = (raylet_view a)(oid := Sealed md d) \<or>
     raylet_view a oid = Absent \<and> (\<exists>msg. got = Inl (GrpcStatus CodeInternal msg)) \<and> raylet_view a' = raylet_view a"
    using assms(1,6) by simp
  then have "case reply of
      Inl (GrpcStatus c _) \<Rightarrow> c = CodeInternal \<and> raylet_view a oid = Absent \<and> raylet_view a' = raylet_view a
    | Inr frames \<Rightarrow>
        transport_pull dbg (Inr (map (\<lambda>k. Inr (Some k)) frames)) = Some (Inr \<lparr>pulled_metadata = md, pulled_data = d\<rparr>)
        \<and> raylet_view a' = (raylet_view a)(oid := Sealed md d)"
  proof
    assume "got = Inr (md, d) \<and> raylet_view a' = (raylet_view a)(oid := Sealed md d)"
    then show ?thesis using g(2) pull_frames_reassemble [OF assms(5), of dbg md] by simp
  qed (use g(2) in auto)
  moreover have "case res of
      None \<Rightarrow> False
    | Some (Inl (GrpcStatus c _)) \<Rightarrow>
        c = CodeInternal \<and> raylet_view b oid = Absent \<and> raylet_view b' = raylet_view b
    | Some (Inr _) \<Rightarrow>
        raylet_view b' =
          (if raylet_view b oid = Absent then (raylet_view b)(oid := Sealed md d) else raylet_view b)"
    using push_result [OF assms(2-5,8)] by (cases "raylet_view b oid = Absent") auto
  ultimately show ?thesis by (rule conjI)
qed

definition example_raylet :: "conn \<Rightarrow> Raylet" where
  "example_raylet st =
     \<lparr>rl_plasma = st, rl_directory = [], sink_calls = Some [], object_manager = None,
      rl_metrics = Some \<lparr>pull_total = 0, push_total = 0, register_object_total = 0, directory_entries = 0,
        get_object_locations_total = 0, spill_restore_total = 0\<rparr>\<rparr>"

lemma example_object:
  obtains st where
    "client_create_and_seal direct_exchange oid [2] [9, 8] AddressBlob_nil example_conn = (st, Inr ())"
    "conn_inv st" "server_view (snd st) oid = Sealed [2] [9, 8]"
proof -
  have "snd (client_create_and_seal direct_exchange oid [2] [9, 8] AddressBlob_nil example_conn) = Inr ()"
    by (simp add: client_create_and_seal_def client_create_def direct_exchange_def example_conn_def
        example_server_def server_new_def handle_create_def count_create_def alloc_def align_up_def
        OBJECT_ALIGN_def checked_add_def hm_contains_def set_gauges_def slot_info_def
        ensure_arena_mapped_def write_metadata_def write_data_def write_slot_def mmap_write_def
        set_mmap_def client_seal_def handle_seal_def expect_ok_def Let_def)
  then obtain st where
    st: "client_create_and_seal direct_exchange oid [2] [9, 8] AddressBlob_nil example_conn = (st, Inr ())"
    by (metis prod.collapse)
  from plasma.create_result(1,2) [OF example_conn_inv _ _ st] show thesis
    by (intro that [OF st]) (simp_all add: rust_slice_def)
qed

theorem pull_push_transfers_object_witness:
  "\<exists>st a' frames.
     raylet_view (example_raylet st) (replicate 28 1) = Sealed [2] [9, 8]
     \<and> raylet_pull (\<lambda>_. []) (replicate 28 1) (example_raylet st) = (a', Inr frames)
     \<and> transport_pull (\<lambda>_. []) (Inr (map (\<lambda>k. Inr (Some k)) frames)) =
         Some (Inr \<lparr>pulled_metadata = [2], pulled_data = [9, 8]\<rparr>)"
proof -
  let ?oid = "replicate 28 1 :: bytes"
  obtain st where st: "conn_inv st" "server_view (snd st) ?oid = Sealed [2] [9, 8]"
    by (rule example_object)
  let ?a = "example_raylet st"
  obtain a' reply where p: "raylet_pull (\<lambda>_. []) ?oid ?a = (a', reply)" by (metis surj_pair)
  obtain b' res where q: "raylet_push (\<lambda>_. []) (map (\<lambda>k. Inr (Some k)) (push_frames ?oid [2] [9, 8])) ?a = (b', res)"
    by (metis surj_pair)
  have a: "conn_inv (rl_plasma ?a)" "raylet_view ?a ?oid = Sealed [2] [9, 8]"
    using st by (simp_all add: example_raylet_def)
  have sl: "rust_slice [2]" "rust_slice [9, 8]" by (simp_all add: rust_slice_def)
  have len: "length ?oid = 28" by simp
  from pull_push_transfers_object [OF a(1) a(1) len sl disjI1 [OF a(2)] p q, of "\<lambda>_. []"] a(2)
  obtain frames where "reply = Inr frames"
      "transport_pull (\<lambda>_. []) (Inr (map (\<lambda>k. Inr (Some k)) frames)) =
        Some (Inr \<lparr>pulled_metadata = [2], pulled_data = [9, 8]\<rparr>)"
    by (auto split: sum.splits GrpcStatus.splits)
  with p a(2) show ?thesis by blast
qed



end
