(* ===== verification/Task_Manager.thy ===== *)
theory Task_Manager
imports Memory_Store
begin

text \<open>
  The lineage records of submitted tasks, \<open>rayd-py/src/task_manager.rs\<close>: which tasks may be run again to
  reconstruct a lost object, and how often.
\<close>

section \<open>Operations\<close>

definition DEFAULT_MAX_RETRIES :: u32 where
  "DEFAULT_MAX_RETRIES = 3"

record DispatchJob =
  job_task_id :: TaskId
  job_num_returns :: u32
  job_callable_blob :: bytes
  job_args_blob :: bytes
  job_kwargs_blob :: "bytes option"

record TaskRecord =
  rec_task_id :: TaskId
  rec_num_returns :: u32
  rec_callable_blob :: bytes
  rec_args_blob :: bytes
  rec_kwargs_blob :: "bytes option"
  retries_remaining :: u32
  was_completed :: bool

datatype LineageStatus = NotRecorded | NotYetCompleted | ReadyToResubmit | BudgetExhausted

type_synonym TaskManager = "(ObjectId, TaskRecord) hmap"

definition TaskManager_new :: TaskManager where
  "TaskManager_new = []"

definition record_task ::
  "ObjectId list \<Rightarrow> TaskId \<Rightarrow> u32 \<Rightarrow> bytes \<Rightarrow> bytes \<Rightarrow> bytes option \<Rightarrow> TaskManager \<Rightarrow> TaskManager" where
  "record_task outputs tid num_returns callable args kwargs m =
     (let rc = \<lparr>rec_task_id = tid, rec_num_returns = num_returns, rec_callable_blob = callable,
                rec_args_blob = args, rec_kwargs_blob = kwargs, retries_remaining = DEFAULT_MAX_RETRIES,
                was_completed = False\<rparr>
      in fold (\<lambda>oid. hm_insert oid rc) outputs m)"

definition mark_completed :: "TaskId \<Rightarrow> TaskManager \<Rightarrow> TaskManager" where
  "mark_completed tid m =
     map (\<lambda>(oid, r). (oid, if rec_task_id r = tid then r\<lparr>was_completed := True\<rparr> else r)) m"

definition lineage_status :: "ObjectId \<Rightarrow> TaskManager \<Rightarrow> LineageStatus" where
  "lineage_status oid m =
     (case hm_get m oid of
        None \<Rightarrow> NotRecorded
      | Some r \<Rightarrow>
          if \<not> was_completed r then NotYetCompleted
          else if retries_remaining r = 0 then BudgetExhausted
          else ReadyToResubmit)"

definition job_of :: "TaskRecord \<Rightarrow> DispatchJob" where
  "job_of r = \<lparr>job_task_id = rec_task_id r, job_num_returns = rec_num_returns r,
     job_callable_blob = rec_callable_blob r, job_args_blob = rec_args_blob r, job_kwargs_blob = rec_kwargs_blob r\<rparr>"

definition spend_retry :: "ObjectId \<Rightarrow> TaskManager \<Rightarrow> TaskManager" where
  "spend_retry oid m =
     (case hm_get m oid of
        None \<Rightarrow> m
      | Some r \<Rightarrow> hm_insert oid (r\<lparr>retries_remaining := saturating_sub (retries_remaining r) 1,
                                     was_completed := False\<rparr>) m)"

definition try_resubmit :: "ObjectId \<Rightarrow> TaskManager \<Rightarrow> TaskManager \<times> DispatchJob option" where
  "try_resubmit oid m =
     (case hm_get m oid of
        None \<Rightarrow> (m, None)
      | Some r \<Rightarrow>
          if \<not> was_completed r then (m, None)
          else if retries_remaining r = 0 then (m, None)
          else
            (let oids = map fst (filter (\<lambda>(oid, r'). rec_task_id r' = rec_task_id r) m)
             in (fold spend_retry oids m, Some (job_of r))))"

section \<open>Runs\<close>

datatype TmOp =
    TmRecord "ObjectId list" TaskId u32 bytes bytes "bytes option"
  | TmComplete TaskId
  | TmResubmit ObjectId

fun tm_step :: "TmOp \<Rightarrow> TaskManager \<Rightarrow> TaskManager \<times> DispatchJob option" where
  "tm_step (TmRecord outputs tid n c a k) m = (record_task outputs tid n c a k m, None)"
| "tm_step (TmComplete tid) m = (mark_completed tid m, None)"
| "tm_step (TmResubmit oid) m = try_resubmit oid m"

text \<open>The jobs that a run hands to the dispatcher again.\<close>

fun resubmitted :: "TmOp list \<Rightarrow> TaskManager \<Rightarrow> DispatchJob list" where
  "resubmitted [] m = []"
| "resubmitted (op # ops) m =
     (case tm_step op m of (m', j) \<Rightarrow> (case j of Some job \<Rightarrow> [job] | None \<Rightarrow> []) @ resubmitted ops m')"

definition attempts :: "TaskId \<Rightarrow> TmOp list \<Rightarrow> TaskManager \<Rightarrow> nat" where
  "attempts tid ops m = length (filter (\<lambda>j. job_task_id j = tid) (resubmitted ops m))"

fun recorded_tasks :: "TmOp list \<Rightarrow> TaskId list" where
  "recorded_tasks [] = []"
| "recorded_tasks (TmRecord outputs tid n c a k # ops) = tid # recorded_tasks ops"
| "recorded_tasks (_ # ops) = recorded_tasks ops"

definition completions :: "TaskId \<Rightarrow> TmOp list \<Rightarrow> nat" where
  "completions tid ops = length (filter (\<lambda>op. op = TmComplete tid) ops)"

section \<open>Lemmas\<close>

definition marked :: "TaskId \<Rightarrow> TaskRecord \<Rightarrow> TaskRecord" where
  "marked tid r = (if rec_task_id r = tid then r\<lparr>was_completed := True\<rparr> else r)"

lemma marked_simps [simp]:
  "rec_task_id (marked tid r) = rec_task_id r" "retries_remaining (marked tid r) = retries_remaining r"
  "was_completed (marked tid r) \<longleftrightarrow> was_completed r \<or> rec_task_id r = tid" "job_of (marked tid r) = job_of r"
  by (simp_all add: marked_def job_of_def)

lemma get_mark_completed: "hm_get (mark_completed tid m) i = map_option (marked tid) (hm_get m i)"
  by (simp add: mark_completed_def map_of_map marked_def [abs_def])

lemma get_record_task:
  "hm_get (record_task outputs tid n c a k m) i =
     (if i \<in> set outputs
      then Some \<lparr>rec_task_id = tid, rec_num_returns = n, rec_callable_blob = c, rec_args_blob = a,
             rec_kwargs_blob = k, retries_remaining = 3, was_completed = False\<rparr>
      else hm_get m i)"
  unfolding record_task_def Let_def DEFAULT_MAX_RETRIES_def
  by (induction outputs arbitrary: m) auto

lemma wf_record_task: "hm_wf m \<Longrightarrow> hm_wf (record_task outputs tid n c a k m)"
  unfolding record_task_def Let_def by (induction outputs arbitrary: m) auto

lemma wf_mark_completed: "hm_wf m \<Longrightarrow> hm_wf (mark_completed tid m)"
  by (simp add: mark_completed_def case_prod_beta comp_def)

definition spent :: "TaskRecord \<Rightarrow> TaskRecord" where
  "spent r = r\<lparr>retries_remaining := saturating_sub (retries_remaining r) 1, was_completed := False\<rparr>"

lemma spent_simps [simp]:
  "rec_task_id (spent r) = rec_task_id r" "was_completed (spent r) = False" "job_of (spent r) = job_of r"
  "unat (retries_remaining (spent r)) = unat (retries_remaining r) - 1"
  by (simp_all add: spent_def job_of_def unat_saturating_sub)

lemma get_spend_retry: "hm_get (spend_retry oid m) i = (if i = oid then map_option spent (hm_get m i) else hm_get m i)"
  by (auto simp: spend_retry_def spent_def split: option.split)

lemma get_spend_retries:
  "distinct oids \<Longrightarrow>
     hm_get (fold spend_retry oids m) i = (if i \<in> set oids then map_option spent (hm_get m i) else hm_get m i)"
  by (induction oids arbitrary: m) (auto simp: get_spend_retry)

lemma wf_spend_retries: "hm_wf m \<Longrightarrow> hm_wf (fold spend_retry oids m)"
  by (induction oids arbitrary: m) (auto simp: spend_retry_def split: option.split)

lemma try_resubmit_cases:
  assumes "hm_wf m"
  obtains (none) "try_resubmit oid m = (m, None)" "lineage_status oid m \<noteq> ReadyToResubmit"
  | (again) r m' where "hm_get m oid = Some r" "was_completed r" "retries_remaining r \<noteq> 0" "hm_wf m'"
      "try_resubmit oid m = (m', Some (job_of r))" "lineage_status oid m = ReadyToResubmit"
      "\<And>i. hm_get m' i = map_option (\<lambda>r'. if rec_task_id r' = rec_task_id r then spent r' else r') (hm_get m i)"
proof (cases "lineage_status oid m = ReadyToResubmit")
  case True
  then obtain r where r: "hm_get m oid = Some r" "was_completed r" "retries_remaining r \<noteq> 0"
    by (auto simp: lineage_status_def split: option.splits if_splits)
  let ?oids = "map fst (filter (\<lambda>(oid, r'). rec_task_id r' = rec_task_id r) m)"
  have "distinct ?oids" using assms by (rule distinct_map_filter)
  moreover have "i \<in> set ?oids \<longleftrightarrow> (\<exists>r'. hm_get m i = Some r' \<and> rec_task_id r' = rec_task_id r)" for i
    using hm_get_mem [OF assms] by force
  ultimately have "hm_get (fold spend_retry ?oids m) i =
      map_option (\<lambda>r'. if rec_task_id r' = rec_task_id r then spent r' else r') (hm_get m i)" for i
    by (cases "hm_get m i") (auto simp: get_spend_retries)
  then show ?thesis
    using r True wf_spend_retries [OF assms] by (intro that(2) [of r "fold spend_retry ?oids m"]) (simp_all add: try_resubmit_def)
next
  case False
  then show ?thesis
    using that(1) by (auto simp: try_resubmit_def lineage_status_def split: option.splits if_splits)
qed

lemma wf_tm_step: "hm_wf m \<Longrightarrow> hm_wf (fst (tm_step op m))"
  by (cases op) (simp_all add: wf_record_task wf_mark_completed wf_spend_retries try_resubmit_def Let_def split: option.split)

lemma attempts_Cons:
  "attempts tid (op # ops) m =
     (case snd (tm_step op m) of Some j \<Rightarrow> of_bool (job_task_id j = tid) | None \<Rightarrow> 0)
       + attempts tid ops (fst (tm_step op m))"
  by (simp add: attempts_def split: prod.split option.split)

text \<open>The budget of a task bounds its attempts.\<close>

definition budget_le :: "TaskManager \<Rightarrow> TaskId \<Rightarrow> nat \<Rightarrow> bool" where
  "budget_le m tid n \<longleftrightarrow> (\<forall>i r. hm_get m i = Some r \<longrightarrow> rec_task_id r = tid \<longrightarrow> unat (retries_remaining r) \<le> n)"

lemma resubmit_budget:
  assumes "budget_le m tid n"
    and get: "\<And>i. hm_get m' i = map_option (\<lambda>r'. if rec_task_id r' = t then spent r' else r') (hm_get m i)"
  shows "budget_le m' tid (n - of_bool (t = tid))"
  unfolding budget_le_def
proof (intro allI impI)
  fix i q
  assume q: "hm_get m' i = Some q" "rec_task_id q = tid"
  then obtain q' where q': "hm_get m i = Some q'" "q = (if rec_task_id q' = t then spent q' else q')"
    using get [of i] by (cases "hm_get m i") simp_all
  with q(2) have t: "rec_task_id q' = tid" by (cases "rec_task_id q' = t") simp_all
  then have "unat (retries_remaining q') \<le> n" using assms(1) q'(1) by (simp add: budget_le_def)
  then show "unat (retries_remaining q) \<le> n - of_bool (t = tid)"
    using q'(2) t by (cases "t = tid") simp_all
qed

lemma attempts_budget:
  "hm_wf m \<Longrightarrow> budget_le m tid n \<Longrightarrow> tid \<notin> set (recorded_tasks ops) \<Longrightarrow> attempts tid ops m \<le> n"
proof (induction ops arbitrary: m n)
  case Nil
  then show ?case by (simp add: attempts_def)
next
  case (Cons op ops)
  have wf: "hm_wf (fst (tm_step op m))" using Cons.prems(1) by (rule wf_tm_step)
  show ?case
  proof (cases op)
    case (TmRecord outputs tid' num c a k)
    then have "budget_le (fst (tm_step op m)) tid n" "tid \<notin> set (recorded_tasks ops)"
      using Cons.prems(2,3) by (auto simp: budget_le_def get_record_task)
    then show ?thesis using Cons.IH [OF wf] TmRecord by (simp add: attempts_Cons)
  next
    case (TmComplete tid')
    then have "budget_le (fst (tm_step op m)) tid n"
      using Cons.prems(2) by (auto simp: budget_le_def get_mark_completed)
    then show ?thesis using Cons.IH [OF wf] Cons.prems(3) TmComplete by (simp add: attempts_Cons)
  next
    case (TmResubmit oid)
    have fresh: "tid \<notin> set (recorded_tasks ops)" using Cons.prems(3) TmResubmit by simp
    show ?thesis
    proof (cases rule: try_resubmit_cases [OF Cons.prems(1), of oid])
      case 1
      then show ?thesis using Cons.IH Cons.prems(1,2) fresh TmResubmit by (simp add: attempts_Cons)
    next
      case (2 r m')
      have "attempts tid ops m' \<le> n - of_bool (rec_task_id r = tid)"
        by (rule Cons.IH [OF 2(4) resubmit_budget [OF Cons.prems(2) 2(7)] fresh])
      moreover have "unat (retries_remaining r) \<noteq> 0" using 2(3) by (simp add: unat_eq_zero)
      then have "rec_task_id r = tid \<Longrightarrow> 0 < n"
        using Cons.prems(2) 2(1) unfolding budget_le_def by fastforce
      ultimately show ?thesis
        using 2(5) TmResubmit by (cases "rec_task_id r = tid") (simp_all add: attempts_Cons job_of_def)
    qed
  qed
qed

lemma attempts_none: "budget_le m tid 0 \<Longrightarrow> hm_wf m \<Longrightarrow> tid \<notin> set (recorded_tasks ops) \<Longrightarrow> attempts tid ops m = 0"
  using attempts_budget [of m tid 0 ops] by simp

lemma attempts_append:
  "attempts tid (xs @ ys) m = attempts tid xs m + attempts tid ys (fold (\<lambda>op m. fst (tm_step op m)) xs m)"
  by (induction xs arbitrary: m) (simp_all add: attempts_Cons, simp add: attempts_def)

definition unknown :: "TaskId \<Rightarrow> TaskManager \<Rightarrow> bool" where
  "unknown tid m \<longleftrightarrow> (\<forall>i r. hm_get m i = Some r \<longrightarrow> rec_task_id r \<noteq> tid)"

lemma unknown_step:
  assumes "hm_wf m" "unknown tid m" "tid \<notin> set (recorded_tasks [op])"
  shows "unknown tid (fst (tm_step op m))"
proof (cases op)
  case (TmRecord outputs tid' n c a k)
  then show ?thesis using assms(2,3) by (auto simp: unknown_def get_record_task)
next
  case (TmComplete tid')
  then show ?thesis using assms(2) by (auto simp: unknown_def get_mark_completed) blast
next
  case (TmResubmit oid)
  show ?thesis
  proof (cases rule: try_resubmit_cases [OF assms(1), of oid])
    case 1
    then show ?thesis using assms(2) TmResubmit by simp
  next
    case (2 r m')
    have "rec_task_id q \<noteq> tid" if q: "hm_get m' i = Some q" for i q
    proof -
      obtain a where a: "hm_get m i = Some a" "q = (if rec_task_id a = rec_task_id r then spent a else a)"
        using q unfolding 2(7) map_option_eq_Some by blast
      have "rec_task_id a \<noteq> tid" using assms(2) a(1) by (simp add: unknown_def)
      then show ?thesis by (auto simp: a(2))
    qed
    then show ?thesis using 2(5) TmResubmit by (simp add: unknown_def)
  qed
qed

lemma recorded_tasks_append [simp]: "recorded_tasks (xs @ ys) = recorded_tasks xs @ recorded_tasks ys"
  by (induction xs rule: recorded_tasks.induct) auto

lemma unknown_run:
  "hm_wf m \<Longrightarrow> unknown tid m \<Longrightarrow> tid \<notin> set (recorded_tasks ops) \<Longrightarrow>
     hm_wf (fold (\<lambda>op m. fst (tm_step op m)) ops m) \<and> unknown tid (fold (\<lambda>op m. fst (tm_step op m)) ops m)"
proof (induction ops arbitrary: m)
  case (Cons op ops)
  then have "tid \<notin> set (recorded_tasks [op])" "tid \<notin> set (recorded_tasks ops)" by (cases op; simp)+
  then show ?case using Cons unknown_step wf_tm_step by simp
qed simp

lemma recorded_split:
  "tid \<in> set (recorded_tasks ops) \<Longrightarrow> distinct (recorded_tasks ops) \<Longrightarrow>
     \<exists>pre outputs n c a k post. ops = pre @ TmRecord outputs tid n c a k # post \<and>
       tid \<notin> set (recorded_tasks pre) \<and> tid \<notin> set (recorded_tasks post)"
proof (induction ops)
  case (Cons op ops)
  show ?case
  proof (cases "\<exists>outputs n c a k. op = TmRecord outputs tid n c a k")
    case True
    then show ?thesis using Cons.prems(2) by (elim exE) (rule exI [of _ "[]"], simp)
  next
    case False
    then have "tid \<in> set (recorded_tasks ops)" "distinct (recorded_tasks ops)" "tid \<notin> set (recorded_tasks [op])"
      using Cons.prems by (cases op; simp)+
    then obtain pre outputs n c a k post where "ops = pre @ TmRecord outputs tid n c a k # post"
        "tid \<notin> set (recorded_tasks pre)" "tid \<notin> set (recorded_tasks post)"
      using Cons.IH by blast
    then have "op # ops = (op # pre) @ TmRecord outputs tid n c a k # post"
        "tid \<notin> set (recorded_tasks (op # pre))" "tid \<notin> set (recorded_tasks post)"
      using \<open>tid \<notin> set (recorded_tasks [op])\<close> recorded_tasks_append [of "[op]" pre] by simp_all
    then show ?thesis by blast
  qed
qed simp

text \<open>Every attempt uses up a completion of the task.\<close>

definition some_completed :: "TaskManager \<Rightarrow> TaskId \<Rightarrow> bool" where
  "some_completed m tid \<longleftrightarrow> (\<exists>i r. hm_get m i = Some r \<and> rec_task_id r = tid \<and> was_completed r)"

lemma completions_Cons: "completions tid (op # ops) = of_bool (op = TmComplete tid) + completions tid ops"
  by (simp add: completions_def)

lemma attempts_completions:
  "hm_wf m \<Longrightarrow> attempts tid ops m \<le> completions tid ops + of_bool (some_completed m tid)"
proof (induction ops arbitrary: m)
  case Nil
  then show ?case by (simp add: attempts_def)
next
  case (Cons op ops)
  note IH = Cons.IH [OF wf_tm_step [OF Cons.prems], of op]
  show ?case
  proof (cases op)
    case (TmRecord outputs tid' n c a k)
    then have "some_completed (fst (tm_step op m)) tid \<Longrightarrow> some_completed m tid"
      by (auto simp: some_completed_def get_record_task split: if_splits)
    then show ?thesis
      using IH TmRecord by (cases "some_completed m tid"; cases "some_completed (fst (tm_step op m)) tid")
        (simp_all add: attempts_Cons completions_Cons)
  next
    case (TmComplete tid')
    then have "tid' \<noteq> tid \<Longrightarrow> some_completed (fst (tm_step op m)) tid \<Longrightarrow> some_completed m tid"
      by (auto simp: some_completed_def get_mark_completed) blast
    then show ?thesis
      using IH TmComplete
      by (cases "some_completed m tid"; cases "some_completed (fst (tm_step op m)) tid"; cases "tid' = tid")
        (simp_all add: attempts_Cons completions_Cons)
  next
    case (TmResubmit oid)
    show ?thesis
    proof (cases rule: try_resubmit_cases [OF Cons.prems, of oid])
      case 1
      then show ?thesis using IH TmResubmit by (simp add: attempts_Cons completions_Cons)
    next
      case (2 r m')
      have m': "fst (tm_step op m) = m'" "snd (tm_step op m) = Some (job_of r)" using 2(5) TmResubmit by simp_all
      have "some_completed m tid \<and> rec_task_id r \<noteq> tid" if sc: "some_completed m' tid"
      proof -
        obtain i q where q: "hm_get m' i = Some q" "rec_task_id q = tid" "was_completed q"
          using sc unfolding some_completed_def by blast
        obtain a where a: "hm_get m i = Some a" "q = (if rec_task_id a = rec_task_id r then spent a else a)"
          using q(1) unfolding 2(7) map_option_eq_Some by blast
        with q(3) have "q = a" "rec_task_id a \<noteq> rec_task_id r" by (cases "rec_task_id a = rec_task_id r"; simp)+
        then show ?thesis using a(1) q(2,3) unfolding some_completed_def by auto
      qed
      moreover have "rec_task_id r = tid \<Longrightarrow> some_completed m tid"
        using 2(1,2) unfolding some_completed_def by blast
      ultimately show ?thesis
        using IH m' TmResubmit
        by (cases "rec_task_id r = tid"; cases "some_completed m' tid"; cases "some_completed m tid")
          (auto simp: attempts_Cons completions_Cons job_of_def)
    qed
  qed
qed

text \<open>What a run hands out is what was recorded.\<close>

definition recorded_jobs :: "TmOp list \<Rightarrow> DispatchJob set" where
  "recorded_jobs ops =
     {\<lparr>job_task_id = tid, job_num_returns = n, job_callable_blob = c, job_args_blob = a, job_kwargs_blob = k\<rparr>
      | outputs tid n c a k. TmRecord outputs tid n c a k \<in> set ops}"

definition jobs_in :: "TaskManager \<Rightarrow> DispatchJob set" where
  "jobs_in m = {job_of r | i r. hm_get m i = Some r}"

lemma jobs_in_step: "hm_wf m \<Longrightarrow> jobs_in (fst (tm_step op m)) \<subseteq> jobs_in m \<union> recorded_jobs [op]"
proof (cases op)
  case (TmRecord outputs tid n c a k)
  have "job_of r \<in> jobs_in m \<union> recorded_jobs [op]" if q: "hm_get (fst (tm_step op m)) i = Some r" for i r
  proof (cases "i \<in> set outputs")
    case True
    then show ?thesis using q TmRecord by (auto simp: recorded_jobs_def get_record_task job_of_def)
  next
    case False
    then have "hm_get m i = Some r" using q TmRecord by (simp add: get_record_task)
    then show ?thesis unfolding jobs_in_def by blast
  qed
  then show ?thesis unfolding jobs_in_def by blast
next
  case (TmComplete tid)
  have "\<exists>q. hm_get m i = Some q \<and> job_of r = job_of q" if "hm_get (mark_completed tid m) i = Some r" for i r
    using that unfolding get_mark_completed map_option_eq_Some by auto
  then show ?thesis using TmComplete unfolding jobs_in_def by simp blast
next
  case (TmResubmit oid)
  assume wf: "hm_wf m"
  show ?thesis
  proof (cases rule: try_resubmit_cases [OF wf, of oid])
    case 1
    then show ?thesis using TmResubmit by simp
  next
    case (2 r m')
    have "\<exists>q'. hm_get m i = Some q' \<and> job_of q = job_of q'" if q: "hm_get m' i = Some q" for i q
    proof -
      obtain a where "hm_get m i = Some a" "q = (if rec_task_id a = rec_task_id r then spent a else a)"
        using q unfolding 2(7) map_option_eq_Some by blast
      then show ?thesis by simp
    qed
    then have "jobs_in m' \<subseteq> jobs_in m" unfolding jobs_in_def by blast
    then show ?thesis using 2(5) TmResubmit by auto
  qed
qed

lemma recorded_jobs_Cons: "recorded_jobs (op # ops) = recorded_jobs [op] \<union> recorded_jobs ops"
  by (auto simp: recorded_jobs_def)

lemma resubmitted_recorded:
  "hm_wf m \<Longrightarrow> set (resubmitted ops m) \<subseteq> jobs_in m \<union> recorded_jobs ops"
proof (induction ops arbitrary: m)
  case (Cons op ops)
  have "set (resubmitted ops (fst (tm_step op m))) \<subseteq> jobs_in m \<union> recorded_jobs (op # ops)"
    using Cons.IH [OF wf_tm_step [OF Cons.prems], of op] jobs_in_step [OF Cons.prems, of op]
    by (auto simp: recorded_jobs_Cons [of op ops])
  moreover have "job \<in> jobs_in m" if "snd (tm_step op m) = Some job" for job
    using that by (cases op) (auto simp: jobs_in_def try_resubmit_def Let_def split: option.splits if_splits)
  ultimately show ?case
    by (cases "tm_step op m") (auto split: option.splits)
qed simp

section \<open>Properties\<close>

text \<open>C32.
  Reconstruction comes to an end.  From a fresh table, whatever the order of records, completions and attempts to
  resubmit, a task is run again at most three times, never more often than it has completed (so that two
  attempts are never under way at once), and what is run again is exactly the job that was recorded.
\<close>

theorem resubmits_bounded:
  assumes "distinct (recorded_tasks ops)"
  shows "attempts tid ops TaskManager_new \<le> 3 \<and>
    attempts tid ops TaskManager_new \<le> completions tid ops \<and>
    set (resubmitted ops TaskManager_new) \<subseteq> recorded_jobs ops"
proof (intro conjI)
  have wf: "hm_wf TaskManager_new" and new: "unknown tid TaskManager_new" "budget_le TaskManager_new tid 0"
    by (simp_all add: TaskManager_new_def unknown_def budget_le_def)
  show "attempts tid ops TaskManager_new \<le> 3"
  proof (cases "tid \<in> set (recorded_tasks ops)")
    case True
    obtain pre outputs n c a k post where ops: "ops = pre @ TmRecord outputs tid n c a k # post"
        and fresh: "tid \<notin> set (recorded_tasks pre)" "tid \<notin> set (recorded_tasks post)"
      using recorded_split [OF True assms] by blast
    let ?m = "fold (\<lambda>op m. fst (tm_step op m)) pre TaskManager_new"
    let ?m' = "record_task outputs tid n c a k ?m"
    have m: "hm_wf ?m" "unknown tid ?m" using unknown_run [OF wf new(1) fresh(1)] by simp_all
    then have "budget_le ?m' tid 3" by (auto simp: budget_le_def unknown_def get_record_task)
    then have "attempts tid post ?m' \<le> 3" using attempts_budget [OF wf_record_task [OF m(1)] _ fresh(2)] by blast
    then show ?thesis
      using attempts_none [OF new(2) wf fresh(1)] by (simp add: ops attempts_append attempts_Cons)
  next
    case False
    then show ?thesis using attempts_none [OF new(2) wf] by simp
  qed
  have "\<not> some_completed TaskManager_new tid" by (simp add: some_completed_def TaskManager_new_def)
  then show "attempts tid ops TaskManager_new \<le> completions tid ops"
    using attempts_completions [OF wf, of tid ops] by simp
  have "jobs_in TaskManager_new = {}" by (simp add: jobs_in_def TaskManager_new_def)
  then show "set (resubmitted ops TaskManager_new) \<subseteq> recorded_jobs ops"
    using resubmitted_recorded [OF wf, of ops] by simp
qed

theorem resubmits_bounded_witness:
  "attempts (TaskId [1])
     [TmRecord [ObjectId [1]] (TaskId [1]) 1 [2] [3] None, TmComplete (TaskId [1]), TmResubmit (ObjectId [1])]
     TaskManager_new = 1 \<and>
   attempts (TaskId [1])
     [TmRecord [ObjectId [1]] (TaskId [1]) 1 [2] [3] None, TmComplete (TaskId [1]), TmResubmit (ObjectId [1])]
     TaskManager_new \<le> 3"
  using resubmits_bounded [of "[TmRecord [ObjectId [1]] (TaskId [1]) 1 [2] [3] None, TmComplete (TaskId [1]),
      TmResubmit (ObjectId [1])]" "TaskId [1]"]
  by (simp add: attempts_def TaskManager_new_def record_task_def mark_completed_def try_resubmit_def job_of_def
      DEFAULT_MAX_RETRIES_def Let_def)

end
