(* ===== verification/Driver_Session.thy ===== *)
theory Driver_Session
imports Core_Runs Raylet Task_Manager Node_Index
begin

text \<open>
  The session behind the Python API: \<open>rayd-py/src/runtime.rs\<close>, \<open>gcs.rs\<close> and the entry points of
  \<open>lib.rs\<close>.  A session is the worker together with, when a control store is attached, the node id and
  the directory of the local raylet; \<open>None\<close> is a process without a session.  Python values are the
  type parameter \<open>'v\<close>: pickling is an argument (the bytes, or \<open>None\<close> when it raises); unpickling and the
  displays of values are the parameter \<open>PyEnv\<close>.  A panic of the code is the value \<open>PyPanic\<close>.  The free
  callback of the runtime deregisters the object at the raylet and forgets its spill record; the second
  half is the callback of the worker, the first is \<open>on_worker\<close>.
\<close>

section \<open>Sessions\<close>

datatype 'v PyErr =
    PyRuntimeError bytes
  | PyValueError bytes
  | PyTimeoutError bytes
  | PyNotImplementedError bytes
  | PyPickleError
  | PyException 'v
  | PyPanic

record 'v PyEnv =
  py_loads :: "bytes \<Rightarrow> 'v option"
  py_bytes :: "bytes \<Rightarrow> 'v"
  show_category :: "ErrorCategory \<Rightarrow> bytes"
  show_core :: "CoreError \<Rightarrow> bytes"
  show_transport :: "ObjectTransportClientError \<Rightarrow> bytes"
  show_metadata_error :: "MetadataDecodeError \<Rightarrow> bytes"
  show_payload_error :: "ErrorPayloadCodecError \<Rightarrow> bytes"
  show_f64 :: "f64 \<Rightarrow> bytes"

record GcsBinding =
  gb_node_id :: bytes
  gb_job_id :: bytes
  gb_session_id :: bytes
  gb_directory :: ObjectDirectory

record 'r Session =
  ses_worker :: "'r CoreWorker"
  ses_gcs :: "GcsBinding option"

definition not_initialized :: bytes where
  "not_initialized = ascii ''rayd is not initialized; call rayd.init() first''"

definition no_gcs :: bytes where
  "no_gcs = ascii ''no GCS connection (set RAYD_GCS_ADDRESS before rayd.init())''"

definition require :: "'r Session option \<Rightarrow> ('v PyErr, 'r Session) result" where
  "require g = (case g of None \<Rightarrow> Inl (PyRuntimeError not_initialized) | Some s \<Rightarrow> Inr s)"

definition with_gcs :: "(GcsBinding \<Rightarrow> 'a) \<Rightarrow> 'r Session option \<Rightarrow> ('v PyErr, 'a option) result" where
  "with_gcs f g =
     (case g of None \<Rightarrow> Inl (PyRuntimeError not_initialized) | Some s \<Rightarrow> Inr (map_option f (ses_gcs s)))"

text \<open>An entry point that first asks for the session.\<close>

definition in_session ::
  "('r Session \<Rightarrow> 'r Session \<times> ('v PyErr, 'a) result) \<Rightarrow> 'r Session option \<Rightarrow>
     'r Session option \<times> ('v PyErr, 'a) result" where
  "in_session f g = (case require g of Inl e \<Rightarrow> (g, Inl e) | Inr s \<Rightarrow> (case f s of (s', x) \<Rightarrow> (Some s', x)))"

definition register_self_local :: "bytes \<Rightarrow> GcsBinding \<Rightarrow> GcsBinding" where
  "register_self_local oid b = b\<lparr>gb_directory := directory_register oid (gb_node_id b) (gb_directory b)\<rparr>"

definition deregister_self :: "bytes \<Rightarrow> GcsBinding \<Rightarrow> GcsBinding" where
  "deregister_self oid b = b\<lparr>gb_directory := directory_remove oid (gb_node_id b) (gb_directory b)\<rparr>"

definition map_gcs :: "(GcsBinding \<Rightarrow> GcsBinding) \<Rightarrow> 'r Session \<Rightarrow> 'r Session" where
  "map_gcs f s = s\<lparr>ses_gcs := map_option f (ses_gcs s)\<rparr>"

definition set_worker :: "'r CoreWorker \<Rightarrow> 'r Session \<Rightarrow> 'r Session" where
  "set_worker w s = s\<lparr>ses_worker := w\<rparr>"

text \<open>A call of the worker, with the calls of the free callback that it made.\<close>

definition on_worker :: "('r CoreWorker \<Rightarrow> 'r CoreWorker \<times> 'a) \<Rightarrow> 'r Session \<Rightarrow> 'r Session \<times> 'a" where
  "on_worker f s =
     (case f (ses_worker s) of
        (w, x) \<Rightarrow>
          (let freed = drop (length (cw_freed (ses_worker s))) (cw_freed w)
           in (map_gcs (fold (\<lambda>i. deregister_self (ObjectId_bytes i)) freed) (set_worker w s), x)))"

section \<open>Arguments\<close>

definition parse_object_id_28 :: "bytes \<Rightarrow> ('v PyErr, bytes) result" where
  "parse_object_id_28 bs =
     (if length bs \<noteq> 28
      then Inl (PyValueError (ascii ''object_id requires 28 bytes, got '' @ dec_digits (length bs)))
      else Inr bs)"

definition parse_node_id_16 :: "bytes \<Rightarrow> ('v PyErr, bytes) result" where
  "parse_node_id_16 bs =
     (if length bs \<noteq> 16
      then Inl (PyValueError (ascii ''node_id requires 16 bytes, got '' @ dec_digits (length bs)))
      else Inr bs)"

text \<open>
  A timeout in seconds becomes a duration of whole nanoseconds; \<open>Duration::from_secs_f64\<close> panics when the
  seconds do not fit \<open>u64\<close>.  \<open>to_nanos\<close> is its rounding.
\<close>

definition f64_is_negative :: "f64 \<Rightarrow> bool" where
  "f64_is_negative x = f64_lt x (F64 0 0)"

definition f64_is_finite :: "f64 \<Rightarrow> bool" where
  "f64_is_finite x = (case x of F64 _ _ \<Rightarrow> True | _ \<Rightarrow> False)"

definition parse_timeout :: "'v PyEnv \<Rightarrow> (f64 \<Rightarrow> nat) \<Rightarrow> f64 option \<Rightarrow> ('v PyErr, nat option) result" where
  "parse_timeout py to_nanos seconds =
     (case seconds of
        None \<Rightarrow> Inr None
      | Some x \<Rightarrow>
          if f64_is_finite x \<and> \<not> f64_is_negative x
          then if f64_lt x (F64 1 64) then Inr (Some (to_nanos x)) else Inl PyPanic
          else Inl (PyValueError (ascii ''invalid timeout: '' @ show_f64 py x)))"

section \<open>Object references\<close>

record PyObjectRef =
  ref_inner :: ObjectRef
  owns_count :: bool

definition from_inner :: "ObjectRef \<Rightarrow> PyObjectRef" where
  "from_inner r = \<lparr>ref_inner = r, owns_count = True\<rparr>"

definition clone_ref :: "PyObjectRef \<Rightarrow> PyObjectRef" where
  "clone_ref p = \<lparr>ref_inner = ref_inner p, owns_count = False\<rparr>"

abbreviation ref_id :: "PyObjectRef \<Rightarrow> ObjectId" where
  "ref_id p \<equiv> ref_object_id (ref_inner p)"

definition PyObjectRef_new :: "ObjectId \<Rightarrow> Address \<Rightarrow> bytes option \<Rightarrow> ('v PyErr, PyObjectRef) result" where
  "PyObjectRef_new i owner nid =
     (case nid of
        None \<Rightarrow> Inr \<lparr>ref_inner = ObjectRef_new i owner, owns_count = True\<rparr>
      | Some bs \<Rightarrow>
          if length bs \<noteq> 16
          then Inl (PyValueError (ascii ''owner_node_id must be 16 bytes, got '' @ dec_digits (length bs)))
          else Inr \<lparr>ref_inner = with_owner_node_id bs (ObjectRef_new i owner), owns_count = True\<rparr>)"

definition reduce_ref :: "PyObjectRef \<Rightarrow> ObjectId \<times> Address \<times> bytes option" where
  "reduce_ref p = (ref_id p, ref_owner (ref_inner p), ref_owner_node_id (ref_inner p))"

text \<open>Dropping a reference; the second component is the notification of a remote owner.\<close>

definition drop_ref :: "PyObjectRef \<Rightarrow> 'r Session option \<Rightarrow> 'r Session option \<times> (bytes \<times> bytes) option" where
  "drop_ref p g =
     (if \<not> owns_count p then (g, None)
      else
        (case g of
           None \<Rightarrow> (None, None)
         | Some s \<Rightarrow>
             (case on_worker (dec_local_ref (ref_id p)) s of
                (s', _) \<Rightarrow>
                  (Some s',
                   case (ref_owner_node_id (ref_inner p), map_option gb_node_id (ses_gcs s')) of
                     (Some owner, Some local) \<Rightarrow>
                       if local \<noteq> owner then Some (owner, ObjectId_bytes (ref_id p)) else None
                   | _ \<Rightarrow> None))))"

definition py_state :: "PyObjectRef \<Rightarrow> 'r Session option \<Rightarrow> RefState" where
  "py_state p g =
     (case g of
        None \<Rightarrow> Pending
      | Some s \<Rightarrow>
          (let st = state_of (ref_id p) (cw_store (ses_worker s))
           in if st \<noteq> Pending then st
              else
                (case (ref_owner_node_id (ref_inner p), map_option gb_node_id (ses_gcs s)) of
                   (Some owner, Some local) \<Rightarrow> if local \<noteq> owner then ReadyRemote else Pending
                 | _ \<Rightarrow> Pending)))"

section \<open>Errors of tasks\<close>

definition error_info_from_object :: "'v PyEnv \<Rightarrow> ErrorCategory \<Rightarrow> u16 \<Rightarrow> bytes \<Rightarrow> ('v PyErr, ErrorInfo) result" where
  "error_info_from_object py c code d =
     (case payload_decode d of
        Inl e \<Rightarrow> Inl (PyRuntimeError (ascii ''corrupted error payload: '' @ show_payload_error py e))
      | Inr p \<Rightarrow>
          (let info = ErrorInfo_with_raw_code code (ErrorInfo_new c (message p))
           in Inr (case traceback p of None \<Rightarrow> info | Some tb \<Rightarrow> ErrorInfo_with_traceback tb info)))"

definition raise_from_error_object ::
  "'v PyEnv \<Rightarrow> ErrorCategory \<Rightarrow> bytes \<Rightarrow> 'v PyErr" where
  "raise_from_error_object py c d =
     (case payload_decode d of
        Inl e \<Rightarrow> PyRuntimeError (ascii ''corrupted error payload: '' @ show_payload_error py e)
      | Inr p \<Rightarrow>
          (let generic = PyRuntimeError (ascii ''rayd task failed: category='' @ show_category py c @ ascii ''; '' @ message p)
           in case pickled_python_exception p of
                None \<Rightarrow> generic
              | Some blob \<Rightarrow> (case py_loads py blob of None \<Rightarrow> generic | Some v \<Rightarrow> PyException v)))"

definition peek_error ::
  "'v PyEnv \<Rightarrow> 'r hook \<Rightarrow> PyObjectRef \<Rightarrow> 'r Session option \<Rightarrow> 'r Session option \<times> ErrorInfo option" where
  "peek_error py h p g =
     (case g of
        None \<Rightarrow> (None, None)
      | Some s \<Rightarrow>
          (case resolve_now h (ref_id p) (ses_worker s) of
             (w, r) \<Rightarrow>
               (Some (set_worker w s),
                case r of
                  Inr (Some obj) \<Rightarrow>
                    (case resolved_metadata obj of
                       Error c code \<Rightarrow>
                         (case error_info_from_object py c code (resolved_data obj) of
                            Inl _ \<Rightarrow> None | Inr info \<Rightarrow> Some info)
                     | _ \<Rightarrow> None)
                | _ \<Rightarrow> None)))"

definition py_exception ::
  "'v PyEnv \<Rightarrow> 'r hook \<Rightarrow> PyObjectRef \<Rightarrow> 'r Session option \<Rightarrow>
     'r Session option \<times> ('v PyErr, 'v option) result" where
  "py_exception py h p g =
     (case g of
        None \<Rightarrow> (None, Inr None)
      | Some s \<Rightarrow>
          (case resolve_now h (ref_id p) (ses_worker s) of
             (w, r) \<Rightarrow>
               (Some (set_worker w s),
                case r of
                  Inl e \<Rightarrow> Inl (PyRuntimeError (ascii ''resolve failed: '' @ show_core py e))
                | Inr None \<Rightarrow> Inr None
                | Inr (Some obj) \<Rightarrow>
                    if \<not> is_error (resolved_metadata obj) then Inr None
                    else
                      (case payload_decode (resolved_data obj) of
                         Inl e \<Rightarrow> Inl (PyRuntimeError (ascii ''corrupted error payload: '' @ show_payload_error py e))
                       | Inr q \<Rightarrow>
                           (case pickled_python_exception q of
                              None \<Rightarrow> Inr None
                            | Some blob \<Rightarrow>
                                (case py_loads py blob of None \<Rightarrow> Inl PyPickleError | Some v \<Rightarrow> Inr (Some v)))))))"

section \<open>Storing values\<close>

definition seal_failed :: "'v PyEnv \<Rightarrow> CoreError \<Rightarrow> 'v PyErr" where
  "seal_failed py e = PyRuntimeError (ascii ''seal failed: '' @ show_core py e)"

definition put_value ::
  "'v PyEnv \<Rightarrow> 'r hook \<Rightarrow> bytes option \<Rightarrow> 'r Session \<Rightarrow> 'r Session \<times> ('v PyErr, PyObjectRef) result" where
  "put_value py h pickled s =
     (case next_task_id (ses_worker s) of
        (w, task) \<Rightarrow>
          (let i = for_return task 0; r = ObjectRef_new i (cw_address w)
           in case pickled of
                None \<Rightarrow> (set_worker w s, Inl PyPickleError)
              | Some d \<Rightarrow>
                  (case ses_gcs s of
                     Some b \<Rightarrow>
                       (case seal_value_to_plasma h i (Pickle5 False) d w of
                          (w', Inl e) \<Rightarrow> (set_worker w' s, Inl (seal_failed py e))
                        | (w', Inr _) \<Rightarrow>
                            (map_gcs (register_self_local (ObjectId_bytes i)) (set_worker w' s),
                             Inr (from_inner (with_owner_node_id (gb_node_id b) r))))
                   | None \<Rightarrow>
                       (case seal_value i (Pickle5 False) d w of
                          (w', Inl e) \<Rightarrow> (set_worker w' s, Inl (seal_failed py e))
                        | (w', Inr _) \<Rightarrow> (set_worker w' s, Inr (from_inner r))))))"

definition py_put ::
  "'v PyEnv \<Rightarrow> 'r hook \<Rightarrow> bytes option \<Rightarrow> 'r Session option \<Rightarrow>
     'r Session option \<times> ('v PyErr, PyObjectRef) result" where
  "py_put py h pickled = in_session (put_value py h pickled)"

definition bad_metadata :: "'v PyEnv \<Rightarrow> MetadataDecodeError \<Rightarrow> 'v PyErr" where
  "bad_metadata py e = PyRuntimeError (ascii ''invalid metadata: '' @ show_metadata_error py e)"

definition worker_seal ::
  "'v PyEnv \<Rightarrow> 'r hook \<Rightarrow> bytes \<Rightarrow> bytes \<Rightarrow> bytes \<Rightarrow> 'r Session option \<Rightarrow>
     'r Session option \<times> ('v PyErr, u64) result" where
  "worker_seal py h oid md d g =
     (if length oid \<noteq> ObjectId_SIZE
      then (g, Inl (PyValueError (ascii ''object_id must be 28 bytes, got '' @ dec_digits (length oid))))
      else
        (case decode md of
           Inl e \<Rightarrow> (g, Inl (bad_metadata py e))
         | Inr m \<Rightarrow>
             in_session (\<lambda>s.
               case seal_value_to_plasma h (ObjectId oid) m d (ses_worker s) of
                 (w, Inl e) \<Rightarrow> (set_worker w s, Inl (seal_failed py e))
               | (w, Inr n) \<Rightarrow> (map_gcs (register_self_local oid) (set_worker w s), Inr n)) g))"

definition record_seal :: "ObjectId \<Rightarrow> Metadata \<Rightarrow> u64 \<Rightarrow> 'r CoreWorker \<Rightarrow> 'r CoreWorker" where
  "record_seal i m n w =
     w\<lparr>cw_store := put_plasma i \<lparr>idx_metadata = m, idx_data_size = n\<rparr> (cw_store w),
       cw_refs := add_owned i (cw_refs w)\<rparr>"

definition record_plasma_seal ::
  "'v PyEnv \<Rightarrow> bytes \<Rightarrow> bytes \<Rightarrow> u64 \<Rightarrow> 'r Session option \<Rightarrow> 'r Session option \<times> ('v PyErr, unit) result" where
  "record_plasma_seal py oid md n g =
     (case parse_object_id_28 oid of
        Inl e \<Rightarrow> (g, Inl e)
      | Inr _ \<Rightarrow>
          (case decode md of
             Inl e \<Rightarrow> (g, Inl (bad_metadata py e))
           | Inr m \<Rightarrow>
               in_session (\<lambda>s.
                 (map_gcs (register_self_local oid) (set_worker (record_seal (ObjectId oid) m n (ses_worker s)) s),
                  Inr ())) g))"

definition mint_actor_result_ref ::
  "bytes option \<Rightarrow> 'r Session option \<Rightarrow> 'r Session option \<times> ('v PyErr, PyObjectRef) result" where
  "mint_actor_result_ref nid =
     in_session (\<lambda>s.
       case next_task_id (ses_worker s) of
         (w, task) \<Rightarrow>
           (let r = ObjectRef_new (for_return task 0) (cw_address w)
            in (set_worker w s,
                case nid of
                  None \<Rightarrow> Inr (from_inner r)
                | Some bs \<Rightarrow>
                    (case parse_node_id_16 bs of
                       Inl e \<Rightarrow> Inl e
                     | Inr n \<Rightarrow> Inr (from_inner (with_owner_node_id n r))))))"

definition py_free :: "PyObjectRef list \<Rightarrow> 'r Session option \<Rightarrow> 'r Session option \<times> ('v PyErr, unit) result" where
  "py_free refs =
     in_session (\<lambda>s.
       (let w = ses_worker s
        in (set_worker (w\<lparr>cw_store := delete (map ref_id refs) (cw_store w)\<rparr>) s, Inr ())))"

definition py_evict_local ::
  "'v PyEnv \<Rightarrow> bytes \<Rightarrow> 'r Session option \<Rightarrow> 'r Session option \<times> ('v PyErr, unit) result" where
  "py_evict_local py oid g =
     (case parse_object_id_28 oid of
        Inl e \<Rightarrow> (g, Inl e)
      | Inr _ \<Rightarrow>
          in_session (\<lambda>s.
            case evict_local (ObjectId oid) (ses_worker s) of
              (w, Inl e) \<Rightarrow> (set_worker w s, Inl (PyRuntimeError (ascii ''evict_local: '' @ show_core py e)))
            | (w, Inr _) \<Rightarrow> (set_worker w s, Inr ())) g)"

definition py_spill_object ::
  "'v PyEnv \<Rightarrow> 'r hook \<Rightarrow> bytes \<Rightarrow> 'r Session option \<Rightarrow> 'r Session option \<times> ('v PyErr, bool) result" where
  "py_spill_object py h oid g =
     (case parse_object_id_28 oid of
        Inl e \<Rightarrow> (g, Inl e)
      | Inr _ \<Rightarrow>
          in_session (\<lambda>s.
            case spill_to_recoverer h (ObjectId oid) (ses_worker s) of
              (w, Inl CorePanic) \<Rightarrow> (set_worker w s, Inl PyPanic)
            | (w, Inl e) \<Rightarrow> (set_worker w s, Inl (PyRuntimeError (ascii ''spill_object: '' @ show_core py e)))
            | (w, Inr moved) \<Rightarrow> (set_worker w s, Inr moved)) g)"

section \<open>Reading values\<close>

definition resolve_failed :: "'v PyEnv \<Rightarrow> CoreError \<Rightarrow> 'v PyErr" where
  "resolve_failed py e =
     (if e = CorePanic then PyPanic else PyRuntimeError (ascii ''resolve: '' @ show_core py e))"

text \<open>What becomes of the bytes of an object.\<close>

definition value_from_object :: "'v PyEnv \<Rightarrow> Metadata \<Rightarrow> bytes \<Rightarrow> ('v PyErr, 'v) result" where
  "value_from_object py m d =
     (case m of
        Error c code \<Rightarrow> Inl (raise_from_error_object py c d)
      | Pickle5 nested \<Rightarrow> (case py_loads py d of None \<Rightarrow> Inl PyPickleError | Some v \<Rightarrow> Inr v)
      | Raw \<Rightarrow> Inr (py_bytes py d)
      | ActorHandle \<Rightarrow>
          Inl (PyNotImplementedError (ascii ''actor handle deserialization lands in Phase 5'')))"

text \<open>\<open>None\<close>: the call is still parked after all observations of the store.\<close>

definition get_one ::
  "'v PyEnv \<Rightarrow> 'r hook \<Rightarrow> PyObjectRef \<Rightarrow> nat \<Rightarrow> nat option \<Rightarrow> observation list \<Rightarrow> 'r Session \<Rightarrow>
     ('r Session \<times> ('v PyErr, 'v) result) option" where
  "get_one py h p start timeout obs s =
     (case resolve_blocking h (ref_id p) start timeout obs (ses_worker s) of
        None \<Rightarrow> None
      | Some (w, Inl e) \<Rightarrow> Some (set_worker w s, Inl (resolve_failed py e))
      | Some (w, Inr None) \<Rightarrow>
          Some (set_worker w s, Inl (PyTimeoutError (ascii ''rayd.get timed out waiting for ObjectRef(''
            @ obj_hex w (ref_id p) @ ascii '')'')))
      | Some (w, Inr (Some obj)) \<Rightarrow>
          Some (set_worker w s, value_from_object py (resolved_metadata obj) (resolved_data obj)))"

text \<open>The list form: one reference after the other, each with the whole timeout.\<close>

fun get_list ::
  "'v PyEnv \<Rightarrow> 'r hook \<Rightarrow> nat option \<Rightarrow> (PyObjectRef \<times> nat \<times> observation list) list \<Rightarrow> 'r Session \<Rightarrow>
     ('r Session \<times> ('v PyErr, 'v list) result) option" where
  "get_list py h timeout [] s = Some (s, Inr [])"
| "get_list py h timeout ((p, start, obs) # rest) s =
     (case get_one py h (clone_ref p) start timeout obs s of
        None \<Rightarrow> None
      | Some (s', Inl e) \<Rightarrow> Some (s', Inl e)
      | Some (s', Inr v) \<Rightarrow>
          (case get_list py h timeout rest s' of
             None \<Rightarrow> None
           | Some (s'', Inl e) \<Rightarrow> Some (s'', Inl e)
           | Some (s'', Inr vs) \<Rightarrow> Some (s'', Inr (v # vs))))"

text \<open>The common head of the reading entry points.\<close>

definition with_timeout ::
  "'v PyEnv \<Rightarrow> (f64 \<Rightarrow> nat) \<Rightarrow> f64 option \<Rightarrow>
     (nat option \<Rightarrow> 'r Session \<Rightarrow> ('r Session \<times> ('v PyErr, 'a) result) option) \<Rightarrow> 'r Session option \<Rightarrow>
     ('r Session option \<times> ('v PyErr, 'a) result) option" where
  "with_timeout py to_nanos seconds f g =
     (case require g of
        Inl e \<Rightarrow> Some (g, Inl e)
      | Inr s \<Rightarrow>
          (case parse_timeout py to_nanos seconds of
             Inl e \<Rightarrow> Some (g, Inl e)
           | Inr timeout \<Rightarrow> map_option (\<lambda>(s', x). (Some s', x)) (f timeout s)))"

definition py_get ::
  "'v PyEnv \<Rightarrow> (f64 \<Rightarrow> nat) \<Rightarrow> 'r hook \<Rightarrow> PyObjectRef \<Rightarrow> f64 option \<Rightarrow> nat \<Rightarrow> observation list \<Rightarrow> 'r Session option \<Rightarrow>
     ('r Session option \<times> ('v PyErr, 'v) result) option" where
  "py_get py to_nanos h p seconds start obs =
     with_timeout py to_nanos seconds (\<lambda>timeout. get_one py h (clone_ref p) start timeout obs)"

definition py_get_list ::
  "'v PyEnv \<Rightarrow> (f64 \<Rightarrow> nat) \<Rightarrow> 'r hook \<Rightarrow> f64 option \<Rightarrow> (PyObjectRef \<times> nat \<times> observation list) list \<Rightarrow> 'r Session option \<Rightarrow>
     ('r Session option \<times> ('v PyErr, 'v list) result) option" where
  "py_get_list py to_nanos h seconds items = with_timeout py to_nanos seconds (\<lambda>timeout. get_list py h timeout items)"

datatype 'v Settled = SettledOk 'v | SettledErr ErrorInfo | SettledPending

definition settled_entry :: "'v PyEnv \<Rightarrow> Metadata \<Rightarrow> bytes \<Rightarrow> ('v PyErr, 'v Settled) result" where
  "settled_entry py m d =
     (case m of
        Error c code \<Rightarrow>
          (case error_info_from_object py c code d of Inl e \<Rightarrow> Inl e | Inr info \<Rightarrow> Inr (SettledErr info))
      | Pickle5 nested \<Rightarrow> (case py_loads py d of None \<Rightarrow> Inl PyPickleError | Some v \<Rightarrow> Inr (SettledOk v))
      | Raw \<Rightarrow> Inr (SettledOk (py_bytes py d))
      | ActorHandle \<Rightarrow>
          Inl (PyNotImplementedError (ascii ''actor handle deserialization lands in Phase 5'')))"

fun settle_list ::
  "'v PyEnv \<Rightarrow> 'r hook \<Rightarrow> nat option \<Rightarrow> (PyObjectRef \<times> nat \<times> observation list) list \<Rightarrow> 'r Session \<Rightarrow>
     ('r Session \<times> ('v PyErr, 'v Settled list) result) option" where
  "settle_list py h timeout [] s = Some (s, Inr [])"
| "settle_list py h timeout ((p, start, obs) # rest) s =
     (case resolve_blocking h (ref_id p) start timeout obs (ses_worker s) of
        None \<Rightarrow> None
      | Some (w, Inl e) \<Rightarrow> Some (set_worker w s, Inl (resolve_failed py e))
      | Some (w, Inr r) \<Rightarrow>
          (case (case r of None \<Rightarrow> Inr SettledPending
                 | Some obj \<Rightarrow> settled_entry py (resolved_metadata obj) (resolved_data obj)) of
             Inl e \<Rightarrow> Some (set_worker w s, Inl e)
           | Inr x \<Rightarrow>
               (case settle_list py h timeout rest (set_worker w s) of
                  None \<Rightarrow> None
                | Some (s', Inl e) \<Rightarrow> Some (s', Inl e)
                | Some (s', Inr xs) \<Rightarrow> Some (s', Inr (x # xs)))))"

definition py_get_settled ::
  "'v PyEnv \<Rightarrow> (f64 \<Rightarrow> nat) \<Rightarrow> 'r hook \<Rightarrow> f64 option \<Rightarrow> (PyObjectRef \<times> nat \<times> observation list) list \<Rightarrow> 'r Session option \<Rightarrow>
     ('r Session option \<times> ('v PyErr, 'v Settled list) result) option" where
  "py_get_settled py to_nanos h seconds items =
     with_timeout py to_nanos seconds (\<lambda>timeout. settle_list py h timeout items)"

definition states_of :: "PyObjectRef list \<Rightarrow> MemoryStore \<Rightarrow> (PyObjectRef \<times> RefState) list" where
  "states_of refs st =
     (let snap = state_snapshot (map ref_id refs) st
      in map (\<lambda>r. (r, case hm_get snap (ref_id r) of None \<Rightarrow> Pending | Some x \<Rightarrow> x)) refs)"

definition py_states ::
  "PyObjectRef list \<Rightarrow> 'r Session option \<Rightarrow> 'r Session option \<times> ('v PyErr, (PyObjectRef \<times> RefState) list) result" where
  "py_states refs = in_session (\<lambda>s. (s, Inr (states_of refs (cw_store (ses_worker s)))))"

definition py_wait ::
  "'v PyEnv \<Rightarrow> (f64 \<Rightarrow> nat) \<Rightarrow> PyObjectRef list \<Rightarrow> nat \<Rightarrow> f64 option \<Rightarrow> nat \<Rightarrow> observation list \<Rightarrow> 'r Session option \<Rightarrow>
     ('r Session option \<times> ('v PyErr, PyObjectRef list \<times> PyObjectRef list) result) option" where
  "py_wait py to_nanos refs num_returns seconds start obs =
     with_timeout py to_nanos seconds (\<lambda>timeout s.
       case wait (map ref_id refs) num_returns start timeout obs of
         None \<Rightarrow> None
       | Some out \<Rightarrow>
           Some (s, Inr (filter (\<lambda>r. ref_id r \<in> set (ready out)) refs,
                         filter (\<lambda>r. ref_id r \<notin> set (ready out)) refs)))"

text \<open>The states are read after the wait, from a store that may have changed since.\<close>

definition py_wait_with_states ::
  "'v PyEnv \<Rightarrow> (f64 \<Rightarrow> nat) \<Rightarrow> PyObjectRef list \<Rightarrow> f64 option \<Rightarrow> nat \<Rightarrow> observation list \<Rightarrow> 'r Session option \<Rightarrow>
     ('r Session option \<times> ('v PyErr, (PyObjectRef \<times> RefState) list) result) option" where
  "py_wait_with_states py to_nanos refs seconds start obs =
     with_timeout py to_nanos seconds (\<lambda>timeout s.
       case wait (map ref_id refs) (length refs) start timeout obs of
         None \<Rightarrow> None
       | Some _ \<Rightarrow> Some (s, Inr (states_of refs (cw_store (ses_worker s)))))"

section \<open>Teardown\<close>

text \<open>
  The session is taken before the worker frees its objects, so that the free callback finds none; the
  dispatcher and the control store are stopped afterwards.
\<close>

definition uninstall :: "'r Session option \<Rightarrow> 'r Session option \<times> ('r CoreWorker \<times> GcsBinding option) option" where
  "uninstall g =
     (case g of None \<Rightarrow> (None, None) | Some s \<Rightarrow> (None, Some (free_all_local (ses_worker s), ses_gcs s)))"

section \<open>Sessions and their worker\<close>

lemma in_session_Some [simp]: "in_session f (Some s) = (case f s of (s', x) \<Rightarrow> (Some s', x))"
  by (simp add: in_session_def require_def)

lemma worker_set_worker [simp]:
  "ses_worker (set_worker w s) = w" "ses_gcs (set_worker w s) = ses_gcs s"
  "ses_worker (map_gcs f s) = ses_worker s" "ses_gcs (map_gcs f s) = map_option f (ses_gcs s)"
  by (simp_all add: set_worker_def map_gcs_def)

lemma ref_id_simps [simp]:
  "ref_id (from_inner r) = ref_object_id r" "ref_id (clone_ref p) = ref_id p"
  "ref_object_id (with_owner_node_id n r) = ref_object_id r" "ref_object_id (ObjectRef_new i a) = i"
  "owns_count (from_inner r)" "\<not> owns_count (clone_ref p)"
  by (simp_all add: from_inner_def clone_ref_def with_owner_node_id_def ObjectRef_new_def)

text \<open>The worker of a session is wired as \<open>install\<close> leaves it.\<close>

definition session_ok :: "bytes \<Rightarrow> fs_manager Session \<Rightarrow> bool" where
  "session_ok r s \<longleftrightarrow>
     cw_ok (spill_inv r) spill_quiet (ses_worker s) \<and>
     cw_free_callback (ses_worker s) = (case ses_gcs s of None \<Rightarrow> None | Some _ \<Rightarrow> Some forget_on_free)"

abbreviation session_value :: "fs_manager Session \<Rightarrow> ObjectId \<Rightarrow> (Metadata \<times> bytes) option" where
  "session_value s \<equiv> worker_value (ses_worker s)"

lemma session_okD: "session_ok r s \<Longrightarrow> cw_ok (spill_inv r) spill_quiet (ses_worker s)"
  by (simp add: session_ok_def)

lemma next_task_id_keeps:
  assumes "next_task_id w = (w', t)"
  shows "cw_plasma w' = cw_plasma w" "cw_recoverer w' = cw_recoverer w" "cw_refs w' = cw_refs w"
    "cw_free_callback w' = cw_free_callback w" "cw_store w' = cw_store w" "value_of held w' = value_of held w"
  using assms
  by (auto simp: next_task_id_def Let_def value_of_def available_def fun_eq_iff
      split: option.split StoredEntry.split slot_state.split)

text \<open>Sealing, whichever way it goes.\<close>

definition sealed_session ::
  "bytes \<Rightarrow> ObjectId \<Rightarrow> Metadata \<Rightarrow> bytes \<Rightarrow> fs_manager Session \<Rightarrow> fs_manager Session \<Rightarrow> bool" where
  "sealed_session r i m d s s' \<longleftrightarrow>
     session_ok r s' \<and> session_value s' = (session_value s)(i \<mapsto> (m, d)) \<and>
     cw_refs (ses_worker s') = add_owned i (cw_refs (ses_worker s))"

lemma seal_to_plasma_session:
  assumes "session_ok r s" and "rust_slice d"
    and "seal_value_to_plasma manager_hook i m d w = (w', Inr n)"
    and "cw_ok (spill_inv r) spill_quiet w" "worker_value w = session_value s" "cw_refs w = cw_refs (ses_worker s)"
    "cw_free_callback w = cw_free_callback (ses_worker s)"
    and "ses_worker s' = w'" "ses_gcs s' = None \<longleftrightarrow> ses_gcs s = None"
  shows "sealed_session r i m d s s'"
  using localfs.hook.seal_value_to_plasma_result [OF assms(4,2) assms(3) [unfolded manager_hook_eq]] assms
  by (auto simp: sealed_session_def session_ok_def is_ok_def split: option.splits)

lemma seal_value_session:
  assumes "session_ok r s" and "rust_slice d" and "seal_value i m d w = (w', Inr n)"
    and "cw_ok (spill_inv r) spill_quiet w" "worker_value w = session_value s" "cw_refs w = cw_refs (ses_worker s)"
    "cw_free_callback w = cw_free_callback (ses_worker s)"
    and "ses_worker s' = w'" "ses_gcs s' = None \<longleftrightarrow> ses_gcs s = None"
  shows "sealed_session r i m d s s'"
  using seal_value_result [OF assms(4,2,3), of "mgr_held fs_content"] assms
  by (auto simp: sealed_session_def session_ok_def is_ok_def split: option.splits)

lemma put_value_seals:
  assumes s: "session_ok r s" and d: "rust_slice d" and p: "put_value py manager_hook (Some d) s = (s', Inr p)"
  shows "sealed_session r (ref_id p) (Pickle5 False) d s s' \<and> owns_count p
    \<and> ref_owner_node_id (ref_inner p) = map_option gb_node_id (ses_gcs s)
    \<and> map_option gb_node_id (ses_gcs s') = map_option gb_node_id (ses_gcs s)"
proof -
  obtain w t where t: "next_task_id (ses_worker s) = (w, t)" by fastforce
  let ?i = "for_return t 0"
  note k = next_task_id_keeps [OF t]
  have ok: "cw_ok (spill_inv r) spill_quiet w"
    using cw_ok_frame [OF session_okD [OF s] k(1,2)] .
  show ?thesis
  proof (cases "ses_gcs s")
    case None
    obtain w' q where q: "seal_value ?i (Pickle5 False) d w = (w', q)" by fastforce
    with p t None have e: "q = Inr ()" "s' = set_worker w' s" "p = from_inner (ObjectRef_new ?i (cw_address w))"
      by (auto simp: put_value_def Let_def split: sum.splits)
    have "sealed_session r ?i (Pickle5 False) d s s'"
      using seal_value_session [OF s d _ ok k(6) k(3,4), of ?i "Pickle5 False" w' "()" s'] q e by simp
    then show ?thesis using e None by (simp add: from_inner_def ObjectRef_new_def)
  next
    case (Some b)
    obtain w' q where q: "seal_value_to_plasma manager_hook ?i (Pickle5 False) d w = (w', q)" by fastforce
    with p t Some obtain n where e: "q = Inr n" "p = from_inner (with_owner_node_id (gb_node_id b) (ObjectRef_new ?i (cw_address w)))"
      "s' = map_gcs (register_self_local (ObjectId_bytes ?i)) (set_worker w' s)"
      by (auto simp: put_value_def Let_def split: sum.splits)
    have "sealed_session r ?i (Pickle5 False) d s s'"
      using seal_to_plasma_session [OF s d _ ok k(6) k(3,4), of ?i "Pickle5 False" w' n s'] q e by simp
    then show ?thesis using e Some
      by (simp add: from_inner_def with_owner_node_id_def ObjectRef_new_def register_self_local_def)
  qed
qed

lemma resolve_blocking_present:
  "get_entry i (cw_store w) = Some e \<Longrightarrow>
     resolve_blocking h i start timeout ((cw_store w, now) # obs) w = Some (resolve_now h i w)"
  by (simp add: resolve_blocking_def resolve_now_def get_entry_blocking_def get_entry_def)

definition out_of_memory :: "'v PyEnv \<Rightarrow> ('v PyErr, 'a) result \<Rightarrow> bool" where
  "out_of_memory py x \<longleftrightarrow>
     (\<exists>msg. x = Inl (PyRuntimeError (ascii ''resolve: '' @ show_core py (CorePlasma (PlasmaServerError OutOfMemory msg)))))"

lemma get_one_result:
  assumes s: "session_ok r s" and v: "session_value s (ref_id p) = Some (m, d)"
  obtains s' x where "get_one py manager_hook p start timeout ((cw_store (ses_worker s), now) # obs) s = Some (s', x)"
    "session_ok r s'" "session_value s' = session_value s" "cw_refs (ses_worker s') = cw_refs (ses_worker s)"
    "x = value_from_object py m d \<or> \<not> in_plasma (ses_worker s) (ref_id p) \<and> out_of_memory py x"
proof -
  obtain w' q where q: "resolve_now manager_hook (ref_id p) (ses_worker s) = (w', q)" by fastforce
  note k = localfs.hook.resolve_now_result [OF session_okD [OF s] q [unfolded manager_hook_eq]]
  obtain e where e: "get_entry (ref_id p) (cw_store (ses_worker s)) = Some e"
    using v by (auto simp: value_of_def split: option.splits)
  have ok: "session_ok r (set_worker w' s)"
    using k s by (auto simp: session_ok_def same_indexD)
  have "answers (Some (m, d)) (in_plasma (ses_worker s) (ref_id p)) q" using k v by simp
  then consider nr where "q = Inr (Some \<lparr>resolved_metadata = m, resolved_data = d, resolved_nested_refs = nr\<rparr>)"
    | msg where "\<not> in_plasma (ses_worker s) (ref_id p)" "q = Inl (CorePlasma (PlasmaServerError OutOfMemory msg))"
    by (auto simp: answers_def)
  then show thesis
    using that [of "set_worker w' s"] k ok
    by cases (auto simp: get_one_def resolve_blocking_present [OF e] q same_indexD out_of_memory_def resolve_failed_def)
qed

text \<open>Releasing the last reference through the worker drops the value, with or without a callback.\<close>

lemma free_unpinned_session:
  assumes ok: "cw_ok (spill_inv r) spill_quiet w"
    and cb: "cw_free_callback w = None \<or> cw_free_callback w = Some forget_on_free"
    and f: "free_unpinned i w = (w', q)"
  shows "worker_value w' i = None"
  using cb
proof
  assume none: "cw_free_callback w = None"
  obtain w1 q1 where e: "evict_local i w = (w1, q1)" by fastforce
  note k = evict_local_result [OF ok e, of "mgr_held fs_content"]
  then have "w' = w1" using f e none by (simp add: free_unpinned_evict)
  with k show ?thesis by simp
next
  assume "cw_free_callback w = Some forget_on_free"
  then have "worker_inv r w" using ok by (simp add: worker_inv_def)
  from worker_free [OF this f] show ?thesis by simp
qed

lemma dec_fresh_owned:
  assumes "hm_get c i = None"
  shows "snd (dec_local i (add_owned i c))"
  using assms
  by (simp add: dec_local_def add_owned_def hm_upsert_def OwnerEntry_default_def remove_if_unpinned_def
      is_unpinned_def saturating_sub_def)

definition unpickle_ref :: "ObjectId \<times> Address \<times> bytes option \<Rightarrow> ('v PyErr, PyObjectRef) result" where
  "unpickle_ref x = (case x of (i, owner, nid) \<Rightarrow> PyObjectRef_new i owner nid)"

lemma unpickled_ref_owns:
  "unpickle_ref (reduce_ref p) = Inr q \<Longrightarrow> owns_count q \<and> ref_id q = ref_id p"
  by (auto simp: unpickle_ref_def reduce_ref_def PyObjectRef_new_def ObjectRef_new_def with_owner_node_id_def
      split: option.splits if_splits)

lemma drop_last_count:
  assumes "session_ok r s" and "owns_count q" and "snd (dec_local (ref_id q) (cw_refs (ses_worker s)))"
    and "drop_ref q (Some s) = (Some s', told)"
  shows "session_value s' (ref_id q) = None"
proof -
  obtain c where c: "dec_local (ref_id q) (cw_refs (ses_worker s)) = (c, True)"
    using assms(3) by (cases "dec_local (ref_id q) (cw_refs (ses_worker s))") auto
  let ?w = "(ses_worker s)\<lparr>cw_refs := c\<rparr>"
  obtain w' x where f: "free_unpinned (ref_id q) ?w = (w', x)" by fastforce
  then have "dec_local_ref (ref_id q) (ses_worker s) = (w', x)" by (simp add: dec_local_ref_def c)
  then have "ses_worker s' = w'"
    using assms(2,4) by (auto simp: drop_ref_def on_worker_def Let_def split: prod.splits)
  moreover have "worker_value w' (ref_id q) = None"
    using free_unpinned_session [OF _ _ f, of r] assms(1) by (auto simp: session_ok_def split: option.splits)
  ultimately show ?thesis by simp
qed

section \<open>Properties\<close>


definition example_env :: "bytes PyEnv" where
  "example_env =
     \<lparr>py_loads = Some, py_bytes = (\<lambda>bs. bs), show_category = (\<lambda>_. []), show_core = (\<lambda>_. []),
      show_transport = (\<lambda>_. []), show_metadata_error = (\<lambda>_. []), show_payload_error = (\<lambda>_. []), show_f64 = (\<lambda>_. [])\<rparr>"

definition example_session :: "fs_manager Session" where
  "example_session =
     \<lparr>ses_worker = new_local 16 hex_lower (WorkerId (replicate 16 1)) (JobId (replicate 16 2)), ses_gcs = None\<rparr>"

lemma example_session_ok: "session_ok r example_session"
  by (simp add: session_ok_def example_session_def new_local_def CoreWorker_new_def cw_ok_def)

lemma example_put:
  obtains s p where "py_put example_env manager_hook (Some [7, 9]) (Some example_session) = (Some s, Inr p)"
    "ref_owner_node_id (ref_inner p) = None" "ses_gcs s = None"
  by (simp add: py_put_def put_value_def next_task_id_def seal_value_def example_session_def new_local_def
      CoreWorker_new_def Let_def INLINE_THRESHOLD_BYTES_def from_inner_def ObjectRef_new_def)


text \<open>C40. A reference that is pickled and unpickled in the process that owns the object is a second counted handle
  that was never counted: dropping the copy frees the object although the reference returned by the put still
  exists and still counts itself.\<close>

theorem unpickled_ref_frees_early:
  assumes "session_ok r s" and "rust_slice d" and "py_put py manager_hook (Some d) (Some s) = (Some s', Inr p)"
    and "hm_get (cw_refs (ses_worker s)) (ref_id p) = None"
    and "unpickle_ref (reduce_ref p) = (Inr q :: ('v PyErr, PyObjectRef) result)"
    and "drop_ref q (Some s') = (Some s'', told)"
  shows "owns_count p \<and> session_value s' (ref_id p) = Some (Pickle5 False, d) \<and> session_value s'' (ref_id p) = None"
proof -
  have "put_value py manager_hook (Some d) s = (s', Inr p)"
    using assms(3) by (auto simp: py_put_def split: prod.splits)
  note k = put_value_seals [OF assms(1,2) this]
  note o = unpickled_ref_owns [OF assms(5)]
  have "session_value s'' (ref_id q) = None"
    using drop_last_count [OF _ _ _ assms(6), of r] k o dec_fresh_owned [OF assms(4)]
    by (simp add: sealed_session_def)
  then show ?thesis using k o by (simp add: sealed_session_def)
qed

theorem unpickled_ref_frees_early_witness:
  "\<exists>s p q s' told. py_put example_env manager_hook (Some [7, 9]) (Some example_session) = (Some s, Inr p) \<and>
     unpickle_ref (reduce_ref p) = (Inr q :: (bytes PyErr, PyObjectRef) result) \<and>
     drop_ref q (Some s) = (Some s', told) \<and> owns_count p \<and>
     session_value s (ref_id p) = Some (Pickle5 False, [7, 9]) \<and> session_value s' (ref_id p) = None"
proof -
  obtain s p where p: "py_put example_env manager_hook (Some [7, 9]) (Some example_session) = (Some s, Inr p)"
    "ref_owner_node_id (ref_inner p) = None" "ses_gcs s = None"
    by (rule example_put)
  have d: "rust_slice [7, 9]" by (simp add: rust_slice_def)
  have n: "hm_get (cw_refs (ses_worker example_session)) (ref_id p) = None"
    by (simp add: example_session_def new_local_def CoreWorker_new_def RefCounter_new_def)
  obtain q where q: "unpickle_ref (reduce_ref p) = (Inr q :: (bytes PyErr, PyObjectRef) result)"
    using p(2) by (simp add: unpickle_ref_def reduce_ref_def PyObjectRef_new_def)
  obtain s' told where dr: "drop_ref q (Some s) = (Some s', told)"
    using unpickled_ref_owns [OF q]
    by (cases "on_worker (dec_local_ref (ref_id p)) s") (simp add: drop_ref_def)
  from unpickled_ref_frees_early [OF example_session_ok d p(1) n q dr] p(1) q dr show ?thesis by blast
qed

end
