(* ===== verification/Dispatcher.thy ===== *)
theory Dispatcher
imports Task_Manager "HOL-Library.Multiset"
begin

text \<open>
  The driver's dispatcher, \<open>rayd-py/src/dispatcher.rs\<close>, with its framing (\<open>wire.rs\<close>) and the entry points that
  submit tasks to it.  A handler thread is a state machine over what it receives from its worker process;
  threads interleave at these steps.  Pickling is Python's: the parser of completion frames is an argument
  (\<open>loads\<close>), and so is the frame that is built for a job.
\<close>

section \<open>Framing\<close>

definition MAX_FRAME_BYTES :: nat where
  "MAX_FRAME_BYTES = 64 * 1024 * 1024"

datatype WireError = FrameTooLarge nat | UnexpectedEof

definition dispatch_send_frame :: "bytes \<Rightarrow> (WireError, bytes) result" where
  "dispatch_send_frame body =
     (case u32_try_from (length body) of
        None \<Rightarrow> Inl (FrameTooLarge (length body))
      | Some len \<Rightarrow> Inr (u32_to_le_bytes len @ body))"

text \<open>The bytes that arrive until the peer closes; the result carries what is left.\<close>

definition dispatch_recv_frame :: "bytes \<Rightarrow> (WireError, (bytes \<times> bytes) option) result" where
  "dispatch_recv_frame input =
     (if length input < 4 then Inr None
      else
        (let len = unat (u32_from_le_bytes (take 4 input)) in
         if MAX_FRAME_BYTES < len then Inl (FrameTooLarge len)
         else if length (drop 4 input) < len then Inl UnexpectedEof
         else Inr (Some (take len (drop 4 input), drop len (drop 4 input)))))"

section \<open>Completion frames\<close>

text \<open>A key of an unpickled dict: missing, of another type than asked for, or present.\<close>

datatype 'a field = Missing | WrongType | Present 'a

record ReturnEntry =
  ret_object_id :: "bytes field"
  ret_metadata :: "bytes field"
  ret_data_size :: "u64 field"

record Completion =
  cmp_kind :: "bytes field"
  cmp_returns :: "ReturnEntry option list field"

datatype IngestError =
    ExtractError
  | ExpectedTaskComplete bytes
  | MissingKey bytes
  | WrongIdLength nat
  | CouldNotDecode MetadataDecodeError

definition get_key :: "bytes \<Rightarrow> 'a field \<Rightarrow> (IngestError, 'a) result" where
  "get_key name f = (case f of Missing \<Rightarrow> Inl (MissingKey name) | WrongType \<Rightarrow> Inl ExtractError | Present v \<Rightarrow> Inr v)"

record DriverMetrics =
  tasks_completed_total :: nat
  tasks_failed_total :: nat

definition bump_task_metrics :: "Metadata \<Rightarrow> DriverMetrics \<Rightarrow> DriverMetrics" where
  "bump_task_metrics md ms =
     (if is_error md then ms\<lparr>tasks_failed_total := tasks_failed_total ms + 1\<rparr>
      else ms\<lparr>tasks_completed_total := tasks_completed_total ms + 1\<rparr>)"

definition ingest_entry ::
  "ReturnEntry \<Rightarrow> MemoryStore \<times> DriverMetrics option \<Rightarrow> (IngestError, MemoryStore \<times> DriverMetrics option) result" where
  "ingest_entry e st =
     (case get_key (ascii ''object_id'') (ret_object_id e) of
        Inl err \<Rightarrow> Inl err
      | Inr id_bytes \<Rightarrow>
          (case get_key (ascii ''metadata'') (ret_metadata e) of
             Inl err \<Rightarrow> Inl err
           | Inr md_bytes \<Rightarrow>
               (case get_key (ascii ''data_size'') (ret_data_size e) of
                  Inl err \<Rightarrow> Inl err
                | Inr n \<Rightarrow>
                    if length id_bytes \<noteq> ObjectId_SIZE then Inl (WrongIdLength (length id_bytes))
                    else
                      (case decode md_bytes of
                         Inl err \<Rightarrow> Inl (CouldNotDecode err)
                       | Inr md \<Rightarrow>
                           Inr (put_plasma (ObjectId id_bytes) \<lparr>idx_metadata = md, idx_data_size = n\<rparr> (fst st),
                                map_option (bump_task_metrics md) (snd st))))))"

text \<open>The entries before a bad one stay in the store.\<close>

fun ingest_returns ::
  "ReturnEntry option list \<Rightarrow> MemoryStore \<times> DriverMetrics option \<Rightarrow>
     (MemoryStore \<times> DriverMetrics option) \<times> IngestError option" where
  "ingest_returns [] st = (st, None)"
| "ingest_returns (None # es) st = (st, Some ExtractError)"
| "ingest_returns (Some e # es) st =
     (case ingest_entry e st of
        Inl err \<Rightarrow> (st, Some err)
      | Inr st' \<Rightarrow> ingest_returns es st')"

datatype IngestOutcome = Ingested | IngestFailed IngestError | IngestPanicked

definition handle_completion ::
  "(bytes \<Rightarrow> Completion option) \<Rightarrow> bytes \<Rightarrow> MemoryStore \<times> DriverMetrics option \<Rightarrow>
     (MemoryStore \<times> DriverMetrics option) \<times> IngestOutcome" where
  "handle_completion loads frame st =
     (case loads frame of
        None \<Rightarrow> (st, IngestFailed ExtractError)
      | Some dict \<Rightarrow>
          (case cmp_kind dict of
             Missing \<Rightarrow> (st, IngestPanicked)
           | WrongType \<Rightarrow> (st, IngestFailed ExtractError)
           | Present kind \<Rightarrow>
               if kind \<noteq> ascii ''task_complete'' then (st, IngestFailed (ExpectedTaskComplete kind))
               else
                 (case get_key (ascii ''returns'') (cmp_returns dict) of
                    Inl err \<Rightarrow> (st, IngestFailed err)
                  | Inr rets \<Rightarrow>
                      (case ingest_returns rets st of
                         (st', None) \<Rightarrow> (st', Ingested)
                       | (st', Some err) \<Rightarrow> (st', IngestFailed err)))))"

section \<open>State\<close>

datatype ExitReason = CleanExit | NoGreeting | SendFailed | RecvFailed | Disconnected | Panicked

datatype Handler =
    Greeting
  | Fetching
  | Sending DispatchJob
  | Awaiting DispatchJob
  | Exited ExitReason

text \<open>
  \<open>submitting\<close> holds the jobs of callers between the check of the flag and the push.  The last four fields are not in the code: which
  jobs were taken on, finished or dropped, and whether a push came after the shutdown.
\<close>

record Dispatcher =
  queue :: "DispatchJob list"
  shutdown_flag :: bool
  handlers :: "Handler list"
  store :: "MemoryStore \<times> DriverMetrics option"
  tasks :: "TaskManager option"
  registered :: nat
  submitting :: "DispatchJob list"
  accepted :: "DispatchJob list"
  finished :: "DispatchJob list"
  lost :: "DispatchJob list"
  late_push :: bool

definition Dispatcher_start :: "MemoryStore \<times> DriverMetrics option \<Rightarrow> TaskManager option \<Rightarrow> Dispatcher" where
  "Dispatcher_start st tm =
     \<lparr>queue = [], shutdown_flag = False, handlers = [], store = st, tasks = tm, registered = 0,
      submitting = [], accepted = [], finished = [], lost = [], late_push = False\<rparr>"

section \<open>Callers\<close>

text \<open>\<open>submit\<close> loads the flag first and pushes under the queue's lock afterwards.\<close>

definition submit_check :: "DispatchJob \<Rightarrow> Dispatcher \<Rightarrow> Dispatcher" where
  "submit_check job d =
     (if shutdown_flag d then d else d\<lparr>submitting := submitting d @ [job], accepted := accepted d @ [job]\<rparr>)"

definition submit_push :: "DispatchJob \<Rightarrow> Dispatcher \<Rightarrow> Dispatcher" where
  "submit_push job d =
     d\<lparr>submitting := remove1 job (submitting d), queue := queue d @ [job],
       late_push := (late_push d \<or> shutdown_flag d)\<rparr>"

definition pending :: "Dispatcher \<Rightarrow> nat" where
  "pending d = length (queue d)"

definition submit_task :: "ObjectId list \<Rightarrow> DispatchJob \<Rightarrow> Dispatcher \<Rightarrow> Dispatcher" where
  "submit_task outputs job d =
     submit_check job
       (d\<lparr>tasks := map_option (record_task outputs (job_task_id job) (job_num_returns job) (job_callable_blob job)
            (job_args_blob job) (job_kwargs_blob job)) (tasks d)\<rparr>)"

definition try_resubmit_for_lineage :: "ObjectId \<Rightarrow> Dispatcher \<Rightarrow> Dispatcher \<times> bool" where
  "try_resubmit_for_lineage oid d =
     (case tasks d of
        None \<Rightarrow> (d, False)
      | Some tm \<Rightarrow>
          (case try_resubmit oid tm of
             (tm', Some job) \<Rightarrow> (submit_check job (d\<lparr>tasks := Some tm'\<rparr>), True)
           | (tm', None) \<Rightarrow> (d, False)))"

definition shutdown_signal :: "Dispatcher \<Rightarrow> Dispatcher" where
  "shutdown_signal d = d\<lparr>shutdown_flag := True\<rparr>"

definition accept_connection :: "Dispatcher \<Rightarrow> Dispatcher" where
  "accept_connection d = (if shutdown_flag d then d else d\<lparr>handlers := handlers d @ [Greeting]\<rparr>)"

section \<open>Handler threads\<close>

definition set_handler :: "nat \<Rightarrow> Handler \<Rightarrow> Dispatcher \<Rightarrow> Dispatcher" where
  "set_handler i h d = d\<lparr>handlers := (handlers d)[i := h]\<rparr>"

text \<open>\<open>None\<close>: the thread waits for the queue.\<close>

definition next_job :: "nat \<Rightarrow> Dispatcher \<Rightarrow> Dispatcher option" where
  "next_job i d =
     (case queue d of
        job # rest \<Rightarrow> Some (set_handler i (Sending job) (d\<lparr>queue := rest\<rparr>))
      | [] \<Rightarrow> if shutdown_flag d then Some (set_handler i (Exited CleanExit) d) else None)"

text \<open>What a handler observes: the frame that was built for its job and whether writing it succeeded, or the next frame.\<close>

datatype HandlerInput =
    Proceed
  | BuildFailed
  | Built bytes bool
  | GotFrame bytes
  | GotEof
  | GotIoError

definition greet :: "nat \<Rightarrow> HandlerInput \<Rightarrow> Dispatcher \<Rightarrow> Dispatcher option" where
  "greet i inp d =
     (case inp of
        GotFrame _ \<Rightarrow> Some (set_handler i Fetching (d\<lparr>registered := registered d + 1\<rparr>))
      | GotEof \<Rightarrow> Some (set_handler i (Exited NoGreeting) d)
      | GotIoError \<Rightarrow> Some (set_handler i (Exited RecvFailed) d)
      | _ \<Rightarrow> None)"

definition send_job :: "nat \<Rightarrow> DispatchJob \<Rightarrow> HandlerInput \<Rightarrow> Dispatcher \<Rightarrow> Dispatcher option" where
  "send_job i job inp d =
     (case inp of
        BuildFailed \<Rightarrow> Some (set_handler i Fetching (d\<lparr>lost := lost d @ [job]\<rparr>))
      | Built frame written \<Rightarrow>
          (case dispatch_send_frame frame of
             Inr _ \<Rightarrow>
               if written then Some (set_handler i (Awaiting job) d)
               else Some (set_handler i (Exited SendFailed) (d\<lparr>queue := job # queue d\<rparr>))
           | Inl _ \<Rightarrow> Some (set_handler i (Exited SendFailed) (d\<lparr>queue := job # queue d\<rparr>)))
      | _ \<Rightarrow> None)"

definition await_completion ::
  "(bytes \<Rightarrow> Completion option) \<Rightarrow> nat \<Rightarrow> DispatchJob \<Rightarrow> HandlerInput \<Rightarrow> Dispatcher \<Rightarrow> Dispatcher option" where
  "await_completion loads i job inp d =
     (case inp of
        GotIoError \<Rightarrow> Some (set_handler i (Exited RecvFailed) (d\<lparr>lost := lost d @ [job]\<rparr>))
      | GotEof \<Rightarrow> Some (set_handler i (Exited Disconnected) (d\<lparr>lost := lost d @ [job]\<rparr>))
      | GotFrame frame \<Rightarrow>
          (case handle_completion loads frame (store d) of
             (st, IngestPanicked) \<Rightarrow>
               Some (set_handler i (Exited Panicked) (d\<lparr>store := st, lost := lost d @ [job]\<rparr>))
           | (st, IngestFailed _) \<Rightarrow> Some (set_handler i Fetching (d\<lparr>store := st, lost := lost d @ [job]\<rparr>))
           | (st, Ingested) \<Rightarrow>
               Some (set_handler i Fetching
                 (d\<lparr>store := st, tasks := map_option (mark_completed (job_task_id job)) (tasks d),
                    finished := finished d @ [job]\<rparr>)))
      | _ \<Rightarrow> None)"

definition handle_connection ::
  "(bytes \<Rightarrow> Completion option) \<Rightarrow> nat \<Rightarrow> HandlerInput \<Rightarrow> Dispatcher \<Rightarrow> Dispatcher option" where
  "handle_connection loads i inp d =
     (if length (handlers d) \<le> i then None
      else
        (case handlers d ! i of
           Greeting \<Rightarrow> greet i inp d
         | Fetching \<Rightarrow> (case inp of Proceed \<Rightarrow> next_job i d | _ \<Rightarrow> None)
         | Sending job \<Rightarrow> send_job i job inp d
         | Awaiting job \<Rightarrow> await_completion loads i job inp d
         | Exited _ \<Rightarrow> None))"

datatype DispOp =
    OpTask "ObjectId list" DispatchJob
  | OpResubmit ObjectId
  | OpPush DispatchJob
  | OpConnect
  | OpSignal
  | OpThread nat HandlerInput

inductive disp_step :: "(bytes \<Rightarrow> Completion option) \<Rightarrow> DispOp \<Rightarrow> Dispatcher \<Rightarrow> Dispatcher \<Rightarrow> bool" for loads where
  task: "disp_step loads (OpTask outputs job) d (submit_task outputs job d)"
| resubmit: "disp_step loads (OpResubmit oid) d (fst (try_resubmit_for_lineage oid d))"
| push: "disp_step loads (OpPush job) d (submit_push job d)" if "job \<in> set (submitting d)"
| connect: "disp_step loads OpConnect d (accept_connection d)"
| signal: "disp_step loads OpSignal d (shutdown_signal d)"
| thread: "disp_step loads (OpThread i inp) d d'" if "handle_connection loads i inp d = Some d'"

inductive disp_run :: "(bytes \<Rightarrow> Completion option) \<Rightarrow> DispOp list \<Rightarrow> Dispatcher \<Rightarrow> Dispatcher \<Rightarrow> bool" for loads where
  none: "disp_run loads [] d d"
| more: "disp_run loads (ops @ [op]) d d''" if "disp_run loads ops d d'" and "disp_step loads op d' d''"

inductive_cases disp_step_elim: "disp_step loads op d d'"

section \<open>Every job is somewhere\<close>

definition held :: "Handler \<Rightarrow> DispatchJob list" where
  "held h = (case h of Sending job \<Rightarrow> [job] | Awaiting job \<Rightarrow> [job] | _ \<Rightarrow> [])"

lemma held_simps [simp]:
  "held Greeting = []" "held Fetching = []" "held (Sending j) = [j]" "held (Awaiting j) = [j]" "held (Exited r) = []"
  by (simp_all add: held_def)

definition held_jobs :: "Handler list \<Rightarrow> DispatchJob multiset" where
  "held_jobs hs = mset (concat (map held hs))"

definition conserved :: "Dispatcher \<Rightarrow> bool" where
  "conserved d \<longleftrightarrow>
     mset (accepted d) = mset (submitting d) + mset (queue d) + held_jobs (handlers d) + mset (finished d) + mset (lost d)"

lemma held_jobs_update:
  "i < length hs \<Longrightarrow> held_jobs (hs[i := h]) + mset (held (hs ! i)) = held_jobs hs + mset (held h)"
proof (induction hs arbitrary: i)
  case (Cons h0 hs)
  then show ?case by (cases i) (auto simp: held_jobs_def ac_simps)
qed simp

lemma held_jobs_append [simp]: "held_jobs (hs @ [Greeting]) = held_jobs hs"
  by (simp add: held_jobs_def)

lemma set_handler_simps [simp]:
  "queue (set_handler i h d) = queue d" "submitting (set_handler i h d) = submitting d"
  "accepted (set_handler i h d) = accepted d" "finished (set_handler i h d) = finished d"
  "lost (set_handler i h d) = lost d" "handlers (set_handler i h d) = (handlers d)[i := h]"
  "shutdown_flag (set_handler i h d) = shutdown_flag d" "late_push (set_handler i h d) = late_push d"
  "tasks (set_handler i h d) = tasks d" "store (set_handler i h d) = store d"
  by (simp_all add: set_handler_def)

lemma conserved_update:
  assumes "i < length (handlers d)" and "conserved d"
    and "accepted d' = accepted d" "submitting d' = submitting d" "handlers d' = (handlers d)[i := h]"
    and "mset (queue d') + mset (held h) + mset (finished d') + mset (lost d') =
      mset (queue d) + mset (held (handlers d ! i)) + mset (finished d) + mset (lost d)"
  shows "conserved d'"
proof -
  have upd: "held_jobs (handlers d') + mset (held (handlers d ! i)) = held_jobs (handlers d) + mset (held h)"
    using held_jobs_update [OF assms(1), of h] by (simp only: assms(5))
  have "count (mset (accepted d')) j = count (mset (submitting d') + mset (queue d') + held_jobs (handlers d')
      + mset (finished d') + mset (lost d')) j" for j
    using arg_cong [OF upd, of "\<lambda>M. count M j"] arg_cong [OF assms(6), of "\<lambda>M. count M j"]
      arg_cong [OF assms(2) [unfolded conserved_def], of "\<lambda>M. count M j"]
    unfolding assms(3,4) count_union by linarith
  then show ?thesis unfolding conserved_def by (rule multiset_eqI)
qed

lemma conserved_thread:
  assumes "conserved d" and step: "handle_connection loads i inp d = Some d'"
  shows "conserved d'"
proof -
  have i: "i < length (handlers d)" using step by (auto simp: handle_connection_def split: if_splits)
  note upd = conserved_update [OF i assms(1)]
  show ?thesis
  proof (cases "handlers d ! i")
    case Greeting
    then show ?thesis
      using step i by (auto simp: handle_connection_def greet_def split: HandlerInput.splits intro!: upd)
  next
    case Fetching
    then show ?thesis
      using step i
      by (auto simp: handle_connection_def next_job_def split: HandlerInput.splits list.splits if_splits intro!: upd)
  next
    case (Sending job)
    then show ?thesis
      using step i
      by (auto simp: handle_connection_def send_job_def split: HandlerInput.splits sum.splits if_splits intro!: upd)
  next
    case (Awaiting job)
    then show ?thesis
      using step i
      by (auto simp: handle_connection_def await_completion_def split: HandlerInput.splits prod.splits IngestOutcome.splits
          intro!: upd)
  next
    case (Exited r)
    then show ?thesis using step i by (simp add: handle_connection_def)
  qed
qed

lemma resubmit_cases:
  obtains "fst (try_resubmit_for_lineage oid d) = d"
  | tm tm' job where "tasks d = Some tm" "try_resubmit oid tm = (tm', Some job)"
      "fst (try_resubmit_for_lineage oid d) = submit_check job (d\<lparr>tasks := Some tm'\<rparr>)"
proof (cases "tasks d")
  case None
  then show ?thesis using that(1) by (simp add: try_resubmit_for_lineage_def)
next
  case (Some tm)
  obtain tm' j where "try_resubmit oid tm = (tm', j)" by fastforce
  then show ?thesis using that Some by (cases j) (simp_all add: try_resubmit_for_lineage_def)
qed

lemma conserved_check: "conserved d \<Longrightarrow> conserved (submit_check job d)"
  by (simp add: conserved_def submit_check_def)

lemma conserved_step: "disp_step loads op d d' \<Longrightarrow> conserved d \<Longrightarrow> conserved d'"
proof (induction rule: disp_step.induct)
  case (task outputs job d)
  then show ?case unfolding submit_task_def by (intro conserved_check) (simp add: conserved_def)
next
  case (resubmit oid d)
  have "conserved (d\<lparr>tasks := tm\<rparr>)" for tm using resubmit by (simp add: conserved_def)
  then show ?case
    using resubmit conserved_check by (cases rule: resubmit_cases [of oid d]) simp_all
next
  case (push job d)
  then have eq: "mset (submitting d) = {#job#} + mset (remove1 job (submitting d))" by simp
  show ?case
    using push(2) unfolding conserved_def eq
    by (simp add: submit_push_def add.commute add.left_commute del: mset_remove1)
next
  case (connect d)
  then show ?case by (simp add: conserved_def accept_connection_def)
next
  case (signal d)
  then show ?case by (simp add: conserved_def shutdown_signal_def)
next
  case (thread i inp d d')
  then show ?case using conserved_thread by blast
qed

lemma conserved_run: "disp_run loads ops d d' \<Longrightarrow> conserved d \<Longrightarrow> conserved d'"
  by (induction rule: disp_run.induct) (auto intro: conserved_step)

lemma conserved_start: "conserved (Dispatcher_start st tm)"
  by (simp add: conserved_def Dispatcher_start_def held_jobs_def)

section \<open>Shutdown\<close>

definition drain_inv :: "Dispatcher \<Rightarrow> bool" where
  "drain_inv d \<longleftrightarrow>
     late_push d \<or> Exited SendFailed \<in> set (handlers d) \<or> Exited CleanExit \<notin> set (handlers d) \<or>
     shutdown_flag d \<and> queue d = []"

text \<open>What a handler step does to the queue.\<close>

lemma thread_effect:
  assumes "handle_connection loads i inp d = Some d'"
  shows "i < length (handlers d) \<and> (\<forall>r. handlers d ! i \<noteq> Exited r) \<and>
    shutdown_flag d' = shutdown_flag d \<and> late_push d' = late_push d \<and> submitting d' = submitting d \<and>
    (\<exists>h. handlers d' = (handlers d)[i := h] \<and>
       (queue d = [] \<longrightarrow> queue d' = [] \<or> h = Exited SendFailed) \<and>
       (h = Exited CleanExit \<longrightarrow> shutdown_flag d \<and> queue d' = []))"
proof -
  have i: "i < length (handlers d)" using assms by (auto simp: handle_connection_def split: if_splits)
  show ?thesis
  proof (cases "handlers d ! i")
    case Greeting
    then show ?thesis
      using assms i by (auto simp: handle_connection_def greet_def split: HandlerInput.splits)
  next
    case Fetching
    then show ?thesis
      using assms i by (auto simp: handle_connection_def next_job_def split: HandlerInput.splits list.splits if_splits)
  next
    case (Sending job)
    then show ?thesis
      using assms i by (auto simp: handle_connection_def send_job_def split: HandlerInput.splits sum.splits if_splits)
  next
    case (Awaiting job)
    then show ?thesis
      using assms i
      by (auto simp: handle_connection_def await_completion_def split: HandlerInput.splits prod.splits IngestOutcome.splits)
  next
    case (Exited r)
    then show ?thesis using assms i by (simp add: handle_connection_def)
  qed
qed

lemma set_update_keep: "i < length hs \<Longrightarrow> x \<in> set hs \<Longrightarrow> hs ! i \<noteq> x \<Longrightarrow> x \<in> set (hs[i := h])"
  by (metis in_set_conv_nth length_list_update nth_list_update_neq)

lemma drain_inv_thread:
  assumes "handle_connection loads i inp d = Some d'" "drain_inv d"
  shows "drain_inv d'"
proof -
  obtain h where e: "i < length (handlers d)" "\<forall>r. handlers d ! i \<noteq> Exited r"
      "shutdown_flag d' = shutdown_flag d" "late_push d' = late_push d" "handlers d' = (handlers d)[i := h]"
      "queue d = [] \<longrightarrow> queue d' = [] \<or> h = Exited SendFailed" "h = Exited CleanExit \<longrightarrow> shutdown_flag d \<and> queue d' = []"
    using thread_effect [OF assms(1)] by blast
  have keep: "Exited r \<in> set (handlers d) \<Longrightarrow> Exited r \<in> set (handlers d')" for r
    unfolding e(5) using e(1,2) by (intro set_update_keep) auto
  have new: "Exited r \<in> set (handlers d') \<Longrightarrow> Exited r \<in> set (handlers d) \<or> h = Exited r" for r
    unfolding e(5) using set_update_subset_insert [of "handlers d" i h] by auto
  have h: "h \<in> set (handlers d')" unfolding e(5) using e(1) by (rule set_update_memI)
  show ?thesis
    using assms(2) keep [of SendFailed] new [of CleanExit] e(3,4,6,7) h unfolding drain_inv_def by auto
qed

lemma drain_inv_check: "drain_inv d \<Longrightarrow> drain_inv (submit_check job d)"
  by (auto simp: drain_inv_def submit_check_def)

lemma drain_inv_step: "disp_step loads op d d' \<Longrightarrow> drain_inv d \<Longrightarrow> drain_inv d'"
proof (induction rule: disp_step.induct)
  case (task outputs job d)
  then show ?case unfolding submit_task_def by (intro drain_inv_check) (simp add: drain_inv_def)
next
  case (resubmit oid d)
  have "drain_inv (d\<lparr>tasks := tm\<rparr>)" for tm using resubmit by (simp add: drain_inv_def)
  then show ?case using resubmit drain_inv_check by (cases rule: resubmit_cases [of oid d]) simp_all
next
  case (push job d)
  then show ?case by (auto simp: drain_inv_def submit_push_def)
next
  case (connect d)
  then show ?case by (auto simp: drain_inv_def accept_connection_def)
next
  case (signal d)
  then show ?case by (auto simp: drain_inv_def shutdown_signal_def)
next
  case (thread i inp d d')
  then show ?case using drain_inv_thread by blast
qed

lemma drain_inv_run: "disp_run loads ops d d' \<Longrightarrow> drain_inv d \<Longrightarrow> drain_inv d'"
  by (induction rule: disp_run.induct) (auto intro: drain_inv_step)

section \<open>A task whose worker is gone\<close>

text \<open>The records of the task say that it is under way, but nobody has its job.\<close>

definition uncompleted :: "TaskId \<Rightarrow> TaskManager \<Rightarrow> bool" where
  "uncompleted t tm \<longleftrightarrow> (\<forall>i r. hm_get tm i = Some r \<longrightarrow> rec_task_id r = t \<longrightarrow> \<not> was_completed r)"

definition records :: "TaskId \<Rightarrow> ObjectId \<Rightarrow> TaskManager \<Rightarrow> bool" where
  "records t oid tm \<longleftrightarrow> (\<exists>r. hm_get tm oid = Some r \<and> rec_task_id r = t)"

definition job_pool :: "Dispatcher \<Rightarrow> DispatchJob set" where
  "job_pool d = set (submitting d) \<union> set (queue d) \<union> set (concat (map held (handlers d)))"

definition stuck :: "TaskId \<Rightarrow> ObjectId \<Rightarrow> Dispatcher \<Rightarrow> bool" where
  "stuck t oid d \<longleftrightarrow>
     (\<exists>tm. tasks d = Some tm \<and> hm_wf tm \<and> uncompleted t tm \<and> records t oid tm) \<and>
     (\<forall>j \<in> job_pool d. job_task_id j \<noteq> t)"

lemma stuck_refused:
  assumes "stuck t oid d"
  shows "\<exists>tm. tasks d = Some tm \<and> lineage_status oid tm = NotYetCompleted \<and> try_resubmit oid tm = (tm, None)"
proof -
  obtain tm r where tm: "tasks d = Some tm" "uncompleted t tm" "hm_get tm oid = Some r" "rec_task_id r = t"
    using assms unfolding stuck_def records_def by blast
  then have "\<not> was_completed r" by (simp add: uncompleted_def)
  with tm show ?thesis by (simp add: lineage_status_def try_resubmit_def)
qed

lemma held_update:
  "i < length hs \<Longrightarrow> set (concat (map held (hs[i := h]))) \<subseteq> set (concat (map held hs)) \<union> set (held h)"
  using set_update_subset_insert [of hs i h] by auto

lemma held_nth: "i < length hs \<Longrightarrow> set (held (hs ! i)) \<subseteq> set (concat (map held hs))"
  using nth_mem by fastforce

lemma thread_jobs:
  assumes "handle_connection loads i inp d = Some d'"
  shows "i < length (handlers d) \<and> submitting d' = submitting d \<and>
    (\<exists>h. handlers d' = (handlers d)[i := h] \<and>
       set (queue d') \<union> set (held h) \<subseteq> set (queue d) \<union> set (held (handlers d ! i))) \<and>
    (tasks d' = tasks d \<or>
     (\<exists>j \<in> set (held (handlers d ! i)). tasks d' = map_option (mark_completed (job_task_id j)) (tasks d)))"
proof -
  have i: "i < length (handlers d)" using assms by (auto simp: handle_connection_def split: if_splits)
  show ?thesis
  proof (cases "handlers d ! i")
    case Greeting
    then show ?thesis
      using assms i by (auto simp: handle_connection_def greet_def split: HandlerInput.splits)
  next
    case Fetching
    then show ?thesis
      using assms i by (auto simp: handle_connection_def next_job_def split: HandlerInput.splits list.splits if_splits)
  next
    case (Sending job)
    then show ?thesis
      using assms i by (auto simp: handle_connection_def send_job_def split: HandlerInput.splits sum.splits if_splits)
  next
    case (Awaiting job)
    then show ?thesis
      using assms i
      by (auto simp: handle_connection_def await_completion_def split: HandlerInput.splits prod.splits IngestOutcome.splits)
  next
    case (Exited r)
    then show ?thesis using assms i by (simp add: handle_connection_def)
  qed
qed

lemma stuck_thread:
  assumes "handle_connection loads i inp d = Some d'" "stuck t oid d"
  shows "stuck t oid d'"
proof -
  obtain h where e: "i < length (handlers d)" "submitting d' = submitting d" "handlers d' = (handlers d)[i := h]"
      "set (queue d') \<union> set (held h) \<subseteq> set (queue d) \<union> set (held (handlers d ! i))"
    and t: "tasks d' = tasks d \<or>
      (\<exists>j \<in> set (held (handlers d ! i)). tasks d' = map_option (mark_completed (job_task_id j)) (tasks d))"
    using thread_jobs [OF assms(1)] by blast
  have "job_pool d' \<subseteq> job_pool d"
    unfolding job_pool_def e(2,3) using held_update [OF e(1), of h] held_nth [OF e(1)] e(4) by blast
  moreover obtain tm where tm: "tasks d = Some tm" "hm_wf tm" "uncompleted t tm" "records t oid tm"
    using assms(2) unfolding stuck_def by blast
  have "uncompleted t (mark_completed t' tm) \<and> records t oid (mark_completed t' tm)" if "t' \<noteq> t" for t'
    using tm(3,4) that unfolding uncompleted_def records_def get_mark_completed by (auto simp: map_option_eq_Some) 
  moreover have "job_task_id j \<noteq> t" if "j \<in> set (held (handlers d ! i))" for j
    using assms(2) that held_nth [OF e(1)] unfolding stuck_def job_pool_def by blast
  ultimately show ?thesis
    using t tm assms(2) wf_mark_completed [OF tm(2)] unfolding stuck_def by (auto 0 3)
qed

definition stuck_table :: "TaskId \<Rightarrow> ObjectId \<Rightarrow> TaskManager \<Rightarrow> bool" where
  "stuck_table t oid tm \<longleftrightarrow> hm_wf tm \<and> uncompleted t tm \<and> records t oid tm"

lemma stuck_iff:
  "stuck t oid d \<longleftrightarrow> (\<exists>tm. tasks d = Some tm \<and> stuck_table t oid tm) \<and> (\<forall>j \<in> job_pool d. job_task_id j \<noteq> t)"
  by (simp add: stuck_def stuck_table_def)

lemma stuck_check:
  "stuck t oid d \<Longrightarrow> job_task_id job \<noteq> t \<Longrightarrow> stuck t oid (submit_check job d)"
  by (auto simp: stuck_def submit_check_def job_pool_def)

lemma stuck_tasks: "stuck t oid d \<Longrightarrow> stuck_table t oid tm \<Longrightarrow> stuck t oid (d\<lparr>tasks := Some tm\<rparr>)"
  by (simp add: stuck_iff job_pool_def)

lemma stuck_table_record:
  assumes "stuck_table t oid tm" "t' \<noteq> t" "oid \<notin> set outputs"
  shows "stuck_table t oid (record_task outputs t' n c a k tm)"
  using assms unfolding stuck_table_def uncompleted_def records_def
  by (auto simp: wf_record_task get_record_task split: if_splits)

lemma stuck_table_resubmit:
  assumes "stuck_table t oid tm" "try_resubmit oid' tm = (tm', Some job)"
  shows "stuck_table t oid tm' \<and> job_task_id job \<noteq> t"
proof -
  have wf: "hm_wf tm" and un: "uncompleted t tm" and re: "records t oid tm"
    using assms(1) by (simp_all add: stuck_table_def)
  show ?thesis
  proof (cases rule: try_resubmit_cases [OF wf, of oid'])
    case 1
    then show ?thesis using assms(2) by simp
  next
    case (2 r m')
    then have eq: "m' = tm'" "job = job_of r" using assms(2) by simp_all
    have "rec_task_id r \<noteq> t" using un 2(1,2) unfolding uncompleted_def by blast
    moreover have "\<not> was_completed q" if q: "hm_get tm' i = Some q" "rec_task_id q = t" for i q
    proof -
      obtain a where "hm_get tm i = Some a" "q = (if rec_task_id a = rec_task_id r then spent a else a)"
        using q(1) unfolding eq(1) [symmetric] 2(7) map_option_eq_Some by blast
      then show ?thesis using un q(2) unfolding uncompleted_def by (auto split: if_splits)
    qed
    moreover have "records t oid tm'"
    proof -
      obtain a where "hm_get tm oid = Some a" "rec_task_id a = t" using re unfolding records_def by blast
      then show ?thesis unfolding records_def eq(1) [symmetric] 2(7) by simp
    qed
    ultimately show ?thesis
      using 2(4) eq unfolding stuck_table_def uncompleted_def by (simp add: job_of_def)
  qed
qed

lemma stuck_step:
  assumes "disp_step loads op d d'" "stuck t oid d"
    and "\<And>outputs job. op = OpTask outputs job \<Longrightarrow> job_task_id job \<noteq> t \<and> oid \<notin> set outputs"
  shows "stuck t oid d'"
  using assms
proof (induction rule: disp_step.induct)
  case (task outputs job d)
  then obtain tm where tm: "tasks d = Some tm" "stuck_table t oid tm" by (auto simp: stuck_iff)
  have "stuck t oid (d\<lparr>tasks := Some (record_task outputs (job_task_id job) (job_num_returns job)
      (job_callable_blob job) (job_args_blob job) (job_kwargs_blob job) tm)\<rparr>)"
    using task stuck_table_record [OF tm(2)] by (intro stuck_tasks) simp_all
  then show ?case using task tm by (simp add: submit_task_def stuck_check)
next
  case (resubmit oid' d)
  show ?case
  proof (cases rule: resubmit_cases [of oid' d])
    case 1
    then show ?thesis using resubmit by simp
  next
    case (2 tm tm' job)
    then have "stuck_table t oid tm" using resubmit by (auto simp: stuck_iff)
    then have "stuck_table t oid tm' \<and> job_task_id job \<noteq> t" using stuck_table_resubmit 2(2) by blast
    then show ?thesis using 2(3) resubmit stuck_tasks stuck_check by simp
  qed
next
  case (push job d)
  moreover have "job_pool (submit_push job d) \<subseteq> job_pool d"
    using push(1) set_remove1_subset by (fastforce simp: job_pool_def submit_push_def)
  ultimately show ?case unfolding stuck_def by (auto simp: submit_push_def)
next
  case (connect d)
  then show ?case by (simp add: stuck_def accept_connection_def job_pool_def)
next
  case (signal d)
  then show ?case by (simp add: stuck_def shutdown_signal_def job_pool_def)
next
  case (thread i inp d d')
  then show ?case using stuck_thread by blast
qed

lemma stuck_run:
  "disp_run loads ops d d' \<Longrightarrow> stuck t oid d \<Longrightarrow>
     (\<forall>outputs job. OpTask outputs job \<in> set ops \<longrightarrow> job_task_id job \<noteq> t \<and> oid \<notin> set outputs) \<Longrightarrow> stuck t oid d'"
proof (induction rule: disp_run.induct)
  case (more ops d d' op d'')
  have "stuck t oid d'" using more.IH more.prems by simp
  then show ?case using stuck_step [OF more.hyps(2)] more.prems(2) by simp
qed simp

section \<open>Properties\<close>

definition demo_job :: DispatchJob where
  "demo_job = \<lparr>job_task_id = TaskId [1], job_num_returns = 1, job_callable_blob = [], job_args_blob = [],
     job_kwargs_blob = None\<rparr>"

definition demo_lineage :: TaskManager where
  "demo_lineage = record_task [ObjectId [1]] (TaskId [1]) 1 [] [] None TaskManager_new"

definition demo_awaiting :: Dispatcher where
  "demo_awaiting = (Dispatcher_start (MemoryStore_new 0, None) (Some demo_lineage))
     \<lparr>handlers := [Awaiting demo_job], accepted := [demo_job]\<rparr>"





text \<open>  A task whose worker disconnects while running it is stuck for good.  The handler drops the job and does not touch
  the lineage records, so these keep saying that the task is under way: in every later state - unless the
  same task id is submitted anew - the lineage of its outputs is \<open>NotYetCompleted\<close>, a resubmission is refused,
  and neither the queue nor a handler has the job.
\<close>

lemma crashed_task_is_stuck:
  assumes "k < length (handlers d)" and "handlers d ! k = Awaiting job" and "tasks d = Some tm" and "hm_wf tm"
    and "uncompleted (job_task_id job) tm" and "records (job_task_id job) oid tm"
    and "\<forall>j \<in> job_pool (set_handler k (Exited Disconnected) d). job_task_id j \<noteq> job_task_id job"
    and "handle_connection loads k GotEof d = Some d1" and "disp_run loads ops d1 d2"
    and "\<forall>outputs job'. OpTask outputs job' \<in> set ops \<longrightarrow> job_task_id job' \<noteq> job_task_id job \<and> oid \<notin> set outputs"
  shows "(\<exists>tm2. tasks d2 = Some tm2 \<and> lineage_status oid tm2 = NotYetCompleted \<and> try_resubmit oid tm2 = (tm2, None)) \<and>
    (\<forall>j \<in> set (queue d2) \<union> set (concat (map held (handlers d2))). job_task_id j \<noteq> job_task_id job)"
proof -
  have d1: "d1 = set_handler k (Exited Disconnected) (d\<lparr>lost := lost d @ [job]\<rparr>)"
    using assms(1,2,8) by (simp add: handle_connection_def await_completion_def)
  have "job_pool d1 = job_pool (set_handler k (Exited Disconnected) d)" by (simp add: d1 job_pool_def)
  then have "stuck (job_task_id job) oid d1"
    using assms(3-7) by (simp add: stuck_def d1)
  then have "stuck (job_task_id job) oid d2" using stuck_run [OF assms(9)] assms(10) by blast
  then show ?thesis using stuck_refused by (auto simp: stuck_def job_pool_def)
qed

lemma crashed_task_is_stuck_witness:
  "\<exists>tm2. tasks (set_handler 0 (Exited Disconnected) (demo_awaiting\<lparr>lost := [demo_job]\<rparr>)) = Some tm2 \<and>
     lineage_status (ObjectId [1]) tm2 = NotYetCompleted"
proof -
  let ?d1 = "set_handler 0 (Exited Disconnected) (demo_awaiting\<lparr>lost := [demo_job]\<rparr>)"
  have "handle_connection (\<lambda>_. None) 0 GotEof demo_awaiting = Some ?d1"
    by (simp add: handle_connection_def await_completion_def demo_awaiting_def Dispatcher_start_def)
  from crashed_task_is_stuck [OF _ _ _ _ _ _ _ this disp_run.none, of demo_job demo_lineage "ObjectId [1]"]
  show ?thesis
    by (auto simp: demo_awaiting_def Dispatcher_start_def demo_job_def demo_lineage_def uncompleted_def records_def
        get_record_task wf_record_task TaskManager_new_def job_pool_def)
qed

end
