(* ===== verification/Task_Worker.thy ===== *)
theory Task_Worker
imports Driver_Session Dispatcher
begin

text \<open>
  The worker process, \<open>python/rayd/_worker.py\<close>: framing, the encodings it shares with \<open>rayd-core\<close>, the
  execution of a task and the loop around it.  What the user's code does is a parameter: \<open>run\<close> takes the
  pickled callable and arguments to the exception or the value, and is \<open>None\<close> when unpickling raises.  A value is known by its
  pickle (\<open>None\<close> when pickling it raises), by the pickles of its items when it is a tuple, and by the name of its
  type; \<open>type_error\<close> is the exception of the given message.  An exception that leaves \<open>_execute_task\<close> is a
  \<open>WorkerCrash\<close>.
\<close>

section \<open>Framing\<close>

datatype 'v WorkerCrash =
    CrashKeyError
  | CrashTypeError bytes
  | CrashStruct
  | CrashLoads
  | CrashPickle
  | CrashSeal "'v PyErr"
  | CrashFrameTooLarge nat
  | CrashNotADict
  | CrashConnection

definition worker_send_frame :: "bytes \<Rightarrow> ('v WorkerCrash, bytes) result" where
  "worker_send_frame body =
     (if MAX_FRAME_BYTES < length body then Inl (CrashFrameTooLarge (length body))
      else Inr (u32_to_le_bytes (of_nat (length body)) @ body))"

text \<open>The answers of \<open>recv\<close>, each at most as long as asked for; an empty one is the end of the stream.\<close>

fun recv_exact :: "nat \<Rightarrow> bytes list \<Rightarrow> bytes option \<times> bytes list" where
  "recv_exact n [] = (if n = 0 then (Some [], []) else (None, []))"
| "recv_exact n (chunk # cs) =
     (if n = 0 then (Some [], chunk # cs)
      else if chunk = [] then (None, cs)
      else
        (case recv_exact (n - length chunk) cs of
           (None, rest) \<Rightarrow> (None, rest)
         | (Some bs, rest) \<Rightarrow> (Some (chunk @ bs), rest)))"

definition worker_recv_frame :: "bytes list \<Rightarrow> ('v WorkerCrash, bytes option) result \<times> bytes list" where
  "worker_recv_frame cs =
     (case recv_exact 4 cs of
        (None, rest) \<Rightarrow> (Inr None, rest)
      | (Some header, rest) \<Rightarrow>
          (let len = unat (u32_from_le_bytes header) in
           if MAX_FRAME_BYTES < len then (Inl (CrashFrameTooLarge len), rest)
           else
             (case recv_exact len rest of
                (None, rest') \<Rightarrow> (Inl CrashConnection, rest')
              | (Some body, rest') \<Rightarrow> (Inr (Some body), rest'))))"

section \<open>Encodings\<close>

definition struct_pack_I :: "nat \<Rightarrow> bytes option" where
  "struct_pack_I n = (if n < 2 ^ 32 then Some (u32_to_le_bytes (of_nat n)) else None)"

record PyExc =
  exc_repr :: bytes
  exc_traceback :: bytes
  exc_pickled :: "bytes option"

text \<open>\<open>None\<close>: packing a length raises.\<close>

definition build_error_payload :: "PyExc \<Rightarrow> bytes option" where
  "build_error_payload exc =
     (case struct_pack_I (length (exc_repr exc)) of
        None \<Rightarrow> None
      | Some a \<Rightarrow>
          (case struct_pack_I (length (exc_traceback exc)) of
             None \<Rightarrow> None
           | Some b \<Rightarrow>
               (case exc_pickled exc of
                  None \<Rightarrow> Some (a @ exc_repr exc @ [1] @ b @ exc_traceback exc @ u16_to_le_bytes 0 @ [0])
                | Some blob \<Rightarrow>
                    (case struct_pack_I (length blob) of
                       None \<Rightarrow> None
                     | Some c \<Rightarrow>
                         Some (a @ exc_repr exc @ [1] @ b @ exc_traceback exc @ u16_to_le_bytes 0 @ [1] @ c @ blob)))))"

definition encode_pickle5_metadata :: "bool \<Rightarrow> bytes" where
  "encode_pickle5_metadata has_nested_refs = [1, if has_nested_refs then 1 else 0]"

definition encode_error_metadata :: "byte \<Rightarrow> u16 \<Rightarrow> bytes" where
  "encode_error_metadata category code = [16, category] @ u16_to_le_bytes code"

section \<open>Tasks\<close>

record DispatchMessage =
  msg_task_id :: "bytes field"
  msg_num_returns :: "nat field"
  msg_callable :: "bytes field"
  msg_args :: "bytes field"
  msg_kwargs :: "bytes field"

record PyValue =
  val_pickled :: "bytes option"
  val_items :: "bytes option list option"
  val_type :: bytes

datatype PyCall = PyRaised PyExc | PyReturned PyValue

definition return_entry :: "bytes \<Rightarrow> bytes \<Rightarrow> bytes \<Rightarrow> ReturnEntry" where
  "return_entry oid meta data =
     \<lparr>ret_object_id = Present oid, ret_metadata = Present meta, ret_data_size = Present (of_nat (length data))\<rparr>"

definition task_complete :: "ReturnEntry list \<Rightarrow> Completion" where
  "task_complete rets =
     \<lparr>cmp_kind = Present (ascii ''task_complete''), cmp_returns = Present (map Some rets)\<rparr>"

definition store_via_native_seal ::
  "'v PyEnv \<Rightarrow> 'r hook \<Rightarrow> bytes \<Rightarrow> bytes \<Rightarrow> bytes \<Rightarrow> 'r Session option \<Rightarrow>
     'r Session option \<times> ('v WorkerCrash, unit) result" where
  "store_via_native_seal py h oid meta data g =
     (case worker_seal py h oid meta data g of
        (g', Inl e) \<Rightarrow> (g', Inl (CrashSeal e))
      | (g', Inr _) \<Rightarrow> (g', Inr ()))"

text \<open>Storing a list of results; each has its pickle, or none when pickling it raises.\<close>

fun store_results ::
  "'v PyEnv \<Rightarrow> 'r hook \<Rightarrow> bytes \<Rightarrow> (bytes \<times> bytes option) list \<Rightarrow> 'r Session option \<Rightarrow>
     'r Session option \<times> ('v WorkerCrash, ReturnEntry list) result" where
  "store_results py h meta [] g = (g, Inr [])"
| "store_results py h meta ((oid, None) # rest) g = (g, Inl CrashPickle)"
| "store_results py h meta ((oid, Some data) # rest) g =
     (case store_via_native_seal py h oid meta data g of
        (g', Inl e) \<Rightarrow> (g', Inl e)
      | (g', Inr _) \<Rightarrow>
          (case store_results py h meta rest g' of
             (g'', Inl e) \<Rightarrow> (g'', Inl e)
           | (g'', Inr rets) \<Rightarrow> (g'', Inr (return_entry oid meta data # rets))))"

definition spread_error ::
  "'v PyEnv \<Rightarrow> 'r hook \<Rightarrow> bytes list \<Rightarrow> PyExc \<Rightarrow> 'r Session option \<Rightarrow>
     'r Session option \<times> ('v WorkerCrash, ReturnEntry list) result" where
  "spread_error py h oids exc g =
     (case build_error_payload exc of
        None \<Rightarrow> (g, Inl CrashStruct)
      | Some data \<Rightarrow> store_results py h (encode_error_metadata 1 0) (map (\<lambda>oid. (oid, Some data)) oids) g)"

definition wrong_shape :: "nat \<Rightarrow> bytes \<Rightarrow> bytes" where
  "wrong_shape n ty =
     ascii ''task with num_returns='' @ dec_digits n
     @ ascii '' must return a tuple of that length, got '' @ ty"

definition store_value ::
  "'v PyEnv \<Rightarrow> (bytes \<Rightarrow> PyExc) \<Rightarrow> 'r hook \<Rightarrow> bytes list \<Rightarrow> PyValue \<Rightarrow> 'r Session option \<Rightarrow>
     'r Session option \<times> ('v WorkerCrash, ReturnEntry list) result" where
  "store_value py type_error h oids v g =
     (let n = length oids; meta = encode_pickle5_metadata False
      in if n = 1 then store_results py h meta [(oids ! 0, val_pickled v)] g
         else
           (case val_items v of
              None \<Rightarrow> spread_error py h oids (type_error (wrong_shape n (val_type v))) g
            | Some items \<Rightarrow>
                if length items \<noteq> n then spread_error py h oids (type_error (wrong_shape n (val_type v))) g
                else store_results py h meta (zip oids items) g))"

text \<open>Packing the index raises beyond 32 bits.\<close>

definition return_ids :: "bytes \<Rightarrow> nat \<Rightarrow> bytes list option" where
  "return_ids task n =
     (if n \<le> 2 ^ 32 then Some (map (\<lambda>i. task @ u32_to_le_bytes (of_nat i)) [0..<n]) else None)"

definition bytes_field :: "bytes field \<Rightarrow> bytes \<Rightarrow> ('v WorkerCrash, bytes) result" where
  "bytes_field f msg = (case f of Missing \<Rightarrow> Inl CrashKeyError | WrongType \<Rightarrow> Inl (CrashTypeError msg) | Present b \<Rightarrow> Inr b)"

text \<open>The checks at the head of \<open>_execute_task\<close>: a missing key is noticed before the type of a later one.\<close>

definition parse_task ::
  "DispatchMessage \<Rightarrow> ('v WorkerCrash, bytes \<times> nat \<times> bytes \<times> bytes \<times> bytes option) result" where
  "parse_task m =
     (case bytes_field (msg_task_id m) (ascii ''task_id must be bytes'') of
        Inl e \<Rightarrow> Inl e
      | Inr task \<Rightarrow>
          (case msg_num_returns m of
             Missing \<Rightarrow> Inl CrashKeyError
           | WrongType \<Rightarrow> Inl (CrashTypeError (ascii ''num_returns must be int''))
           | Present n \<Rightarrow>
               (if msg_callable m = Missing \<or> msg_args m = Missing then Inl CrashKeyError
                else
                  (case (msg_callable m, msg_args m) of
                     (Present c, Present a) \<Rightarrow>
                       (case msg_kwargs m of
                          WrongType \<Rightarrow> Inl (CrashTypeError (ascii ''dispatch_task kwargs must be bytes or None''))
                        | Missing \<Rightarrow> Inr (task, n, c, a, None)
                        | Present k \<Rightarrow> Inr (task, n, c, a, if k = [] then None else Some k))
                   | _ \<Rightarrow> Inl (CrashTypeError (ascii ''dispatch_task callable/args must be bytes''))))))"

definition execute_task ::
  "'v PyEnv \<Rightarrow> (bytes \<Rightarrow> PyExc) \<Rightarrow> (bytes \<Rightarrow> bytes \<Rightarrow> bytes option \<Rightarrow> PyCall option) \<Rightarrow> 'r hook \<Rightarrow>
     DispatchMessage \<Rightarrow> 'r Session option \<Rightarrow> 'r Session option \<times> ('v WorkerCrash, Completion) result" where
  "execute_task py type_error run h m g =
     (case parse_task m of
        Inl e \<Rightarrow> (g, Inl e)
      | Inr (task, n, c, a, k) \<Rightarrow>
          (case return_ids task n of
             None \<Rightarrow> (g, Inl CrashStruct)
           | Some oids \<Rightarrow>
               (case run c a k of
                  None \<Rightarrow> (g, Inl CrashLoads)
                | Some call \<Rightarrow>
                    (case (case call of PyRaised exc \<Rightarrow> spread_error py h oids exc g
                           | PyReturned v \<Rightarrow> store_value py type_error h oids v g) of
                       (g', Inl e) \<Rightarrow> (g', Inl e)
                     | (g', Inr rets) \<Rightarrow> (g', Inr (task_complete rets))))))"

section \<open>The main loop\<close>

datatype WorkerMsg = MsgShutdown | MsgTask DispatchMessage | MsgOther

datatype 'v WorkerExit = ExitShutdown | ExitEof | ExitCrash "'v WorkerCrash"

text \<open>
  What the socket yields: frames, the end of the stream, or an error; \<open>unpickle\<close> reads a message.  The loop
  returns the frames it sent; it runs out of input only while it waits (\<open>None\<close>).
\<close>

datatype WorkerInput = InFrame bytes | InEof | InConnectionError | InTooLarge nat

fun worker_loop ::
  "'v PyEnv \<Rightarrow> (bytes \<Rightarrow> PyExc) \<Rightarrow> (bytes \<Rightarrow> bytes \<Rightarrow> bytes option \<Rightarrow> PyCall option) \<Rightarrow> 'r hook \<Rightarrow>
     (bytes \<Rightarrow> WorkerMsg option) \<Rightarrow> (Completion \<Rightarrow> bytes) \<Rightarrow> WorkerInput list \<Rightarrow> 'r Session option \<Rightarrow>
     'r Session option \<times> bytes list \<times> 'v WorkerExit option" where
  "worker_loop py te run h unpickle dumps [] g = (g, [], None)"
| "worker_loop py te run h unpickle dumps (InEof # inp) g = (g, [], Some ExitEof)"
| "worker_loop py te run h unpickle dumps (InConnectionError # inp) g = (g, [], Some ExitEof)"
| "worker_loop py te run h unpickle dumps (InTooLarge n # inp) g = (g, [], Some (ExitCrash (CrashFrameTooLarge n)))"
| "worker_loop py te run h unpickle dumps (InFrame frame # inp) g =
     (case unpickle frame of
        None \<Rightarrow> (g, [], Some (ExitCrash CrashNotADict))
      | Some MsgShutdown \<Rightarrow> (g, [], Some ExitShutdown)
      | Some MsgOther \<Rightarrow> worker_loop py te run h unpickle dumps inp g
      | Some (MsgTask m) \<Rightarrow>
          (case execute_task py te run h m g of
             (g1, Inl e) \<Rightarrow> (g1, [], Some (ExitCrash e))
           | (g1, Inr completion) \<Rightarrow>
               (case worker_send_frame (dumps completion) of
                  Inl e \<Rightarrow> (g1, [], Some (ExitCrash e))
                | Inr bytes \<Rightarrow>
                    (case worker_loop py te run h unpickle dumps inp g1 of
                       (g2, sent, x) \<Rightarrow> (g2, dumps completion # sent, x)))))"

text \<open>The \<open>finally\<close> block tears the session down, however the loop ended.\<close>

definition worker_main ::
  "'v PyEnv \<Rightarrow> (bytes \<Rightarrow> PyExc) \<Rightarrow> (bytes \<Rightarrow> bytes \<Rightarrow> bytes option \<Rightarrow> PyCall option) \<Rightarrow> 'r hook \<Rightarrow>
     (bytes \<Rightarrow> WorkerMsg option) \<Rightarrow> (Completion \<Rightarrow> bytes) \<Rightarrow> WorkerInput list \<Rightarrow> 'r Session \<Rightarrow>
     'r CoreWorker option \<times> bytes list \<times> 'v WorkerExit option" where
  "worker_main py te run h unpickle dumps inp s =
     (case worker_loop py te run h unpickle dumps inp (Some s) of
        (g, sent, None) \<Rightarrow> (map_option ses_worker g, sent, None)
      | (g, sent, Some x) \<Rightarrow> (map_option fst (snd (uninstall g)), sent, Some x))"

section \<open>Two processes and one store\<close>

text \<open>The driver's connection sees what another process has done to the plasma server.\<close>

definition hand_over :: "'q CoreWorker \<Rightarrow> 'r CoreWorker \<Rightarrow> 'r CoreWorker" where
  "hand_over from_w w =
     (case (cw_plasma from_w, cw_plasma w) of
        (Some st, Some (client, _)) \<Rightarrow> w\<lparr>cw_plasma := Some (client, snd st)\<rparr>
      | _ \<Rightarrow> w)"

definition ingest_frame ::
  "(bytes \<Rightarrow> Completion option) \<Rightarrow> bytes \<Rightarrow> 'r Session \<Rightarrow> 'r Session \<times> IngestOutcome" where
  "ingest_frame loads frame s =
     (case handle_completion loads frame (cw_store (ses_worker s), None) of
        ((st, _), out) \<Rightarrow> (set_worker ((ses_worker s)\<lparr>cw_store := st\<rparr>) s, out))"

section \<open>The encodings agree with \<open>rayd-core\<close>\<close>

lemma pickle5_metadata_agrees: "encode_pickle5_metadata b = encode (Pickle5 b)"
  by (simp add: encode_pickle5_metadata_def DISCRIMINATOR_PICKLE5_def)

lemma error_metadata_agrees: "encode_error_metadata 1 code = encode (Error TaskException code)"
  by (simp add: encode_error_metadata_def DISCRIMINATOR_ERROR_def u16_to_le_bytes_def numeral_2_eq_2 Let_def)

lemma struct_pack_agrees: "struct_pack_I n = map_option u32_to_le_bytes (u32_try_from n)"
  by (simp add: struct_pack_I_def u32_try_from_def)

lemma error_payload_agrees:
  "build_error_payload exc =
     payload_encode \<lparr>message = exc_repr exc, traceback = Some (exc_traceback exc), raw_code = 0,
       pickled_python_exception = exc_pickled exc\<rparr>"
  by (simp add: build_error_payload_def payload_encode_def put_optional_def put_prefixed_def struct_pack_agrees
      split: option.split)

text \<open>The frames of the two sides.\<close>

lemma worker_frame_received:
  assumes "worker_send_frame body = (Inr bs :: ('v WorkerCrash, bytes) result)"
  shows "dispatch_recv_frame (bs @ rest) = Inr (Some (body, rest))"
proof -
  have len: "length body \<le> MAX_FRAME_BYTES" and bs: "bs = u32_to_le_bytes (of_nat (length body)) @ body"
    using assms by (auto simp: worker_send_frame_def split: if_splits)
  have "unat (of_nat (length body) :: u32) = length body"
    using len by (simp add: MAX_FRAME_BYTES_def unat_of_nat)
  then show ?thesis using len by (simp add: bs dispatch_recv_frame_def Let_def)
qed

section \<open>Sealing in a worker process\<close>

text \<open>A worker process has no control store, so neither a recoverer nor a callback.\<close>

definition worker_process :: "'r Session \<Rightarrow> bool" where
  "worker_process s \<longleftrightarrow>
     ses_gcs s = None \<and> cw_recoverer (ses_worker s) = None \<and>
     (\<exists>st. cw_plasma (ses_worker s) = Some st \<and> conn_inv st)"

definition plasma_view :: "'r CoreWorker \<Rightarrow> bytes \<Rightarrow> slot_state" where
  "plasma_view w = (case cw_plasma w of None \<Rightarrow> (\<lambda>_. Absent) | Some st \<Rightarrow> server_view (snd st))"

abbreviation seen_by :: "'r Session \<Rightarrow> bytes \<Rightarrow> slot_state" where
  "seen_by s \<equiv> plasma_view (ses_worker s)"

definition tracked :: "'r Session \<Rightarrow> ObjectId \<Rightarrow> bool" where
  "tracked s i \<longleftrightarrow> hm_contains (cw_refs (ses_worker s)) i"

lemma no_recoverer_no_spill:
  assumes "cw_recoverer w = None"
  shows "maybe_spill_for_pressure h w = (w, 0)"
proof -
  have "spill_loop h limit es current k w = (w, k)" for limit es current k
    using assms by (induction es arbitrary: current) (auto simp: spill_to_recoverer_def)
  then show ?thesis by (simp add: maybe_spill_for_pressure_def Let_def)
qed

lemma tracked_add_owned:
  "hm_contains (add_owned i c) j \<longleftrightarrow> j = i \<or> hm_contains c j"
  by (auto simp: add_owned_def hm_upsert_def hm_contains_def split: option.split)

lemma worker_seal_result:
  assumes w: "worker_process s" and d: "rust_slice d" and len: "length oid = 28"
    and res: "worker_seal py h oid (encode m) d (Some s) = (g', r)"
  obtains s' where "g' = Some s'" "worker_process s'"
    "is_ok r \<Longrightarrow> seen_by s oid = Absent \<and> seen_by s' = (seen_by s)(oid := Sealed (encode m) d)
      \<and> (\<forall>i. tracked s' i \<longleftrightarrow> i = ObjectId oid \<or> tracked s i)"
    "\<not> is_ok r \<Longrightarrow> seen_by s' = seen_by s \<and> (\<forall>i. tracked s' i \<longleftrightarrow> tracked s i)"
proof -
  obtain st where st: "cw_plasma (ses_worker s) = Some st" "conn_inv st"
    using w unfolding worker_process_def by blast
  obtain w' q where q: "seal_value_to_plasma h (ObjectId oid) m d (ses_worker s) = (w', q)" by fastforce
  have dec: "decode (encode m) = Inr m" using decode_encode_append [of m "[]"] by simp
  have g': "g' = Some (set_worker w' s)" and r: "is_ok r \<longleftrightarrow> is_ok q"
    using res w dec q len
    by (auto simp: worker_seal_def ObjectId_SIZE_def worker_process_def is_ok_def map_gcs_def set_worker_def split: sum.splits)
  from create_cases [OF st(2) metadata_rust_slice d, of oid m "address_blob (ses_worker s)"] show thesis
  proof cases
    case (1 st')
    then have e: "q = Inr (of_nat (length d))" "w' = sealed_in_plasma (ObjectId oid) m d st' (ses_worker s)"
      using q st(1) w no_recoverer_no_spill [of "sealed_in_plasma (ObjectId oid) m d st' (ses_worker s)" h]
      by (auto simp: seal_value_to_plasma_def sealed_in_plasma_def worker_process_def Let_def)
    then show thesis
      using 1 st w r
      by (intro that [OF g'])
        (auto simp: worker_process_def plasma_view_def sealed_in_plasma_def is_ok_def tracked_def tracked_add_owned)
  next
    case (2 st' msg)
    then have "q = Inl (CorePlasma (PlasmaServerError AlreadyExists msg))" "w' = (ses_worker s)\<lparr>cw_plasma := Some st'\<rparr>"
      using q st(1) by (auto simp: seal_value_to_plasma_def)
    then show thesis
      using 2 st w r by (intro that [OF g']) (auto simp: worker_process_def plasma_view_def is_ok_def tracked_def)
  next
    case (3 st' msg)
    then have "q = Inl (CorePlasma (PlasmaServerError OutOfMemory msg))" "w' = (ses_worker s)\<lparr>cw_plasma := Some st'\<rparr>"
      using q st(1) by (auto simp: seal_value_to_plasma_def)
    then show thesis
      using 3 st w r by (intro that [OF g']) (auto simp: worker_process_def plasma_view_def is_ok_def tracked_def)
  qed
qed

text \<open>A list of results, each under its id.\<close>

fun seal_all :: "bytes \<Rightarrow> (bytes \<times> bytes) list \<Rightarrow> (bytes \<Rightarrow> slot_state) \<Rightarrow> bytes \<Rightarrow> slot_state" where
  "seal_all meta [] v = v"
| "seal_all meta ((oid, d) # rest) v = seal_all meta rest (v(oid := Sealed meta d))"

lemma seal_all_other: "oid \<notin> fst ` set rs \<Longrightarrow> seal_all meta rs v oid = v oid"
  by (induction meta rs v rule: seal_all.induct) auto

lemma seal_all_member: "distinct (map fst rs) \<Longrightarrow> (oid, d) \<in> set rs \<Longrightarrow> seal_all meta rs v oid = Sealed meta d"
proof (induction meta rs v rule: seal_all.induct)
  case (2 meta oid' d' rest v)
  then show ?case by (auto simp: seal_all_other fun_upd_def)
qed simp

lemma store_results_ok:
  assumes "worker_process s" and "\<forall>(oid, x)\<in>set xs. length oid = 28 \<and> (\<forall>d. x = Some d \<longrightarrow> rust_slice d)"
    and "store_results py h (encode m) xs (Some s) = (g', Inr rets)"
  shows "\<exists>s' rs. g' = Some s' \<and> worker_process s' \<and> xs = map (\<lambda>(oid, d). (oid, Some d)) rs \<and>
    rets = map (\<lambda>(oid, d). return_entry oid (encode m) d) rs \<and> seen_by s' = seal_all (encode m) rs (seen_by s) \<and>
    (\<forall>i. tracked s' i \<longleftrightarrow> i \<in> (\<lambda>(oid, d). ObjectId oid) ` set rs \<or> tracked s i)"
  using assms
proof (induction xs arbitrary: s rets)
  case Nil
  then show ?case by auto
next
  case (Cons x xs)
  obtain oid d where x: "x = (oid, Some d)"
    using Cons.prems(3) by (cases x; cases "snd x") auto
  have k: "length oid = 28" "rust_slice d" using Cons.prems(2) by (auto simp: x)
  obtain g1 q where q: "worker_seal py h oid (encode m) d (Some s) = (g1, q)" by fastforce
  then obtain n where n: "q = Inr n"
    using Cons.prems(3) by (cases q) (auto simp: x store_via_native_seal_def)
  obtain s1 where s1: "g1 = Some s1" "worker_process s1" "seen_by s1 = (seen_by s)(oid := Sealed (encode m) d)"
      "\<forall>i. tracked s1 i \<longleftrightarrow> i = ObjectId oid \<or> tracked s i"
    by (rule worker_seal_result [OF Cons.prems(1) k(2,1) q]) (simp add: n is_ok_def)
  obtain rets' where r: "store_results py h (encode m) xs (Some s1) = (g', Inr rets')"
      "rets = return_entry oid (encode m) d # rets'"
    using Cons.prems(3) q n s1(1) by (auto simp: x store_via_native_seal_def split: prod.splits sum.splits)
  obtain s' rs where "g' = Some s'" "worker_process s'" "xs = map (\<lambda>(oid, d). (oid, Some d)) rs"
      "rets' = map (\<lambda>(oid, d). return_entry oid (encode m) d) rs" "seen_by s' = seal_all (encode m) rs (seen_by s1)"
      "\<forall>i. tracked s' i \<longleftrightarrow> i \<in> (\<lambda>(oid, d). ObjectId oid) ` set rs \<or> tracked s1 i"
    using Cons.IH [OF s1(2) _ r(1)] Cons.prems(2) by auto
  then show ?case
    using r s1 by (intro exI [of _ s'] exI [of _ "(oid, d) # rs"]) (auto simp: x)
qed

section \<open>What a task leaves behind\<close>

text \<open>The specification: for each return of a task, its metadata and its bytes.\<close>

definition failed_results :: "nat \<Rightarrow> PyExc \<Rightarrow> (Metadata \<times> bytes option) list" where
  "failed_results n exc = replicate n (Error TaskException 0, build_error_payload exc)"

definition task_results :: "(bytes \<Rightarrow> PyExc) \<Rightarrow> nat \<Rightarrow> PyCall \<Rightarrow> (Metadata \<times> bytes option) list" where
  "task_results type_error n call =
     (case call of
        PyRaised exc \<Rightarrow> failed_results n exc
      | PyReturned v \<Rightarrow>
          if n = 1 then [(Pickle5 False, val_pickled v)]
          else
            (case val_items v of
               Some items \<Rightarrow>
                 if length items = n then map (Pair (Pickle5 False)) items
                 else failed_results n (type_error (wrong_shape n (val_type v)))
             | None \<Rightarrow> failed_results n (type_error (wrong_shape n (val_type v)))))"

definition all_slices :: "(Metadata \<times> bytes option) list \<Rightarrow> bool" where
  "all_slices rs \<longleftrightarrow> list_all (\<lambda>(m, x). case x of None \<Rightarrow> True | Some d \<Rightarrow> rust_slice d) rs"

text \<open>The results are in plasma under the ids, the completion lists them, and the worker counts them as its own.\<close>

definition left_behind ::
  "bytes list \<Rightarrow> (Metadata \<times> bytes option) list \<Rightarrow> 'r Session \<Rightarrow> 'r Session option \<Rightarrow> ReturnEntry list \<Rightarrow> bool" where
  "left_behind oids results s g' rets \<longleftrightarrow>
     (\<exists>s' m rs. g' = Some s' \<and> worker_process s' \<and> map fst rs = oids \<and> map (\<lambda>(oid, d). (m, Some d)) rs = results \<and>
        rets = map (\<lambda>(oid, d). return_entry oid (encode m) d) rs \<and>
        seen_by s' = seal_all (encode m) rs (seen_by s) \<and>
        (\<forall>i. tracked s' i \<longleftrightarrow> i \<in> ObjectId ` set oids \<or> tracked s i))"

lemma store_results_leaves:
  assumes "worker_process s" and "\<forall>oid\<in>set oids. length oid = 28" and "length xs = length oids"
    and "all_slices (map (Pair m) xs)" and "store_results py h (encode m) (zip oids xs) (Some s) = (g', Inr rets)"
  shows "left_behind oids (map (Pair m) xs) s g' rets"
proof -
  have p: "\<forall>(oid, x)\<in>set (zip oids xs). length oid = 28 \<and> (\<forall>d. x = Some d \<longrightarrow> rust_slice d)"
    using assms(2,4) by (auto simp: all_slices_def list_all_iff dest: set_zip_leftD set_zip_rightD split: option.splits)
  obtain s' rs where k: "g' = Some s'" "worker_process s'" "zip oids xs = map (\<lambda>(oid, d). (oid, Some d)) rs"
      "rets = map (\<lambda>(oid, d). return_entry oid (encode m) d) rs" "seen_by s' = seal_all (encode m) rs (seen_by s)"
      "\<forall>i. tracked s' i \<longleftrightarrow> i \<in> (\<lambda>(oid, d). ObjectId oid) ` set rs \<or> tracked s i"
    using store_results_ok [OF assms(1) p assms(5)] by blast
  have o: "map fst rs = oids"
    using arg_cong [OF k(3), of "map fst"] assms(3) by (simp add: comp_def split_beta)
  have x: "map (\<lambda>(oid, d). Some d) rs = xs"
    using arg_cong [OF k(3), of "map snd"] assms(3) by (simp add: comp_def split_beta)
  have "map (\<lambda>(oid, d). (m, Some d)) rs = map (Pair m) xs"
    unfolding x [symmetric] by (simp add: comp_def split_beta)
  moreover have "(\<lambda>(oid, d). ObjectId oid) ` set rs = ObjectId ` set oids"
    unfolding o [symmetric] by (force simp: image_image split_beta)
  ultimately show ?thesis
    unfolding left_behind_def using k o by (intro exI [of _ s'] exI [of _ m] exI [of _ rs]) simp
qed

lemma spread_error_leaves:
  assumes "worker_process s" and "\<forall>oid\<in>set oids. length oid = 28" and "all_slices (failed_results (length oids) exc)"
    and "spread_error py h oids exc (Some s) = (g', Inr rets)"
  shows "left_behind oids (failed_results (length oids) exc) s g' rets"
proof -
  obtain d where d: "build_error_payload exc = Some d"
    using assms(4) by (cases "build_error_payload exc") (auto simp: spread_error_def)
  let ?xs = "replicate (length oids) (Some d)"
  have z: "map (\<lambda>oid. (oid, Some d)) oids = zip oids ?xs"
    by (simp add: zip_replicate2)
  have f: "failed_results (length oids) exc = map (Pair (Error TaskException 0)) ?xs"
    by (simp add: failed_results_def d map_replicate)
  have "store_results py h (encode (Error TaskException 0)) (zip oids ?xs) (Some s) = (g', Inr rets)"
    using assms(4) unfolding spread_error_def d z error_metadata_agrees option.case .
  from store_results_leaves [OF assms(1,2) _ _ this] show ?thesis
    using assms(3) unfolding f by simp
qed

lemma store_value_leaves:
  assumes "worker_process s" and "\<forall>oid\<in>set oids. length oid = 28"
    and "all_slices (task_results te (length oids) (PyReturned v))"
    and "store_value py te h oids v (Some s) = (g', Inr rets)"
  shows "left_behind oids (task_results te (length oids) (PyReturned v)) s g' rets"
proof (cases "length oids = 1")
  case True
  then have "store_results py h (encode (Pickle5 False)) (zip oids [val_pickled v]) (Some s) = (g', Inr rets)"
    using assms(4) by (cases oids) (auto simp: store_value_def Let_def pickle5_metadata_agrees)
  from store_results_leaves [OF assms(1,2) _ _ this] show ?thesis
    using assms(3) True by (simp add: task_results_def)
next
  case False
  show ?thesis
  proof (cases "\<exists>items. val_items v = Some items \<and> length items = length oids")
    case True
    then obtain items where i: "val_items v = Some items" "length items = length oids" by blast
    then have "store_results py h (encode (Pickle5 False)) (zip oids items) (Some s) = (g', Inr rets)"
      using assms(4) False by (simp add: store_value_def Let_def pickle5_metadata_agrees)
    from store_results_leaves [OF assms(1,2) i(2) _ this] show ?thesis
      using assms(3) False i by (simp add: task_results_def)
  next
    case bad: False
    let ?e = "te (wrong_shape (length oids) (val_type v))"
    have f: "task_results te (length oids) (PyReturned v) = failed_results (length oids) ?e"
      using False bad by (auto simp: task_results_def split: option.split)
    have "spread_error py h oids ?e (Some s) = (g', Inr rets)"
      using assms(4) False bad by (cases "val_items v") (auto simp: store_value_def Let_def)
    from spread_error_leaves [OF assms(1,2) _ this] show ?thesis using assms(3) unfolding f by simp
  qed
qed

lemma return_ids_props:
  assumes "return_ids task n = Some oids" and "length task = 24"
  shows "length oids = n" and "\<forall>oid\<in>set oids. length oid = 28" and "distinct oids"
    and "i < n \<Longrightarrow> ObjectId (oids ! i) = for_return (TaskId task) (of_nat i)"
proof -
  have o: "oids = map (\<lambda>i. task @ u32_to_le_bytes (of_nat i)) [0..<n]" "n \<le> 2 ^ 32"
    using assms(1) by (auto simp: return_ids_def split: if_splits)
  then show "length oids = n" "\<forall>oid\<in>set oids. length oid = 28"
    using assms(2) by (auto simp: u32_to_le_bytes_def)
  have "inj_on (\<lambda>i. u32_to_le_bytes (of_nat i)) {0..<n}"
  proof (rule inj_onI)
    fix i j assume ij: "i \<in> {0..<n}" "j \<in> {0..<n}"
      and "u32_to_le_bytes (of_nat i) = u32_to_le_bytes (of_nat j)"
    then have "(of_nat i :: u32) = of_nat j" by (metis u32_le_round_trip)
    then have "unat (of_nat i :: u32) = unat (of_nat j :: u32)" by simp
    then show "i = j" using ij o(2) by (simp add: unat_of_nat)
  qed
  then show "distinct oids" by (simp add: o(1) distinct_map inj_on_def)
  show "i < n \<Longrightarrow> ObjectId (oids ! i) = for_return (TaskId task) (of_nat i)"
    by (simp add: o(1) for_return_def)
qed

lemma execute_task_leaves:
  assumes "worker_process s" and "parse_task m = (Inr (task, n, c, a, k) :: ('v WorkerCrash, _) result)"
    and "length task = 24" and "run c a k = Some call" and "all_slices (task_results te n call)"
    and "execute_task (py :: 'v PyEnv) te run h m (Some s) = (g', Inr completion)"
  obtains oids rets where "return_ids task n = Some oids" "completion = task_complete rets"
    "left_behind oids (task_results te n call) s g' rets"
proof -
  obtain oids where o: "return_ids task n = Some oids"
    using assms(2,6) by (cases "return_ids task n") (auto simp: execute_task_def)
  note p = return_ids_props [OF o assms(3)]
  obtain rets where r: "completion = task_complete rets"
      "(case call of PyRaised exc \<Rightarrow> spread_error py h oids exc (Some s)
        | PyReturned v \<Rightarrow> store_value py te h oids v (Some s)) = (g', Inr rets)"
    using assms(2,4,6) o by (auto simp: execute_task_def split: prod.splits sum.splits)
  have "left_behind oids (task_results te n call) s g' rets"
  proof (cases call)
    case (PyRaised exc)
    then show ?thesis
      using spread_error_leaves [OF assms(1) p(2), of exc py h g' rets] assms(5) r(2) p(1)
      by (simp add: task_results_def)
  next
    case (PyReturned v)
    then show ?thesis
      using store_value_leaves [OF assms(1) p(2), of te v py h g' rets] assms(5) r(2) p(1) by simp
  qed
  then show thesis using that o r(1) by blast
qed

section \<open>What the driver reads\<close>

lemma set_worker_twice [simp]: "set_worker a (set_worker b s) = set_worker a s"
  by (simp add: set_worker_def)

definition index_all :: "Metadata \<Rightarrow> (bytes \<times> bytes) list \<Rightarrow> MemoryStore \<Rightarrow> MemoryStore" where
  "index_all m rs st =
     fold (\<lambda>(oid, d). put_plasma (ObjectId oid) \<lparr>idx_metadata = m, idx_data_size = of_nat (length d)\<rparr>) rs st"

lemma ingest_return_entries:
  assumes "\<forall>(oid, d)\<in>set rs. length oid = 28"
  shows "ingest_returns (map Some (map (\<lambda>(oid, d). return_entry oid (encode m) d) rs)) (st, None) =
    ((index_all m rs st, None), None)"
  using assms
proof (induction rs arbitrary: st)
  case (Cons r rs)
  have "decode (encode m) = Inr m" using decode_encode_append [of m "[]"] by simp
  with Cons show ?case
    by (cases r) (auto simp: ingest_entry_def return_entry_def get_key_def ObjectId_SIZE_def index_all_def simp del: encode.simps)
qed (simp add: index_all_def)

lemma ingest_completion:
  assumes "loads frame = Some (task_complete (map (\<lambda>(oid, d). return_entry oid (encode m) d) rs))"
    and "\<forall>(oid, d)\<in>set rs. length oid = 28"
  shows "ingest_frame loads frame s =
    (set_worker ((ses_worker s)\<lparr>cw_store := index_all m rs (cw_store (ses_worker s))\<rparr>) s, Ingested)"
  using ingest_return_entries [OF assms(2), of m "cw_store (ses_worker s)"] assms(1)
  by (simp add: ingest_frame_def handle_completion_def task_complete_def get_key_def)

lemma get_entry_put_plasma: "get_entry j (put_plasma i idx st) = (if j = i then Some (Plasma idx) else get_entry j st)"
  by (simp add: put_plasma_def)

lemma index_all_other: "i \<notin> (\<lambda>(oid, d). ObjectId oid) ` set rs \<Longrightarrow> get_entry i (index_all m rs st) = get_entry i st"
  by (induction rs arbitrary: st) (auto simp: index_all_def get_entry_put_plasma)

lemma index_all_member:
  assumes "distinct (map fst rs)" and "(oid, d) \<in> set rs"
  shows "get_entry (ObjectId oid) (index_all m rs st) = Some (Plasma \<lparr>idx_metadata = m, idx_data_size = of_nat (length d)\<rparr>)"
  using assms
proof (induction rs arbitrary: st)
  case (Cons r rs)
  obtain o' d' where r: "r = (o', d')" by fastforce
  show ?case
  proof (cases "(oid, d) = r")
    case True
    then have "ObjectId oid \<notin> (\<lambda>(oid, d). ObjectId oid) ` set rs" using Cons.prems(1) r by force
    from index_all_other [OF this, of m] show ?thesis
      using True r by (simp add: index_all_def get_entry_put_plasma)
  next
    case False
    then show ?thesis using Cons r by (auto simp: index_all_def)
  qed
qed simp

lemma hand_over_simps:
  assumes "cw_plasma v = Some st" and "cw_plasma w = Some (client, srv)"
  shows "hand_over v w = w\<lparr>cw_plasma := Some (client, snd st)\<rparr>"
  using assms by (simp add: hand_over_def)

lemma session_hand_over:
  assumes "session_ok base ds" and "cw_plasma (ses_worker ds) = Some (client, srv)" and "worker_process ws"
  shows "session_ok base (set_worker ((hand_over (ses_worker ws) (ses_worker ds))\<lparr>cw_store := st\<rparr>) ds)"
    and "seen_by (set_worker ((hand_over (ses_worker ws) (ses_worker ds))\<lparr>cw_store := st\<rparr>) ds) = seen_by ws"
  using assms
  by (auto simp: session_ok_def cw_ok_def conn_inv_def worker_process_def plasma_view_def hand_over_def)

text \<open>An indexed object that is sealed in plasma is what a get returns.\<close>

lemma get_sealed_object:
  assumes "session_ok base s" and "get_entry (ref_id p) (cw_store (ses_worker s)) = Some (Plasma idx)"
    and "seen_by s (ObjectId_bytes (ref_id p)) = Sealed md d"
  obtains s' where "get_one py manager_hook p start timeout ((cw_store (ses_worker s), now) # obs) s =
    Some (s', value_from_object py (idx_metadata idx) d)" "session_value s' = session_value s"
proof -
  obtain st where st: "cw_plasma (ses_worker s) = Some st" "server_view (snd st) (ObjectId_bytes (ref_id p)) = Sealed md d"
    using assms(3) by (auto simp: plasma_view_def split: option.splits)
  have "session_value s (ref_id p) = Some (idx_metadata idx, d)"
    using assms(2) st by (simp add: value_of_def available_def)
  moreover have "in_plasma (ses_worker s) (ref_id p)" using st by (simp add: in_plasma_def)
  ultimately show thesis
    using get_one_result [OF assms(1), of p "idx_metadata idx" d py start timeout now obs] that by metis
qed

section \<open>Leaving\<close>

lemma evict_local_plasma:
  assumes "cw_plasma w = Some st" and "conn_inv st"
  obtains st' where "cw_plasma (fst (evict_local i w)) = Some st'" "conn_inv st'"
    "server_view (snd st') = (server_view (snd st))(ObjectId_bytes i := Absent)"
    "cw_refs (fst (evict_local i w)) = cw_refs w"
  using plasma.delete_view [OF assms(2), of "ObjectId_bytes i"] assms(1) that
  by (auto simp: evict_local_def plasma_delete_def)

lemma evict_all_plasma:
  assumes "cw_plasma w = Some st" and "conn_inv st" and "i \<in> set ids \<or> server_view (snd st) (ObjectId_bytes i) = Absent"
  shows "\<exists>st'. cw_plasma (fold (\<lambda>i w. fst (evict_local i w)) ids w) = Some st' \<and> conn_inv st' \<and>
    server_view (snd st') (ObjectId_bytes i) = Absent"
  using assms
proof (induction ids arbitrary: w st)
  case (Cons j ids)
  obtain st' where "cw_plasma (fst (evict_local j w)) = Some st'" "conn_inv st'"
    "server_view (snd st') = (server_view (snd st))(ObjectId_bytes j := Absent)"
    by (rule evict_local_plasma [OF Cons.prems(1,2)])
  then show ?case using Cons.IH [of "fst (evict_local j w)" st'] Cons.prems(3) by auto
qed simp

text \<open>A worker process that leaves deletes everything it sealed.\<close>

lemma leaving_deletes:
  assumes "worker_process s" and "tracked s i"
  obtains st where "cw_plasma (free_all_local (ses_worker s)) = Some st" "conn_inv st"
    "server_view (snd st) (ObjectId_bytes i) = Absent"
proof -
  obtain st where st: "cw_plasma (ses_worker s) = Some st" "conn_inv st"
    using assms(1) unfolding worker_process_def by blast
  obtain c ids where c: "drain_ids (cw_refs (ses_worker s)) = (c, ids)" by fastforce
  have "i \<in> set ids"
    using assms(2) c by (auto simp: tracked_def drain_ids_def hm_contains_def dest!: map_of_SomeD intro!: rev_image_eqI)
  then show thesis
    using evict_all_plasma [of "(ses_worker s)\<lparr>cw_refs := c\<rparr>" st i ids] st c that
    by (auto simp: free_all_local_def)
qed

lemma resolve_missing:
  assumes "cw_plasma w = Some st" and "conn_inv st" and "server_view (snd st) (ObjectId_bytes i) = Absent"
    and "cw_recoverer w = None" and "get_entry i (cw_store w) = Some (Plasma idx)"
  obtains w' msg where "resolve_now h i w = (w', Inl (CorePlasma (PlasmaServerError NotFound msg)))"
proof -
  from get_bytes_cases [OF assms(2), of "ObjectId_bytes i"] show thesis
  proof cases
    case (2 st' msg)
    then show thesis
      using that assms(1,4,5) by (simp add: resolve_now_def resolve_entry_def recover_and_reseal_def map_ok_def)
  qed (use assms(3) in auto)
qed

text \<open>Reading in the driver after the process that sealed the object has left.\<close>

lemma read_after_exit:
  assumes "worker_process ws" and "tracked ws (ref_id p)" and "session_ok base ds"
    and "cw_plasma (ses_worker ds) = Some (client, srv)" and "cw_recoverer (ses_worker ds) = None"
    and "get_entry (ref_id p) (cw_store (ses_worker ds)) = Some (Plasma idx)"
  obtains s msg where "get_one py manager_hook p start timeout ((cw_store (ses_worker ds), now) # obs)
      (set_worker (hand_over (free_all_local (ses_worker ws)) (ses_worker ds)) ds) =
    Some (s, Inl (PyRuntimeError (ascii ''resolve: '' @ show_core py (CorePlasma (PlasmaServerError NotFound msg)))))"
proof -
  obtain st where st: "cw_plasma (free_all_local (ses_worker ws)) = Some st" "conn_inv st"
      "server_view (snd st) (ObjectId_bytes (ref_id p)) = Absent"
    by (rule leaving_deletes [OF assms(1,2)])
  let ?d = "hand_over (free_all_local (ses_worker ws)) (ses_worker ds)"
  have d: "cw_plasma ?d = Some (client, snd st)" "cw_recoverer ?d = None" "cw_store ?d = cw_store (ses_worker ds)"
    using assms(4,5) st(1) by (simp_all add: hand_over_def)
  have e: "get_entry (ref_id p) (cw_store ?d) = Some (Plasma idx)" using assms(6) d(3) by simp
  have c: "conn_inv (client, snd st)"
    using assms(3,4) st(2) by (simp add: session_ok_def cw_ok_def conn_inv_def)
  obtain w msg where "resolve_now manager_hook (ref_id p) ?d = (w, Inl (CorePlasma (PlasmaServerError NotFound msg)))"
    by (rule resolve_missing [OF d(1) c _ d(2) e]) (simp_all add: st(3))
  then show thesis
    using that resolve_blocking_present [OF e, of manager_hook start timeout now obs]
    by (simp add: get_one_def d(3) resolve_failed_def)
qed

text \<open>The driver's view of an ingested task.\<close>

lemma task_ingested:
  assumes "worker_process ws" and "cw_plasma (ses_worker ds) = Some (client, srv)"
    and "parse_task m = (Inr (task, n, c, a, k) :: ('v WorkerCrash, bytes \<times> nat \<times> bytes \<times> bytes \<times> bytes option) result)"
    and "length task = 24" and "run c a k = Some call" and "all_slices (task_results te n call)"
    and "execute_task (py :: 'v PyEnv) te run h m (Some ws) = (Some ws', Inr completion)"
    and "loads (dumps completion) = Some completion"
    and "ingest_frame loads (dumps completion) (set_worker (hand_over (ses_worker ws') (ses_worker ds)) ds) = (ds', out)"
    and "i < n" and "ref_id p = for_return (TaskId task) (of_nat i)"
  obtains md d st where "out = Ingested" "worker_process ws'" "tracked ws' (ref_id p)"
    "task_results te n call ! i = (md, Some d)" "seen_by ws' (ObjectId_bytes (ref_id p)) = Sealed (encode md) d"
    "ds' = set_worker ((hand_over (ses_worker ws') (ses_worker ds))\<lparr>cw_store := st\<rparr>) ds"
    "get_entry (ref_id p) st = Some (Plasma \<lparr>idx_metadata = md, idx_data_size = of_nat (length d)\<rparr>)"
proof -
  obtain oids rets where o: "return_ids task n = Some oids" "completion = task_complete rets"
      "left_behind oids (task_results te n call) ws (Some ws') rets"
    by (rule execute_task_leaves [OF assms(1,3,4,5,6,7)])
  note ids = return_ids_props [OF o(1) assms(4)]
  obtain md rs where l: "worker_process ws'" "map fst rs = oids" "map (\<lambda>(oid, d). (md, Some d)) rs = task_results te n call"
      "rets = map (\<lambda>(oid, d). return_entry oid (encode md) d) rs" "seen_by ws' = seal_all (encode md) rs (seen_by ws)"
      "\<forall>i. tracked ws' i \<longleftrightarrow> i \<in> ObjectId ` set oids \<or> tracked ws i"
    using o(3) unfolding left_behind_def by blast
  have len: "\<forall>(oid, d)\<in>set rs. length oid = 28" using ids(2) l(2) by force
  let ?w = "hand_over (ses_worker ws') (ses_worker ds)"
  have ld: "loads (dumps completion) = Some (task_complete (map (\<lambda>(oid, d). return_entry oid (encode md) d) rs))"
    using assms(8) o(2) l(4) by simp
  note ing = ingest_completion [where loads = loads and frame = "dumps completion" and m = md and rs = rs, OF ld len]
  have ds': "ds' = set_worker (?w\<lparr>cw_store := index_all md rs (cw_store ?w)\<rparr>) ds" and out: "out = Ingested"
    using assms(9) unfolding ing by simp_all
  obtain oid d where od: "rs ! i = (oid, d)" by fastforce
  have i: "i < length rs" using ids(1) l(2) assms(10) by (metis length_map)
  have oid: "ref_id p = ObjectId oid"
    using ids(4) [OF assms(10)] l(2) i od assms(11) by (metis fst_conv nth_map)
  have mem: "(oid, d) \<in> set rs" using nth_mem [OF i] od by simp
  have dist: "distinct (map fst rs)" using ids(3) l(2) by simp
  show thesis
  proof (rule that [OF out l(1) _ _ _ ds'])
    have "oid \<in> set oids" unfolding l(2) [symmetric] using mem by (auto intro: rev_image_eqI)
    then show "tracked ws' (ref_id p)" using l(6) by (simp add: oid)
    show "task_results te n call ! i = (md, Some d)" using i od by (simp add: l(3) [symmetric])
    show "seen_by ws' (ObjectId_bytes (ref_id p)) = Sealed (encode md) d"
      using seal_all_member [OF dist mem] by (simp add: oid l(5))
    show "get_entry (ref_id p) (index_all md rs (cw_store ?w)) =
        Some (Plasma \<lparr>idx_metadata = md, idx_data_size = of_nat (length d)\<rparr>)"
      unfolding oid by (rule index_all_member [OF dist mem])
  qed
qed

text \<open>An example: a worker and a driver over an empty store, and a task that returns a pickle of one byte.\<close>

definition example_process :: "fs_manager Session" where
  "example_process = \<lparr>ses_worker = (ses_worker example_session)\<lparr>cw_plasma := Some example_conn\<rparr>, ses_gcs = None\<rparr>"

definition example_run :: "bytes \<Rightarrow> bytes \<Rightarrow> bytes option \<Rightarrow> PyCall option" where
  "example_run c a k =
     Some (PyReturned \<lparr>val_pickled = (if c = [1] then Some [7] else None), val_items = None, val_type = []\<rparr>)"

definition example_task :: "byte \<Rightarrow> DispatchMessage" where
  "example_task c =
     \<lparr>msg_task_id = Present (replicate 24 c), msg_num_returns = Present 1, msg_callable = Present [c],
      msg_args = Present [], msg_kwargs = Missing\<rparr>"

definition example_completion :: Completion where
  "example_completion = task_complete [return_entry (replicate 24 1 @ [0, 0, 0, 0]) [1, 0] [7]]"

definition example_error :: "bytes \<Rightarrow> PyExc" where
  "example_error msg = \<lparr>exc_repr = msg, exc_traceback = [], exc_pickled = None\<rparr>"

lemma example_process_ok: "worker_process example_process" "session_ok [] example_process"
  using example_conn_inv
  by (simp_all add: worker_process_def session_ok_def example_process_def example_session_def new_local_def
      CoreWorker_new_def cw_ok_def)

lemma example_process_simps:
  "cw_plasma (ses_worker example_process) = Some (\<lparr>cached_arenas = [], mmap_ok = True\<rparr>, example_server)"
  "cw_recoverer (ses_worker example_process) = None" "ses_gcs example_process = None"
  by (simp_all add: example_process_def example_session_def new_local_def CoreWorker_new_def example_conn_def)

lemma example_seal:
  "\<exists>st. client_create_and_seal direct_exchange oid [1, 0] [7] ow example_conn = (st, Inr ())"
proof -
  have "snd (client_create_and_seal direct_exchange oid [1, 0] [7] ow example_conn) = Inr ()"
    by (simp add: client_create_and_seal_def client_create_def direct_exchange_def example_conn_def
        example_server_def server_new_def handle_create_def count_create_def alloc_def align_up_def
        OBJECT_ALIGN_def checked_add_def hm_contains_def set_gauges_def slot_info_def
        ensure_arena_mapped_def write_metadata_def write_data_def write_slot_def mmap_write_def
        set_mmap_def client_seal_def handle_seal_def expect_ok_def Let_def)
  then show ?thesis by (metis prod.collapse)
qed

lemma example_parse: "parse_task (example_task c) = Inr (replicate 24 c, 1, [c], [], None)"
  by (simp add: parse_task_def example_task_def bytes_field_def)

lemma example_worker_seal:
  assumes "length oid = 28"
  obtains ws n where "worker_seal example_env manager_hook oid [1, 0] [7] (Some example_process) = (Some ws, Inr n)"
proof -
  obtain st where st: "client_create_and_seal direct_exchange oid [1, 0] [7] (address_blob (ses_worker example_process)) example_conn =
      (st, Inr ())"
    using example_seal by blast
  have m: "decode [1, 0] = Inr (Pickle5 False)" "encode (Pickle5 False) = [1, 0]"
    by (simp_all add: decode_def DISCRIMINATOR_PICKLE5_def)
  have p: "cw_plasma (ses_worker example_process) = Some example_conn" by (simp add: example_process_def)
  have "snd (seal_value_to_plasma manager_hook (ObjectId oid) (Pickle5 False) [7] (ses_worker example_process)) = Inr 1"
    using st unfolding seal_value_to_plasma_def p m(2) by (simp add: Let_def split: prod.split)
  then obtain w where "seal_value_to_plasma manager_hook (ObjectId oid) (Pickle5 False) [7] (ses_worker example_process) = (w, Inr 1)"
    by (metis prod.collapse)
  then show thesis using that assms by (simp add: worker_seal_def ObjectId_SIZE_def m(1))
qed

lemma example_executes:
  obtains ws where "execute_task example_env example_error example_run manager_hook (example_task 1) (Some example_process) =
    (Some ws, Inr example_completion)"
proof -
  let ?oid = "replicate 24 1 @ [0, 0, 0, 0] :: bytes"
  have four: "(4 :: nat) = Suc (Suc (Suc (Suc 0)))" by simp
  have "u32_to_le_bytes 0 = [0, 0, 0, 0]" unfolding u32_to_le_bytes_def four by simp
  then have ids: "return_ids (replicate 24 1) 1 = Some [?oid]" by (simp add: return_ids_def)
  have len: "length ?oid = 28" by simp
  obtain ws n where s: "worker_seal example_env manager_hook ?oid [1, 0] [7] (Some example_process) = (Some ws, Inr n)"
    by (rule example_worker_seal [OF len])
  have "store_value example_env example_error manager_hook [?oid] \<lparr>val_pickled = Some [7], val_items = None, val_type = []\<rparr>
      (Some example_process) = (Some ws, Inr [return_entry ?oid [1, 0] [7]])"
    using s by (simp add: store_value_def Let_def store_via_native_seal_def encode_pickle5_metadata_def del: replicate.simps)
  then show thesis
    using that [of ws] ids unfolding execute_task_def example_parse example_run_def example_completion_def
    by (simp del: One_nat_def)
qed

section \<open>Properties\<close>

text \<open>C13. A task executed in a worker process reaches the driver: when the worker has executed a task and the driver
  has ingested its completion frame, reading the i-th return gives what the specification says of that return: the
  unpickled value, the i-th item of the returned tuple, or the exception that the task raised (or that reports a result
  of the wrong shape). The two processes share the plasma store and the completion frame only.\<close>

theorem task_result_reaches_driver:
  assumes "worker_process ws" and "session_ok base ds" and "cw_plasma (ses_worker ds) = Some (client, srv)"
    and "parse_task m = (Inr (task, n, c, a, k) :: ('v WorkerCrash, bytes \<times> nat \<times> bytes \<times> bytes \<times> bytes option) result)"
    and "length task = 24" and "run c a k = Some call" and "all_slices (task_results type_error n call)"
    and "execute_task (py :: 'v PyEnv) type_error run h m (Some ws) = (Some ws', Inr completion)"
    and "loads (dumps completion) = Some completion"
    and "ingest_frame loads (dumps completion) (set_worker (hand_over (ses_worker ws') (ses_worker ds)) ds) = (ds', out)"
    and "i < n" and "ref_id p = for_return (TaskId task) (of_nat i)"
  shows "out = Ingested \<and> (\<exists>md d s. task_results type_error n call ! i = (md, Some d) \<and>
    get_one py manager_hook p start timeout ((cw_store (ses_worker ds'), now) # obs) ds' =
      Some (s, value_from_object py md d))"
proof -
  obtain md d st where t: "out = Ingested" "worker_process ws'" "tracked ws' (ref_id p)"
      "task_results type_error n call ! i = (md, Some d)" "seen_by ws' (ObjectId_bytes (ref_id p)) = Sealed (encode md) d"
      "ds' = set_worker ((hand_over (ses_worker ws') (ses_worker ds))\<lparr>cw_store := st\<rparr>) ds"
      "get_entry (ref_id p) st = Some (Plasma \<lparr>idx_metadata = md, idx_data_size = of_nat (length d)\<rparr>)"
    by (rule task_ingested [where dumps = dumps, OF assms(1,3-12)])
  note ok = session_hand_over [OF assms(2,3) t(2), of st, folded t(6)]
  have "get_entry (ref_id p) (cw_store (ses_worker ds')) =
      Some (Plasma \<lparr>idx_metadata = md, idx_data_size = of_nat (length d)\<rparr>)" using t(6,7) by simp
  moreover have "seen_by ds' (ObjectId_bytes (ref_id p)) = Sealed (encode md) d" using t(5) ok(2) by simp
  ultimately obtain s where "get_one py manager_hook p start timeout ((cw_store (ses_worker ds'), now) # obs) ds' =
      Some (s, value_from_object py (idx_metadata \<lparr>idx_metadata = md, idx_data_size = of_nat (length d)\<rparr>) d)"
    by (rule get_sealed_object [OF ok(1)])
  then show ?thesis using t(1,4) by auto
qed

theorem task_result_reaches_driver_witness:
  "\<exists>ws ds out s. execute_task example_env example_error example_run manager_hook (example_task 1) (Some example_process) =
      (Some ws, Inr example_completion) \<and>
    ingest_frame (\<lambda>_. Some example_completion) [] (set_worker (hand_over (ses_worker ws) (ses_worker example_process)) example_process) =
      (ds, out) \<and> out = Ingested \<and>
    get_one example_env manager_hook (from_inner (ObjectRef_new (for_return (TaskId (replicate 24 1)) 0) (cw_address (ses_worker ws))))
      0 None [(cw_store (ses_worker ds), 0)] ds = Some (s, Inr [7])"
proof -
  obtain ws where ws: "execute_task example_env example_error example_run manager_hook (example_task 1) (Some example_process) =
      (Some ws, Inr example_completion)" by (rule example_executes)
  let ?p = "from_inner (ObjectRef_new (for_return (TaskId (replicate 24 1)) 0) (cw_address (ses_worker ws)))"
  let ?v = "\<lparr>val_pickled = Some [7], val_items = None, val_type = []\<rparr> :: PyValue"
  obtain ds out where ds: "ingest_frame (\<lambda>_. Some example_completion) []
      (set_worker (hand_over (ses_worker ws) (ses_worker example_process)) example_process) = (ds, out)" by fastforce
  have "out = Ingested \<and> (\<exists>md d s. task_results example_error 1 (PyReturned ?v) ! 0 = (md, Some d) \<and>
    get_one example_env manager_hook ?p 0 None ((cw_store (ses_worker ds), 0) # []) ds = Some (s, value_from_object example_env md d))"
    by (rule task_result_reaches_driver [where dumps = "\<lambda>_. []" and loads = "\<lambda>_. Some example_completion",
          OF example_process_ok example_process_simps(1) example_parse _ _ _ ws _ ds])
      (simp_all add: example_run_def task_results_def all_slices_def rust_slice_def)
  then obtain s where "out = Ingested"
      "get_one example_env manager_hook ?p 0 None [(cw_store (ses_worker ds), 0)] ds = Some (s, Inr [7])"
    by (auto simp: task_results_def value_from_object_def example_env_def)
  with ws ds show ?thesis by blast
qed



text \<open>One bad result destroys the good ones: a worker that has executed a task and then executes one whose
  result cannot be pickled ends with that exception, and tearing its session down deletes the results of the first
  task from the shared store. The driver still lists them, but reading any of them fails with a missing object.\<close>

lemma crash_destroys_earlier_results:
  assumes "worker_process ws" and "session_ok base ds" and "cw_plasma (ses_worker ds) = Some (client, srv)"
    and "cw_recoverer (ses_worker ds) = None"
    and "parse_task ma = (Inr (task, n, c, a, k) :: ('v WorkerCrash, bytes \<times> nat \<times> bytes \<times> bytes \<times> bytes option) result)"
    and "length task = 24" and "run c a k = Some call" and "all_slices (task_results type_error n call)"
    and "execute_task (py :: 'v PyEnv) type_error run h ma (Some ws) = (Some ws', Inr completion)"
    and "loads (dumps completion) = Some completion" and "length (dumps completion) \<le> MAX_FRAME_BYTES"
    and "ingest_frame loads (dumps completion) (set_worker (hand_over (ses_worker ws') (ses_worker ds)) ds) = (ds', out)"
    and "unpickle fa = Some (MsgTask ma)" and "unpickle fb = Some (MsgTask mb)"
    and "parse_task mb = (Inr (task', 1, c', a', k') :: ('v WorkerCrash, bytes \<times> nat \<times> bytes \<times> bytes \<times> bytes option) result)"
    and "run c' a' k' = Some (PyReturned v)" and "val_pickled v = None"
    and "i < n" and "ref_id p = for_return (TaskId task) (of_nat i)"
  shows "\<exists>w s msg. worker_main py type_error run h unpickle dumps [InFrame fa, InFrame fb] ws =
      (Some w, [dumps completion], Some (ExitCrash CrashPickle)) \<and>
    get_one py manager_hook p start timeout ((cw_store (ses_worker ds'), now) # obs)
        (set_worker (hand_over w (ses_worker ds')) ds') =
      Some (s, Inl (PyRuntimeError (ascii ''resolve: '' @ show_core py (CorePlasma (PlasmaServerError NotFound msg)))))"
proof -
  obtain md d st0 where t0: "out = Ingested" and t: "worker_process ws'" "tracked ws' (ref_id p)"
      "task_results type_error n call ! i = (md, Some d)" "seen_by ws' (ObjectId_bytes (ref_id p)) = Sealed (encode md) d"
      "ds' = set_worker ((hand_over (ses_worker ws') (ses_worker ds))\<lparr>cw_store := st0\<rparr>) ds"
      "get_entry (ref_id p) st0 = Some (Plasma \<lparr>idx_metadata = md, idx_data_size = of_nat (length d)\<rparr>)"
    by (rule task_ingested [where dumps = dumps, OF assms(1,3,5-10,12,18,19)])
  let ?w' = "free_all_local (ses_worker ws')"
  have bad: "execute_task py type_error run h mb (Some ws') = (Some ws', Inl CrashPickle)"
    using assms(15-17) by (simp add: execute_task_def return_ids_def store_value_def Let_def)
  have main: "worker_main py type_error run h unpickle dumps [InFrame fa, InFrame fb] ws =
      (Some ?w', [dumps completion], Some (ExitCrash CrashPickle))"
    using assms(9,11,13,14) bad by (simp add: worker_main_def worker_send_frame_def uninstall_def)
  have ok: "session_ok base ds'"
    using session_hand_over(1) [OF assms(2,3) t(1), of st0] t(5) by simp
  obtain st1 where "cw_plasma (ses_worker ws') = Some st1" using t(1) unfolding worker_process_def by blast
  from hand_over_simps [OF this assms(3)]
  have d: "cw_plasma (ses_worker ds') = Some (client, snd st1)" "cw_recoverer (ses_worker ds') = None"
    "get_entry (ref_id p) (cw_store (ses_worker ds')) = Some (Plasma \<lparr>idx_metadata = md, idx_data_size = of_nat (length d)\<rparr>)"
    using assms(4) t(5,6) by simp_all
  obtain s msg where "get_one py manager_hook p start timeout ((cw_store (ses_worker ds'), now) # obs)
      (set_worker (hand_over ?w' (ses_worker ds')) ds') =
    Some (s, Inl (PyRuntimeError (ascii ''resolve: '' @ show_core py (CorePlasma (PlasmaServerError NotFound msg)))))"
    by (rule read_after_exit [OF t(1,2) ok d])
  with main show ?thesis by blast
qed

lemma crash_destroys_earlier_results_witness:
  "\<exists>ws ds out w s msg. execute_task example_env example_error example_run manager_hook (example_task 1) (Some example_process) =
      (Some ws, Inr example_completion) \<and>
    ingest_frame (\<lambda>_. Some example_completion) [] (set_worker (hand_over (ses_worker ws) (ses_worker example_process)) example_process) =
      (ds, out) \<and>
    worker_main example_env example_error example_run manager_hook (\<lambda>f. Some (MsgTask (example_task (f ! 0)))) (\<lambda>_. [])
      [InFrame [1], InFrame [2]] example_process = (Some w, [[]], Some (ExitCrash CrashPickle)) \<and>
    get_one example_env manager_hook (from_inner (ObjectRef_new (for_return (TaskId (replicate 24 1)) 0) (cw_address (ses_worker ws))))
      0 None [(cw_store (ses_worker ds), 0)] (set_worker (hand_over w (ses_worker ds)) ds) = Some (s, Inl (PyRuntimeError msg))"
proof -
  obtain ws where ws: "execute_task example_env example_error example_run manager_hook (example_task 1) (Some example_process) =
      (Some ws, Inr example_completion)" by (rule example_executes)
  let ?p = "from_inner (ObjectRef_new (for_return (TaskId (replicate 24 1)) 0) (cw_address (ses_worker ws)))"
  let ?un = "\<lambda>f. Some (MsgTask (example_task (f ! 0)))"
  obtain ds out where ds: "ingest_frame (\<lambda>_. Some example_completion) []
      (set_worker (hand_over (ses_worker ws) (ses_worker example_process)) example_process) = (ds, out)" by fastforce
  have "\<exists>w s msg. worker_main example_env example_error example_run manager_hook ?un (\<lambda>_. []) [InFrame [1], InFrame [2]] example_process =
      (Some w, [[]], Some (ExitCrash CrashPickle)) \<and>
    get_one example_env manager_hook ?p 0 None ((cw_store (ses_worker ds), 0) # []) (set_worker (hand_over w (ses_worker ds)) ds) =
      Some (s, Inl (PyRuntimeError (ascii ''resolve: '' @ show_core example_env (CorePlasma (PlasmaServerError NotFound msg)))))"
    by (rule crash_destroys_earlier_results [where dumps = "\<lambda>_. []" and loads = "\<lambda>_. Some example_completion"
          and unpickle = ?un and ma = "example_task 1" and mb = "example_task 2" and i = 0
          and call = "PyReturned \<lparr>val_pickled = Some [7], val_items = None, val_type = []\<rparr>"
          and v = "\<lparr>val_pickled = None, val_items = None, val_type = []\<rparr>",
          OF example_process_ok example_process_simps(1,2) example_parse _ _ _ ws _ _ ds _ _ example_parse])
      (simp_all add: example_run_def task_results_def all_slices_def rust_slice_def)
  with ws ds show ?thesis by blast
qed

end
