(* ===== verification/Actor.thy ===== *)
theory Actor
imports Task_Worker
begin

text \<open>
  Actors: the driver's side of an actor (\<open>_ActorSubprocess\<close> of \<open>python/rayd/_actor.py\<close>), its subprocess
  (\<open>_actor_worker.py\<close>) and the entry of calls from other drivers (\<open>_actor_rpc.py\<close>).  The driver's side is a state
  machine whose steps are its critical sections under \<open>_state_lock\<close>: callers, the reader thread of each incarnation
  of the subprocess, and \<open>terminate\<close> interleave at them.  A socket is the number of its incarnation.  What a
  method does is a parameter over the state of the instance.
\<close>

section \<open>The subprocess\<close>

record CallMessage =
  call_method :: "bytes field"
  call_args :: "bytes field"
  call_kwargs :: "bytes field"
  call_result_oid :: "bytes field"

text \<open>The outcome of the guarded part: an exception of the method or of pickling its result, or the pickle.\<close>

datatype MethodOutcome = MethodRaised PyExc | MethodPickled bytes

type_synonym 'i methods = "bytes \<Rightarrow> bytes \<Rightarrow> bytes option \<Rightarrow> 'i \<Rightarrow> 'i \<times> MethodOutcome option"

record CallComplete =
  done_oid :: bytes
  done_metadata :: bytes
  done_data_size :: nat

definition parse_call :: "CallMessage \<Rightarrow> ('v WorkerCrash, bytes \<times> bytes \<times> bytes option \<times> bytes) result" where
  "parse_call m =
     (if call_method m = Missing \<or> call_args m = Missing \<or> call_result_oid m = Missing then Inl CrashKeyError
      else
        (case (call_method m, call_args m, call_result_oid m) of
           (Present f, Present a, Present oid) \<Rightarrow>
             (case call_kwargs m of
                WrongType \<Rightarrow> Inl (CrashTypeError (ascii ''actor_call: kwargs must be bytes or None''))
              | Missing \<Rightarrow> Inr (f, a, None, oid)
              | Present k \<Rightarrow> Inr (f, a, if k = [] then None else Some k, oid))
         | _ \<Rightarrow> Inl (CrashTypeError (ascii ''actor_call: malformed message''))))"

definition call_payload :: "MethodOutcome \<Rightarrow> (bytes \<times> bytes) option" where
  "call_payload out =
     (case out of
        MethodPickled d \<Rightarrow> Some (encode_pickle5_metadata False, d)
      | MethodRaised exc \<Rightarrow> map_option (Pair (encode_error_metadata 1 0)) (build_error_payload exc))"

definition execute_call ::
  "'v PyEnv \<Rightarrow> 'i methods \<Rightarrow> 'r hook \<Rightarrow> CallMessage \<Rightarrow> 'i \<times> 'r Session option \<Rightarrow>
     ('i \<times> 'r Session option) \<times> ('v WorkerCrash, CallComplete) result" where
  "execute_call py methods h m ig =
     (case ig of
        (i, g) \<Rightarrow>
          (case parse_call m of
             Inl e \<Rightarrow> ((i, g), Inl e)
           | Inr (f, a, k, oid) \<Rightarrow>
               (case methods f a k i of
                  (i', None) \<Rightarrow> ((i', g), Inl CrashLoads)
                | (i', Some out) \<Rightarrow>
                    (case call_payload out of
                       None \<Rightarrow> ((i', g), Inl CrashStruct)
                     | Some (meta, d) \<Rightarrow>
                         (case worker_seal py h oid meta d g of
                            (g', Inl e) \<Rightarrow> ((i', g'), Inl (CrashSeal e))
                          | (g', Inr _) \<Rightarrow>
                              ((i', g'), Inr \<lparr>done_oid = oid, done_metadata = meta, done_data_size = length d\<rparr>))))))"

record SpawnMessage =
  spawn_class :: "bytes field"
  spawn_args :: "bytes field"
  spawn_kwargs :: "bytes field"

text \<open>\<open>construct\<close> unpickles the class and the arguments and calls the class, \<open>None\<close> when that raises.\<close>

definition spawn_instance ::
  "(bytes \<Rightarrow> bytes \<Rightarrow> bytes option \<Rightarrow> 'i option) \<Rightarrow> SpawnMessage \<Rightarrow> ('v WorkerCrash, 'i) result" where
  "spawn_instance construct m =
     (if spawn_class m = Missing \<or> spawn_args m = Missing then Inl CrashKeyError
      else
        (case (spawn_class m, spawn_args m) of
           (Present c, Present a) \<Rightarrow>
             (if spawn_kwargs m = WrongType
              then Inl (CrashTypeError (ascii ''actor_spawn: kwargs must be bytes or None''))
              else
                (case construct c a (case spawn_kwargs m of Present k \<Rightarrow> if k = [] then None else Some k | _ \<Rightarrow> None) of
                   None \<Rightarrow> Inl CrashLoads
                 | Some i \<Rightarrow> Inr i))
         | _ \<Rightarrow> Inl (CrashTypeError (ascii ''actor_spawn: class/args must be bytes''))))"

datatype ActorMsg = ActorShutdown | ActorSpawn SpawnMessage | ActorCall CallMessage | ActorUnknown

text \<open>The loop of the subprocess.  A completion that does not fit a frame raises.\<close>

fun actor_loop ::
  "'v PyEnv \<Rightarrow> (bytes \<Rightarrow> bytes \<Rightarrow> bytes option \<Rightarrow> 'i option) \<Rightarrow> 'i methods \<Rightarrow> 'r hook \<Rightarrow> (bytes \<Rightarrow> ActorMsg option) \<Rightarrow> (CallComplete \<Rightarrow> bytes) \<Rightarrow>
     WorkerInput list \<Rightarrow> 'i option \<Rightarrow> 'r Session option \<Rightarrow> 'r Session option \<times> CallComplete list \<times> 'v WorkerExit option" where
  "actor_loop py construct methods h unpickle dumps [] inst g = (g, [], None)"
| "actor_loop py construct methods h unpickle dumps (InEof # inp) inst g = (g, [], Some ExitEof)"
| "actor_loop py construct methods h unpickle dumps (InConnectionError # inp) inst g = (g, [], Some ExitEof)"
| "actor_loop py construct methods h unpickle dumps (InTooLarge n # inp) inst g = (g, [], Some (ExitCrash (CrashFrameTooLarge n)))"
| "actor_loop py construct methods h unpickle dumps (InFrame frame # inp) inst g =
     (case unpickle frame of
        None \<Rightarrow> (g, [], Some (ExitCrash CrashNotADict))
      | Some ActorShutdown \<Rightarrow> (g, [], Some ExitShutdown)
      | Some ActorUnknown \<Rightarrow> actor_loop py construct methods h unpickle dumps inp inst g
      | Some (ActorSpawn m) \<Rightarrow>
          (case spawn_instance construct m of
             Inl e \<Rightarrow> (g, [], Some (ExitCrash e))
           | Inr i \<Rightarrow> actor_loop py construct methods h unpickle dumps inp (Some i) g)
      | Some (ActorCall m) \<Rightarrow>
          (case inst of
             None \<Rightarrow> (g, [], Some (ExitCrash (CrashTypeError (ascii ''actor_call before actor_spawn''))))
           | Some i \<Rightarrow>
               (case execute_call py methods h m (i, g) of
                  ((i', g'), Inl e) \<Rightarrow> (g', [], Some (ExitCrash e))
                | ((i', g'), Inr c) \<Rightarrow>
                    (case worker_send_frame (dumps c) of
                       Inl e \<Rightarrow> (g', [], Some (ExitCrash e))
                     | Inr _ \<Rightarrow>
                         (case actor_loop py construct methods h unpickle dumps inp (Some i') g' of
                            (g'', sent, x) \<Rightarrow> (g'', c # sent, x))))))"

definition actor_main ::
  "'v PyEnv \<Rightarrow> (bytes \<Rightarrow> bytes \<Rightarrow> bytes option \<Rightarrow> 'i option) \<Rightarrow> 'i methods \<Rightarrow> 'r hook \<Rightarrow> (bytes \<Rightarrow> ActorMsg option) \<Rightarrow> (CallComplete \<Rightarrow> bytes) \<Rightarrow>
     WorkerInput list \<Rightarrow> 'r Session \<Rightarrow> 'r CoreWorker option \<times> CallComplete list \<times> 'v WorkerExit option" where
  "actor_main py construct methods h unpickle dumps inp s =
     (case actor_loop py construct methods h unpickle dumps inp None (Some s) of
        (g, sent, None) \<Rightarrow> (map_option ses_worker g, sent, None)
      | (g, sent, Some x) \<Rightarrow> (map_option fst (snd (uninstall g)), sent, Some x))"

section \<open>The driver's side\<close>

text \<open>
  \<open>readers\<close> are the incarnations whose reader thread runs, \<open>registered\<close> says whether the process-wide registry has
  the actor, and the last two fields are not in the code: the ids of accepted calls, and whether a reader thread was ended by an
  exception.
\<close>

record 'r Actor =
  ac_max_restarts :: nat
  ac_restarts_used :: nat
  ac_terminated :: bool
  ac_dead :: bool
  ac_in_flight :: "bytes set"
  ac_socket_seq :: nat
  ac_readers :: "nat set"
  ac_registered :: bool
  ac_registered_name :: "bytes option"
  ac_session :: "'r Session option"
  ac_accepted :: "bytes set"
  ac_broken :: bool

datatype DispatchError = ActorTerminated | ActorDied

text \<open>The critical section of \<open>dispatch_call_with_oid\<close>; the frame is then sent to the returned socket.\<close>

definition dispatch_call :: "bytes \<Rightarrow> 'r Actor \<Rightarrow> 'r Actor \<times> (DispatchError, nat) result" where
  "dispatch_call oid ac =
     (if ac_terminated ac then (ac, Inl ActorTerminated)
      else if ac_dead ac then (ac, Inl ActorDied)
      else (ac\<lparr>ac_in_flight := insert oid (ac_in_flight ac), ac_accepted := insert oid (ac_accepted ac)\<rparr>,
            Inr (ac_socket_seq ac)))"

definition stop_reader :: "nat \<Rightarrow> 'r Actor \<Rightarrow> 'r Actor" where
  "stop_reader k ac = ac\<lparr>ac_readers := ac_readers ac - {k}\<rparr>"

text \<open>A completion frame; an exception of the record ends the reader thread.\<close>

definition on_call_complete ::
  "'v PyEnv \<Rightarrow> nat \<Rightarrow> CallComplete \<Rightarrow> 'r Actor \<Rightarrow> 'r Actor" where
  "on_call_complete py k c ac =
     (case record_plasma_seal py (done_oid c) (done_metadata c) (of_nat (done_data_size c)) (ac_session ac) of
        (g, r) \<Rightarrow>
          (let ac' = ac\<lparr>ac_in_flight := ac_in_flight ac - {done_oid c}, ac_session := g\<rparr>
           in case r of Inr _ \<Rightarrow> ac' | Inl _ \<Rightarrow> stop_reader k (ac'\<lparr>ac_broken := True\<rparr>)))"

definition seal_actor_died ::
  "'v PyEnv \<Rightarrow> PyExc \<Rightarrow> 'r hook \<Rightarrow> bytes \<Rightarrow> 'r Session option \<Rightarrow> 'r Session option \<times> bool" where
  "seal_actor_died py err h oid g =
     (case build_error_payload err of
        None \<Rightarrow> (g, False)
      | Some d \<Rightarrow> (case worker_seal py h oid (encode_error_metadata 1 0) d g of (g', r) \<Rightarrow> (g', is_ok r)))"

fun seal_all_died ::
  "'v PyEnv \<Rightarrow> PyExc \<Rightarrow> 'r hook \<Rightarrow> bytes list \<Rightarrow> 'r Session option \<Rightarrow> 'r Session option \<times> bool" where
  "seal_all_died py err h [] g = (g, True)"
| "seal_all_died py err h (oid # oids) g =
     (case seal_actor_died py err h oid g of
        (g', False) \<Rightarrow> (g', False)
      | (g', True) \<Rightarrow> seal_all_died py err h oids g')"

definition mark_actor_dead :: "'r Actor \<Rightarrow> 'r Actor" where
  "mark_actor_dead ac = ac\<lparr>ac_dead := True, ac_registered_name := None, ac_registered := False\<rparr>"

text \<open>Spawning takes a new socket whether or not the subprocess comes up; a reader thread is started last.\<close>

definition spawn_subprocess :: "bool \<Rightarrow> 'r Actor \<Rightarrow> 'r Actor \<times> bool" where
  "spawn_subprocess comes_up ac =
     (let n = ac_socket_seq ac + 1
      in if comes_up then (ac\<lparr>ac_socket_seq := n, ac_readers := insert n (ac_readers ac)\<rparr>, True)
         else (ac\<lparr>ac_socket_seq := n\<rparr>, False))"

text \<open>
  The reader of socket \<open>k\<close> saw the end of its stream.  \<open>oids\<close> lists the calls in flight in the order of the
  set's iteration; an exception of a seal leaves the method before the subprocess is reaped.
\<close>

definition on_socket_closed ::
  "'v PyEnv \<Rightarrow> PyExc \<Rightarrow> 'r hook \<Rightarrow> nat \<Rightarrow> bytes list \<Rightarrow> bool \<Rightarrow> 'r Actor \<Rightarrow> 'r Actor" where
  "on_socket_closed py err h k oids comes_up ac0 =
     (let ac = stop_reader k ac0
      in if ac_terminated ac \<or> k \<noteq> ac_socket_seq ac then ac
         else
           (case seal_all_died py err h oids (ac_session ac) of
              (g, ok) \<Rightarrow>
                (let ac1 = ac\<lparr>ac_in_flight := {}, ac_session := g\<rparr>
                 in if \<not> ok then ac1\<lparr>ac_broken := True\<rparr>
                    else if ac_max_restarts ac1 \<le> ac_restarts_used ac1 then mark_actor_dead ac1
                    else
                      (case spawn_subprocess comes_up (ac1\<lparr>ac_restarts_used := ac_restarts_used ac1 + 1\<rparr>) of
                         (ac2, True) \<Rightarrow> ac2
                       | (ac2, False) \<Rightarrow> mark_actor_dead ac2))))"

definition terminate_begin :: "'r Actor \<Rightarrow> 'r Actor" where
  "terminate_begin ac = ac\<lparr>ac_terminated := True\<rparr>"

definition terminate_end :: "'r Actor \<Rightarrow> 'r Actor" where
  "terminate_end ac = ac\<lparr>ac_registered_name := None, ac_registered := False\<rparr>"

definition new_actor :: "nat \<Rightarrow> bytes option \<Rightarrow> 'r Session option \<Rightarrow> 'r Actor" where
  "new_actor max_restarts name g =
     \<lparr>ac_max_restarts = max_restarts, ac_restarts_used = 0, ac_terminated = False, ac_dead = False,
      ac_in_flight = {}, ac_socket_seq = 1, ac_readers = {1}, ac_registered = True, ac_registered_name = name,
      ac_session = g, ac_accepted = {}, ac_broken = False\<rparr>"

datatype ProcOp =
    ActCall bytes
  | ActComplete nat CallComplete
  | ActClosed nat "bytes list" bool
  | ActTerminate
  | ActTerminated

inductive proc_step :: "'v PyEnv \<Rightarrow> PyExc \<Rightarrow> 'r hook \<Rightarrow> ProcOp \<Rightarrow> 'r Actor \<Rightarrow> 'r Actor \<Rightarrow> bool" for py err h where
  call: "proc_step py err h (ActCall oid) ac (fst (dispatch_call oid ac))"
| complete: "proc_step py err h (ActComplete k c) ac (on_call_complete py k c ac)" if "k \<in> ac_readers ac"
| closed: "proc_step py err h (ActClosed k oids up) ac (on_socket_closed py err h k oids up ac)"
    if "k \<in> ac_readers ac" and "set oids = ac_in_flight ac" and "distinct oids"
| terminate: "proc_step py err h ActTerminate ac (terminate_begin ac)" if "\<not> ac_terminated ac"
| terminated: "proc_step py err h ActTerminated ac (terminate_end ac)" if "ac_terminated ac"

inductive_cases proc_step_elim: "proc_step py err h op ac ac'"

inductive proc_run :: "'v PyEnv \<Rightarrow> PyExc \<Rightarrow> 'r hook \<Rightarrow> 'r Actor \<Rightarrow> 'r Actor \<Rightarrow> bool" for py err h where
  none: "proc_run py err h ac ac"
| more: "proc_run py err h ac ac''" if "proc_run py err h ac ac'" and "proc_step py err h op ac' ac''"

section \<open>Calls from other drivers\<close>

datatype InvokeReply = InvokeAck | RejectMalformed | RejectUnknown | RejectOther DispatchError | RejectSend

text \<open>
  \<open>actors\<close> is the process-wide registry, \<open>sent\<close> says whether the frame could be sent to the subprocess; when it
  could not, the caller is told so and the call stays in flight.
\<close>

definition handle_invoke ::
  "bytes field \<Rightarrow> CallMessage \<Rightarrow> bool \<Rightarrow> (bytes, 'r Actor) hmap \<Rightarrow> (bytes, 'r Actor) hmap \<times> InvokeReply" where
  "handle_invoke actor_id m sent actors =
     (case (actor_id, call_method m, call_args m, call_result_oid m) of
        (Present a, Present _, Present _, Present oid) \<Rightarrow>
          if call_kwargs m = WrongType then (actors, RejectMalformed)
          else
            (case hm_get actors a of
               None \<Rightarrow> (actors, RejectUnknown)
             | Some ac \<Rightarrow>
                 (case dispatch_call oid ac of
                    (ac', Inr _) \<Rightarrow> (hm_insert a ac' actors, if sent then InvokeAck else RejectSend)
                  | (ac', Inl e) \<Rightarrow> (actors, RejectOther e)))
      | _ \<Rightarrow> (actors, RejectMalformed))"

section \<open>What sealing does to the index\<close>

text \<open>A reference is settled when the driver's index has an entry for it: reading it no longer waits.\<close>

definition settled :: "'r Session option \<Rightarrow> bytes \<Rightarrow> bool" where
  "settled g oid \<longleftrightarrow> (\<exists>s. g = Some s \<and> get_entry (ObjectId oid) (cw_store (ses_worker s)) \<noteq> None)"

lemma store_plasma_delete: "plasma_delete i w = (w', r) \<Longrightarrow> cw_store w' = cw_store w"
  by (auto simp: plasma_delete_def split: option.splits prod.splits sum.splits)

lemma store_spill_to_recoverer: "spill_to_recoverer h i w = (w', r) \<Longrightarrow> cw_store w' = cw_store w"
  by (auto simp: spill_to_recoverer_def Let_def dest: store_plasma_delete
      split: option.splits prod.splits sum.splits RecoveryError.splits if_splits)

lemma store_spill_loop: "spill_loop h limit es current k w = (w', n) \<Longrightarrow> cw_store w' = cw_store w"
proof (induction es arbitrary: current k w)
  case (Cons e es)
  obtain i idx where e: "e = (i, idx)" by fastforce
  obtain w1 q where q: "spill_to_recoverer h i w = (w1, q)" by fastforce
  note k = store_spill_to_recoverer [OF q]
  show ?case
  proof (cases q)
    case (Inl x)
    then show ?thesis using Cons.prems Cons.IH [of current k w1] q k by (auto simp: e split: if_splits)
  next
    case (Inr b)
    then show ?thesis
      using Cons.prems Cons.IH [of "saturating_sub current (idx_data_size idx)" "if b then k + 1 else k" w1] q k
      by (cases b) (auto simp: e split: if_splits)
  qed
qed simp

lemma store_maybe_spill: "cw_store (fst (maybe_spill_for_pressure h w)) = cw_store w"
proof -
  obtain w' n where "maybe_spill_for_pressure h w = (w', n)" by fastforce
  then show ?thesis
    using store_spill_loop by (auto simp: maybe_spill_for_pressure_def Let_def split: if_splits)
qed

lemma seal_store:
  assumes "seal_value_to_plasma h i m d w = (w', r)"
  shows "cw_store w' = (if is_ok r then put_plasma i \<lparr>idx_metadata = m, idx_data_size = of_nat (length d)\<rparr> (cw_store w)
    else cw_store w)"
proof (cases "cw_plasma w")
  case None
  then show ?thesis using assms by (auto simp: seal_value_to_plasma_def is_ok_def)
next
  case (Some st)
  obtain st' q where q: "client_create_and_seal direct_exchange (ObjectId_bytes i) (encode m) d (address_blob w) st = (st', q)"
    by fastforce
  let ?w = "sealed_in_plasma i m d st' w"
  show ?thesis
  proof (cases q)
    case (Inl e)
    then show ?thesis using assms Some q by (auto simp: seal_value_to_plasma_def is_ok_def)
  next
    case (Inr u)
    then have "w' = fst (maybe_spill_for_pressure h ?w)" "is_ok r"
      using assms Some q
      by (auto simp: seal_value_to_plasma_def sealed_in_plasma_def is_ok_def Let_def split: prod.splits)
    then show ?thesis using store_maybe_spill [of h ?w] by (simp add: sealed_in_plasma_def)
  qed
qed

lemma worker_seal_settles:
  assumes "worker_seal py h oid meta d g = (g', r)"
  shows "is_ok r \<Longrightarrow> settled g' oid" and "settled g j \<Longrightarrow> settled g' j"
    and "\<not> is_ok r \<Longrightarrow> settled g' j = settled g j"
proof -
  have "(is_ok r \<longrightarrow> settled g' oid) \<and> (settled g j \<longrightarrow> settled g' j) \<and> (\<not> is_ok r \<longrightarrow> settled g' j = settled g j)"
  proof (cases "length oid = ObjectId_SIZE \<and> (\<exists>m s. decode meta = Inr m \<and> g = Some s)")
    case True
    then obtain m s where k: "length oid = ObjectId_SIZE" "decode meta = Inr m" "g = Some s" by blast
    obtain w q where q: "seal_value_to_plasma h (ObjectId oid) m d (ses_worker s) = (w, q)" by fastforce
    have "\<exists>s'. g' = Some s' \<and> ses_worker s' = w" "is_ok r \<longleftrightarrow> is_ok q"
      using assms k q by (auto simp: worker_seal_def is_ok_def split: sum.splits)
    then show ?thesis
      using seal_store [OF q] k(3) by (auto simp: settled_def get_entry_put_plasma split: if_splits)
  next
    case False
    then show ?thesis
      using assms by (auto simp: worker_seal_def in_session_def require_def is_ok_def split: if_splits sum.splits option.splits)
  qed
  then show "is_ok r \<Longrightarrow> settled g' oid" "settled g j \<Longrightarrow> settled g' j" "\<not> is_ok r \<Longrightarrow> settled g' j = settled g j"
    by blast+
qed

lemma record_seal_settles:
  assumes "record_plasma_seal py oid meta n g = (g', r)"
  shows "is_ok r \<Longrightarrow> settled g' oid" and "settled g j \<Longrightarrow> settled g' j"
  using assms
  by (auto simp: record_plasma_seal_def in_session_def require_def record_seal_def is_ok_def settled_def get_entry_put_plasma
      split: sum.splits option.splits)

lemma seal_all_died_settles:
  assumes "seal_all_died py err h oids g = (g', ok)"
  shows "ok \<Longrightarrow> oid \<in> set oids \<Longrightarrow> settled g' oid" and "settled g j \<Longrightarrow> settled g' j"
proof -
  have "(ok \<longrightarrow> (\<forall>oid\<in>set oids. settled g' oid)) \<and> (\<forall>j. settled g j \<longrightarrow> settled g' j)"
    using assms
  proof (induction oids arbitrary: g)
    case (Cons a oids)
    obtain g1 b where b: "seal_actor_died py err h a g = (g1, b)" by fastforce
    have s1: "b \<Longrightarrow> settled g1 a" "\<And>j. settled g j \<Longrightarrow> settled g1 j"
      using b worker_seal_settles(1,2) by (auto simp: seal_actor_died_def split: option.splits prod.splits) blast+
    show ?case
    proof (cases b)
      case True
      then have "seal_all_died py err h oids g1 = (g', ok)" using Cons.prems b by simp
      from Cons.IH [OF this] show ?thesis using s1 True by auto
    next
      case False
      then show ?thesis using Cons.prems b s1(2) by auto
    qed
  qed simp
  then show "ok \<Longrightarrow> oid \<in> set oids \<Longrightarrow> settled g' oid" "settled g j \<Longrightarrow> settled g' j" by blast+
qed

section \<open>No call is forgotten\<close>

definition actor_inv :: "'r Actor \<Rightarrow> bool" where
  "actor_inv ac \<longleftrightarrow>
     ac_restarts_used ac \<le> ac_max_restarts ac \<and>
     (ac_broken ac \<or>
      (\<forall>oid\<in>ac_accepted ac. oid \<in> ac_in_flight ac \<or> settled (ac_session ac) oid) \<and>
      (ac_dead ac \<longrightarrow> ac_in_flight ac = {}) \<and>
      (ac_dead ac \<or> ac_terminated ac \<or> ac_socket_seq ac \<in> ac_readers ac))"

lemma actor_inv_closed:
  assumes "actor_inv ac" and "set oids = ac_in_flight ac"
  shows "actor_inv (on_socket_closed py err h k oids up ac)"
proof (cases "ac_terminated ac \<or> k \<noteq> ac_socket_seq ac")
  case True
  then show ?thesis using assms(1) by (auto simp: on_socket_closed_def Let_def stop_reader_def actor_inv_def)
next
  case False
  obtain g ok where s: "seal_all_died py err h oids (ac_session ac) = (g, ok)" by fastforce
  note k = seal_all_died_settles [OF s]
  show ?thesis
    using assms False s k
    by (auto simp: on_socket_closed_def Let_def stop_reader_def actor_inv_def mark_actor_dead_def spawn_subprocess_def
        split: prod.splits)
qed

lemma actor_inv_complete:
  assumes "actor_inv ac"
  shows "actor_inv (on_call_complete py k c ac)"
proof -
  obtain g r where r: "record_plasma_seal py (done_oid c) (done_metadata c) (of_nat (done_data_size c)) (ac_session ac) = (g, r)"
    by fastforce
  note k = record_seal_settles [OF r]
  show ?thesis
    using assms r k by (cases r) (auto simp: on_call_complete_def Let_def actor_inv_def stop_reader_def is_ok_def)
qed

lemma actor_inv_others:
  assumes "actor_inv ac"
  shows "actor_inv (fst (dispatch_call oid ac))" "actor_inv (terminate_begin ac)" "actor_inv (terminate_end ac)"
  using assms by (auto simp: dispatch_call_def actor_inv_def terminate_begin_def terminate_end_def)

lemma actor_inv_step: "proc_step py err h op ac ac' \<Longrightarrow> actor_inv ac \<Longrightarrow> actor_inv ac'"
  by (erule proc_step_elim) (simp_all add: actor_inv_others actor_inv_complete actor_inv_closed)

lemma actor_inv_run: "proc_run py err h ac ac' \<Longrightarrow> actor_inv ac \<Longrightarrow> actor_inv ac'"
  by (induction rule: proc_run.induct) (auto intro: actor_inv_step)

lemma actor_inv_new: "actor_inv (new_actor n name g)"
  by (simp add: actor_inv_def new_actor_def)

lemma max_restarts_step: "proc_step py err h op ac ac' \<Longrightarrow> ac_max_restarts ac' = ac_max_restarts ac"
  by (erule proc_step_elim)
    (auto simp: dispatch_call_def on_call_complete_def Let_def stop_reader_def on_socket_closed_def mark_actor_dead_def
      spawn_subprocess_def terminate_begin_def terminate_end_def split: prod.splits sum.splits)

lemma max_restarts_run: "proc_run py err h ac ac' \<Longrightarrow> ac_max_restarts ac' = ac_max_restarts ac"
  by (induction rule: proc_run.induct) (auto dest: max_restarts_step)

section \<open>Stranded calls\<close>

text \<open>Without a reader thread nothing settles any more.\<close>

lemma no_reader_step:
  assumes "proc_step py err h op ac ac'" and "ac_readers ac = {}"
  shows "ac_readers ac' = {} \<and> ac_session ac' = ac_session ac \<and> ac_dead ac' = ac_dead ac"
  using assms by (cases rule: proc_step.cases) (auto simp: dispatch_call_def terminate_begin_def terminate_end_def)

lemma no_reader_run:
  assumes "proc_run py err h ac ac'" and "ac_readers ac = {}"
  shows "ac_readers ac' = {} \<and> ac_session ac' = ac_session ac \<and> ac_dead ac' = ac_dead ac"
  using assms by (induction rule: proc_run.induct) (auto dest: no_reader_step)

lemma seal_present_fails:
  assumes "cw_plasma (ses_worker s) = Some st" and "conn_inv st" and "server_view (snd st) oid \<noteq> Absent" and "rust_slice d"
    and "worker_seal py h oid (encode m) d (Some s) = (g, r)"
  shows "\<not> is_ok r"
proof -
  have dec: "decode (encode m) = Inr m" using decode_encode_append [of m "[]"] by simp
  from create_cases [OF assms(2) metadata_rust_slice assms(4), of oid m "address_blob (ses_worker s)"] show ?thesis
  proof cases
    case (2 st' msg)
    then show ?thesis
      using assms(1,5) dec by (auto simp: worker_seal_def seal_value_to_plasma_def is_ok_def split: if_splits)
  qed (use assms(3) in auto)
qed

section \<open>The result of a call\<close>

definition method_result :: "MethodOutcome \<Rightarrow> (Metadata \<times> bytes) option" where
  "method_result out =
     (case out of
        MethodPickled d \<Rightarrow> Some (Pickle5 False, d)
      | MethodRaised exc \<Rightarrow> map_option (Pair (Error TaskException 0)) (build_error_payload exc))"

lemma call_payload_agrees: "call_payload out = map_option (\<lambda>(m, d). (encode m, d)) (method_result out)"
  by (cases out)
    (simp_all add: call_payload_def method_result_def pickle5_metadata_agrees error_metadata_agrees option.map_comp comp_def
      del: encode.simps)

lemma execute_call_leaves:
  assumes "worker_process ws" and "parse_call m = (Inr (f, a, k, oid) :: ('v WorkerCrash, bytes \<times> bytes \<times> bytes option \<times> bytes) result)"
    and "length oid = 28" and "methods f a k i = (i', Some out)" and "\<forall>md d. method_result out = Some (md, d) \<longrightarrow> rust_slice d"
    and "execute_call (py :: 'v PyEnv) methods h m (i, Some ws) = ((j, g'), Inr c)"
  obtains ws' md d where "g' = Some ws'" "worker_process ws'" "tracked ws' (ObjectId oid)" "method_result out = Some (md, d)"
    "seen_by ws' oid = Sealed (encode md) d" "c = \<lparr>done_oid = oid, done_metadata = encode md, done_data_size = length d\<rparr>"
proof -
  obtain md d where r: "method_result out = Some (md, d)"
    using assms(2,4,6) by (cases "method_result out") (auto simp: execute_call_def call_payload_agrees)
  obtain g1 q where q: "worker_seal py h oid (encode md) d (Some ws) = (g1, q)" by fastforce
  have c: "is_ok q" "g' = g1" "c = \<lparr>done_oid = oid, done_metadata = encode md, done_data_size = length d\<rparr>"
    using assms(2,4,6) r q by (auto simp: execute_call_def call_payload_agrees is_ok_def split: sum.splits)
  have sl: "rust_slice d" using assms(5) r by blast
  show thesis
    by (rule worker_seal_result [OF assms(1) sl assms(3) q]) (use that r c in auto)
qed

text \<open>The driver records the seal of another process.\<close>

lemma record_foreign_seal:
  assumes "session_ok base ds" and "cw_plasma (ses_worker ds) = Some (client, srv)" and "worker_process ws" and "length oid = 28"
    and "record_plasma_seal py oid (encode md) n (Some (set_worker (hand_over (ses_worker ws) (ses_worker ds)) ds)) = (g, r)"
  obtains ds' client' srv' where "g = Some ds'" "r = Inr ()" "session_ok base ds'" "seen_by ds' = seen_by ws"
    "get_entry (ObjectId oid) (cw_store (ses_worker ds')) = Some (Plasma \<lparr>idx_metadata = md, idx_data_size = n\<rparr>)"
    "cw_plasma (ses_worker ds') = Some (client', srv')" "cw_recoverer (ses_worker ds') = cw_recoverer (ses_worker ds)"
proof -
  let ?w = "hand_over (ses_worker ws) (ses_worker ds)"
  let ?w' = "record_seal (ObjectId oid) md n ?w"
  let ?ds = "map_gcs (register_self_local oid) (set_worker ?w' ds)"
  obtain st where st: "cw_plasma (ses_worker ws) = Some st" "conn_inv st"
    using assms(3) unfolding worker_process_def by blast
  note w = hand_over_simps [OF st(1) assms(2)]
  have dec: "decode (encode md) = Inr md" using decode_encode_append [of md "[]"] by simp
  have gr: "g = Some ?ds" "r = Inr ()"
    using assms(4,5) dec by (auto simp: record_plasma_seal_def parse_object_id_28_def)
  have ok: "session_ok base ?ds"
    using assms(1,2) st by (auto simp: session_ok_def cw_ok_def conn_inv_def w record_seal_def split: option.splits)
  show thesis
    by (rule that [OF gr ok, of client "snd st"])
      (use st in \<open>simp_all add: w record_seal_def plasma_view_def get_entry_put_plasma\<close>)
qed

text \<open>An example: a call that returns a pickle of one byte, over an empty store.\<close>

definition example_call :: CallMessage where
  "example_call =
     \<lparr>call_method = Present (ascii ''f''), call_args = Present [], call_kwargs = Missing, call_result_oid = Present (replicate 28 4)\<rparr>"

definition example_methods :: "unit methods" where
  "example_methods f a k i = (i, Some (MethodPickled [7]))"

definition example_done :: CallComplete where
  "example_done = \<lparr>done_oid = replicate 28 4, done_metadata = [1, 0], done_data_size = 1\<rparr>"

lemma example_call_parses: "parse_call example_call = Inr (ascii ''f'', [], None, replicate 28 4)"
  by (simp add: parse_call_def example_call_def)

lemma example_call_runs:
  obtains ws where "execute_call example_env example_methods manager_hook example_call ((), Some example_process) =
    (((), Some ws), Inr example_done)"
proof -
  have len: "length (replicate 28 4 :: bytes) = 28" by simp
  obtain ws n where "worker_seal example_env manager_hook (replicate 28 4) [1, 0] [7] (Some example_process) = (Some ws, Inr n)"
    by (rule example_worker_seal [OF len])
  then show thesis
    using that by (simp add: execute_call_def example_call_parses example_methods_def call_payload_def
        encode_pickle5_metadata_def example_done_def)
qed

definition example_spawn :: SpawnMessage where
  "example_spawn = \<lparr>spawn_class = Present [], spawn_args = Present [], spawn_kwargs = Missing\<rparr>"

definition example_frames :: "bytes \<Rightarrow> ActorMsg option" where
  "example_frames f = Some (if f = [1] then ActorSpawn example_spawn else if f = [2] then ActorCall example_call else ActorShutdown)"

lemma example_spawns: "spawn_instance (\<lambda>_ _ _. Some ()) example_spawn = Inr ()"
  by (simp add: spawn_instance_def example_spawn_def)

definition example_holder :: "conn \<Rightarrow> fs_manager Actor" where
  "example_holder st =
     (new_actor 1 None (Some (set_worker ((ses_worker example_session)\<lparr>cw_plasma := Some st\<rparr>) example_session)))
       \<lparr>ac_in_flight := {replicate 28 1, replicate 28 2}, ac_accepted := {replicate 28 1, replicate 28 2}\<rparr>"

section \<open>Properties\<close>



text \<open>When the subprocess dies after it has sealed the result of a call and before it has reported it, sealing
  the error for that call fails, the exception ends the reader thread in the middle of its work, and the other calls in
  flight are stranded: in no continuation are they ever settled, and the actor is neither restarted nor marked dead.\<close>

lemma seal_failure_strands_calls:
  assumes "ac_readers ac = {ac_socket_seq ac}" and "\<not> ac_terminated ac" and "\<not> ac_dead ac"
    and "ac_session ac = Some s" and "cw_plasma (ses_worker s) = Some st" and "conn_inv st"
    and "server_view (snd st) a \<noteq> Absent" and "build_error_payload err = Some d" and "rust_slice d"
    and "\<not> settled (ac_session ac) b"
    and "proc_run py err h (on_socket_closed py err h (ac_socket_seq ac) (a # oids) up ac) ac'"
  shows "\<not> settled (ac_session ac') b \<and> \<not> ac_dead ac' \<and> ac_readers ac' = {}"
proof -
  obtain g r where r: "worker_seal py h a (encode (Error TaskException 0)) d (Some s) = (g, r)" by fastforce
  have bad: "\<not> is_ok r" by (rule seal_present_fails [OF assms(5,6,7,9) r])
  have "seal_all_died py err h (a # oids) (Some s) = (g, False)"
    using r bad assms(8) by (simp add: seal_actor_died_def error_metadata_agrees del: encode.simps)
  then have "on_socket_closed py err h (ac_socket_seq ac) (a # oids) up ac =
      ac\<lparr>ac_readers := {}, ac_in_flight := {}, ac_session := g, ac_broken := True\<rparr>"
    using assms(1,2,4) by (simp add: on_socket_closed_def Let_def stop_reader_def)
  moreover have "\<not> settled g b" using worker_seal_settles(3) [OF r bad, of b] assms(4,10) by simp
  ultimately show ?thesis using no_reader_run [OF assms(11)] assms(3) by simp
qed

lemma seal_failure_strands_calls_witness:
  "\<exists>st ac. conn_inv st \<and> ac = on_socket_closed example_env (example_error []) manager_hook 1
       [replicate 28 1, replicate 28 2] True (example_holder st) \<and>
     \<not> settled (ac_session ac) (replicate 28 2) \<and> \<not> ac_dead ac \<and> ac_readers ac = {}"
proof -
  obtain st where st: "conn_inv st" "server_view (snd st) (replicate 28 1) = Sealed [2] [9, 8]" by (rule example_object)
  let ?s = "set_worker ((ses_worker example_session)\<lparr>cw_plasma := Some st\<rparr>) example_session"
  have v: "server_view (snd st) (replicate 28 1) \<noteq> Absent" using st(2) by simp
  obtain d where d: "build_error_payload (example_error []) = Some d" "rust_slice d"
    by (simp add: build_error_payload_def struct_pack_I_def example_error_def rust_slice_def)
  have ac: "ac_readers (example_holder st) = {ac_socket_seq (example_holder st)}" "\<not> ac_terminated (example_holder st)"
    "\<not> ac_dead (example_holder st)" "ac_session (example_holder st) = Some ?s" "ac_socket_seq (example_holder st) = 1"
    by (simp_all add: example_holder_def new_actor_def)
  have n: "\<not> settled (ac_session (example_holder st)) (replicate 28 2)"
    by (simp add: ac(4) settled_def example_session_def new_local_def CoreWorker_new_def MemoryStore_new_def get_entry_def)
  have pl: "cw_plasma (ses_worker ?s) = Some st" by simp
  from seal_failure_strands_calls [OF ac(1-4) pl st(1) v d n proc_run.none, of example_env manager_hook "[replicate 28 2]" True]
  show ?thesis using st(1) unfolding ac(5) by (elim conjE) (intro exI [of _ st] exI conjI; (assumption | rule refl))
qed

text \<open>C16. The result of an actor's method reaches the driver: when the subprocess has executed a call and the driver
  has recorded its completion, reading the reference gives the unpickled result of the method, or the exception that the
  method raised, or the one that pickling its result raised.\<close>

theorem actor_result_reaches_driver:
  assumes "worker_process ws" and "session_ok base ds" and "cw_plasma (ses_worker ds) = Some (client, srv)"
    and "parse_call m = (Inr (f, a, k, oid) :: ('v WorkerCrash, bytes \<times> bytes \<times> bytes option \<times> bytes) result)"
    and "length oid = 28" and "methods f a k i = (i', Some out)"
    and "\<forall>md d. method_result out = Some (md, d) \<longrightarrow> rust_slice d"
    and "execute_call (py :: 'v PyEnv) methods h m (i, Some ws) = ((j, Some ws'), Inr c)"
    and "record_plasma_seal py (done_oid c) (done_metadata c) (of_nat (done_data_size c))
      (Some (set_worker (hand_over (ses_worker ws') (ses_worker ds)) ds)) = (g, r)"
    and "ref_id p = ObjectId oid"
  shows "\<exists>ds' md d s. g = Some ds' \<and> r = Inr () \<and> method_result out = Some (md, d) \<and>
    get_one py manager_hook p start timeout ((cw_store (ses_worker ds'), now) # obs) ds' = Some (s, value_from_object py md d)"
proof -
  obtain md d where e: "worker_process ws'" "method_result out = Some (md, d)" "seen_by ws' oid = Sealed (encode md) d"
      "c = \<lparr>done_oid = oid, done_metadata = encode md, done_data_size = length d\<rparr>"
    by (rule execute_call_leaves [where methods = methods, OF assms(1,4-8)]) auto
  obtain ds' client' srv' where d: "g = Some ds'" "r = Inr ()" "session_ok base ds'" "seen_by ds' = seen_by ws'"
      "get_entry (ObjectId oid) (cw_store (ses_worker ds')) = Some (Plasma \<lparr>idx_metadata = md, idx_data_size = of_nat (length d)\<rparr>)"
      "cw_plasma (ses_worker ds') = Some (client', srv')" "cw_recoverer (ses_worker ds') = cw_recoverer (ses_worker ds)"
    by (rule record_foreign_seal [OF assms(2,3) e(1) assms(5), of py md "of_nat (length d)" g r]) (use assms(9) e(4) in auto)
  have "seen_by ds' (ObjectId_bytes (ref_id p)) = Sealed (encode md) d" using d(4) e(3) assms(10) by simp
  moreover have "get_entry (ref_id p) (cw_store (ses_worker ds')) = Some (Plasma \<lparr>idx_metadata = md, idx_data_size = of_nat (length d)\<rparr>)"
    using d(5) assms(10) by simp
  ultimately obtain s where "get_one py manager_hook p start timeout ((cw_store (ses_worker ds'), now) # obs) ds' =
      Some (s, value_from_object py (idx_metadata \<lparr>idx_metadata = md, idx_data_size = of_nat (length d)\<rparr>) d)"
    using get_sealed_object [OF d(3)] by metis
  then show ?thesis using d(1,2) e(2) by auto
qed

theorem actor_result_reaches_driver_witness:
  "\<exists>ws ds r s. execute_call example_env example_methods manager_hook example_call ((), Some example_process) =
      (((), Some ws), Inr example_done) \<and>
    record_plasma_seal example_env (replicate 28 4) [1, 0] 1
      (Some (set_worker (hand_over (ses_worker ws) (ses_worker example_process)) example_process)) = (Some ds, r) \<and>
    get_one example_env manager_hook (from_inner (ObjectRef_new (ObjectId (replicate 28 4)) (cw_address (ses_worker ws))))
      0 None [(cw_store (ses_worker ds), 0)] ds = Some (s, Inr [7])"
proof -
  obtain ws where ws: "execute_call example_env example_methods manager_hook example_call ((), Some example_process) =
      (((), Some ws), Inr example_done)" by (rule example_call_runs)
  let ?p = "from_inner (ObjectRef_new (ObjectId (replicate 28 4)) (cw_address (ses_worker ws)))"
  obtain g r where g: "record_plasma_seal example_env (done_oid example_done) (done_metadata example_done)
      (of_nat (done_data_size example_done)) (Some (set_worker (hand_over (ses_worker ws) (ses_worker example_process)) example_process)) =
      (g, r)" by fastforce
  have m: "example_methods (ascii ''f'') [] None () = ((), Some (MethodPickled [7]))"
    "\<forall>md d. method_result (MethodPickled [7]) = Some (md, d) \<longrightarrow> rust_slice d"
    by (simp_all add: example_methods_def method_result_def rust_slice_def)
  have len: "length (replicate 28 4 :: bytes) = 28" by simp
  have p: "ref_id ?p = ObjectId (replicate 28 4)" by simp
  from actor_result_reaches_driver [OF example_process_ok example_process_simps(1) example_call_parses len m ws g p,
      of 0 None 0 "[]"]
  obtain ds md d s where k: "g = Some ds" "method_result (MethodPickled [7]) = Some (md, d)"
      "get_one example_env manager_hook ?p 0 None [(cw_store (ses_worker ds), 0)] ds = Some (s, value_from_object example_env md d)"
    by blast
  then have "md = Pickle5 False" "d = [7]" by (simp_all add: method_result_def)
  with k ws g show ?thesis
    by (intro exI [of _ ws] exI [of _ ds] exI [of _ r] exI [of _ s])
      (simp add: example_done_def value_from_object_def example_env_def del: replicate.simps)
qed

text \<open>Terminating an actor destroys its results: the subprocess that is asked to shut down after it has answered a
  call deletes everything it sealed from the shared store, so the reference that the driver had settled can no longer be
  read.\<close>

lemma terminate_destroys_results:
  assumes "worker_process ws" and "session_ok base ds" and "cw_plasma (ses_worker ds) = Some (client, srv)"
    and "cw_recoverer (ses_worker ds) = None"
    and "parse_call m = (Inr (f, a, k, oid) :: ('v WorkerCrash, bytes \<times> bytes \<times> bytes option \<times> bytes) result)"
    and "length oid = 28" and "methods f a k i = (i', Some out)"
    and "\<forall>md d. method_result out = Some (md, d) \<longrightarrow> rust_slice d"
    and "execute_call (py :: 'v PyEnv) methods h m (i, Some ws) = ((j, Some ws'), Inr c)"
    and "record_plasma_seal py (done_oid c) (done_metadata c) (of_nat (done_data_size c))
      (Some (set_worker (hand_over (ses_worker ws') (ses_worker ds)) ds)) = (Some ds', r)"
    and "ref_id p = ObjectId oid"
    and "unpickle fs = Some (ActorSpawn sm)" and "spawn_instance construct sm = (Inr i :: ('v WorkerCrash, 'i) result)"
    and "unpickle fc = Some (ActorCall m)" and "unpickle ft = Some ActorShutdown" and "length (dumps c) \<le> MAX_FRAME_BYTES"
  shows "\<exists>w s msg. actor_main py construct methods h unpickle dumps [InFrame fs, InFrame fc, InFrame ft] ws =
      (Some w, [c], Some ExitShutdown) \<and>
    get_one py manager_hook p start timeout ((cw_store (ses_worker ds'), now) # obs)
        (set_worker (hand_over w (ses_worker ds')) ds') =
      Some (s, Inl (PyRuntimeError (ascii ''resolve: '' @ show_core py (CorePlasma (PlasmaServerError NotFound msg)))))"
proof -
  obtain ws2 md d where "Some ws' = Some ws2" and e: "worker_process ws2" "tracked ws2 (ObjectId oid)"
      "method_result out = Some (md, d)" "seen_by ws2 oid = Sealed (encode md) d"
      "c = \<lparr>done_oid = oid, done_metadata = encode md, done_data_size = length d\<rparr>"
    by (rule execute_call_leaves [where methods = methods, OF assms(1,5-9)])
  then have e: "worker_process ws'" "tracked ws' (ObjectId oid)"
      "c = \<lparr>done_oid = oid, done_metadata = encode md, done_data_size = length d\<rparr>" by simp_all
  obtain client' srv' where d: "session_ok base ds'"
      "get_entry (ObjectId oid) (cw_store (ses_worker ds')) = Some (Plasma \<lparr>idx_metadata = md, idx_data_size = of_nat (length d)\<rparr>)"
      "cw_plasma (ses_worker ds') = Some (client', srv')" "cw_recoverer (ses_worker ds') = None"
    by (rule record_foreign_seal [OF assms(2,3) e(1) assms(6), of py md "of_nat (length d)" "Some ds'" r])
      (use assms(4,10) e(3) in auto)
  have main: "actor_main py construct methods h unpickle dumps [InFrame fs, InFrame fc, InFrame ft] ws =
      (Some (free_all_local (ses_worker ws')), [c], Some ExitShutdown)"
    using assms(9,12-16) by (simp add: actor_main_def worker_send_frame_def uninstall_def)
  have t: "tracked ws' (ref_id p)"
    "get_entry (ref_id p) (cw_store (ses_worker ds')) = Some (Plasma \<lparr>idx_metadata = md, idx_data_size = of_nat (length d)\<rparr>)"
    using e(2) d(2) assms(11) by simp_all
  obtain s msg where "get_one py manager_hook p start timeout ((cw_store (ses_worker ds'), now) # obs)
      (set_worker (hand_over (free_all_local (ses_worker ws')) (ses_worker ds')) ds') =
    Some (s, Inl (PyRuntimeError (ascii ''resolve: '' @ show_core py (CorePlasma (PlasmaServerError NotFound msg)))))"
    by (rule read_after_exit [OF e(1) t(1) d(1,3,4) t(2)])
  with main show ?thesis by blast
qed

lemma terminate_destroys_results_witness:
  "\<exists>ws ds r w s msg. execute_call example_env example_methods manager_hook example_call ((), Some example_process) =
      (((), Some ws), Inr example_done) \<and>
    record_plasma_seal example_env (replicate 28 4) [1, 0] 1
      (Some (set_worker (hand_over (ses_worker ws) (ses_worker example_process)) example_process)) = (Some ds, r) \<and>
    actor_main example_env (\<lambda>_ _ _. Some ()) example_methods manager_hook
      example_frames (\<lambda>_. [])
      [InFrame [1], InFrame [2], InFrame [3]] example_process = (Some w, [example_done], Some ExitShutdown) \<and>
    get_one example_env manager_hook (from_inner (ObjectRef_new (ObjectId (replicate 28 4)) (cw_address (ses_worker ws))))
      0 None [(cw_store (ses_worker ds), 0)] (set_worker (hand_over w (ses_worker ds)) ds) = Some (s, Inl (PyRuntimeError msg))"
proof -
  obtain ws where ws: "execute_call example_env example_methods manager_hook example_call ((), Some example_process) =
      (((), Some ws), Inr example_done)" by (rule example_call_runs)
  let ?p = "from_inner (ObjectRef_new (ObjectId (replicate 28 4)) (cw_address (ses_worker ws)))"
  let ?seal = "record_plasma_seal example_env (done_oid example_done) (done_metadata example_done)
      (of_nat (done_data_size example_done)) (Some (set_worker (hand_over (ses_worker ws) (ses_worker example_process)) example_process))"
  have "\<exists>ds r. ?seal = (Some ds, r)"
    by (simp add: record_plasma_seal_def example_done_def parse_object_id_28_def decode_def DISCRIMINATOR_PICKLE5_def)
  then obtain ds r where g: "?seal = (Some ds, r)" by blast
  have m: "example_methods (ascii ''f'') [] None () = ((), Some (MethodPickled [7]))"
    "\<forall>md d. method_result (MethodPickled [7]) = Some (md, d) \<longrightarrow> rust_slice d"
    by (simp_all add: example_methods_def method_result_def rust_slice_def)
  have len: "length (replicate 28 4 :: bytes) = 28" by simp
  have p: "ref_id ?p = ObjectId (replicate 28 4)" by simp
  have "\<exists>w s msg. actor_main example_env (\<lambda>_ _ _. Some ()) example_methods manager_hook example_frames (\<lambda>_. [])
      [InFrame [1], InFrame [2], InFrame [3]] example_process = (Some w, [example_done], Some ExitShutdown) \<and>
    get_one example_env manager_hook ?p 0 None ((cw_store (ses_worker ds), 0) # []) (set_worker (hand_over w (ses_worker ds)) ds) =
      Some (s, Inl (PyRuntimeError (ascii ''resolve: '' @ show_core example_env (CorePlasma (PlasmaServerError NotFound msg)))))"
    by (rule terminate_destroys_results [OF example_process_ok example_process_simps(1,2) example_call_parses len m ws g p
        _ example_spawns]) (simp_all add: example_frames_def)
  then obtain w s msg where "actor_main example_env (\<lambda>_ _ _. Some ()) example_methods manager_hook example_frames (\<lambda>_. [])
      [InFrame [1], InFrame [2], InFrame [3]] example_process = (Some w, [example_done], Some ExitShutdown)"
    "get_one example_env manager_hook ?p 0 None [(cw_store (ses_worker ds), 0)] (set_worker (hand_over w (ses_worker ds)) ds) =
      Some (s, Inl (PyRuntimeError msg))" by blast
  with ws g [unfolded example_done_def CallComplete.simps, simplified of_nat_1 One_nat_def [symmetric]] show ?thesis
    by (intro exI conjI)
qed

end
