(* ===== verification/Peer_Fetch.thy ===== *)
theory Peer_Fetch
imports Driver_Session
begin

text \<open>
  Fetching an object from another node: \<open>fetch_object\<close> of \<open>rayd-py/src/lib.rs\<close>, the pool of channels of
  \<open>raylet_pool.rs\<close>, the calls of \<open>gcs.rs\<close> over it and the client of \<open>rayd-raylet/src/client.rs\<close>.  The
  gRPC channel is a parameter \<open>Transport\<close>: how a channel is opened and what each call through it answers.
  A result \<open>None\<close> is a panic of the caller.  The nodes of a cluster answer a transport with the handlers of
  their raylets.
\<close>

section \<open>Addresses\<close>

definition short_hex :: "bytes \<Rightarrow> bytes" where
  "short_hex i = hex_lower (take 4 i)"

text \<open>\<open>resolve\<close> is the resolver of the operating system, \<open>None\<close> when it fails.\<close>

definition dial :: "(bytes \<Rightarrow> nat \<Rightarrow> SocketAddr list option) \<Rightarrow> NodeAddress \<Rightarrow> SocketAddr option" where
  "dial resolve a =
     (if 65536 \<le> unat (addr_port a) then None
      else (case resolve (addr_host a) (unat (addr_port a)) of Some (x # _) \<Rightarrow> Some x | _ \<Rightarrow> None))"

fun raylet_addr_for ::
  "(bytes \<Rightarrow> nat \<Rightarrow> SocketAddr list option) \<Rightarrow> NodeInfo list \<Rightarrow> bytes \<Rightarrow> SocketAddr option" where
  "raylet_addr_for resolve [] node_id = None"
| "raylet_addr_for resolve (n # ns) node_id =
     (case ni_address n of
        None \<Rightarrow> raylet_addr_for resolve ns node_id
      | Some a \<Rightarrow>
          if length (addr_node_id a) \<noteq> 16 \<or> addr_node_id a \<noteq> node_id then raylet_addr_for resolve ns node_id
          else dial resolve a)"

text \<open>The copy in \<open>gcs.rs\<close> gives up at a node without an address.\<close>

fun owner_addr_for ::
  "(bytes \<Rightarrow> nat \<Rightarrow> SocketAddr list option) \<Rightarrow> NodeInfo list \<Rightarrow> bytes \<Rightarrow> SocketAddr option" where
  "owner_addr_for resolve [] node_id = None"
| "owner_addr_for resolve (n # ns) node_id =
     (case ni_address n of
        None \<Rightarrow> None
      | Some a \<Rightarrow>
          if length (addr_node_id a) \<noteq> 16 \<or> addr_node_id a \<noteq> node_id then owner_addr_for resolve ns node_id
          else dial resolve a)"

section \<open>Channels\<close>

type_synonym 'a rpc_result = "(ObjectTransportClientError, 'a) result option"

record ('c, 'n) Transport =
  tr_connect :: "SocketAddr \<Rightarrow> 'n \<Rightarrow> (ObjectTransportClientError, 'c) result"
  tr_pull :: "'c \<Rightarrow> bytes \<Rightarrow> 'n \<Rightarrow> 'n \<times> (GrpcStatus, (GrpcStatus, PullKind option) result list) result"
  tr_push :: "'c \<Rightarrow> PushKind list \<Rightarrow> 'n \<Rightarrow> 'n \<times> (GrpcStatus, unit) result"
  tr_locations :: "'c \<Rightarrow> bytes \<Rightarrow> 'n \<Rightarrow> 'n \<times> (GrpcStatus, bytes list) result"
  tr_register :: "'c \<Rightarrow> bytes \<Rightarrow> bytes \<Rightarrow> 'n \<Rightarrow> 'n \<times> (GrpcStatus, unit) result"
  tr_ref_removed :: "'c \<Rightarrow> bytes \<Rightarrow> bytes \<Rightarrow> 'n \<Rightarrow> 'n \<times> (GrpcStatus, unit) result"

type_synonym 'c RayletConnPool = "(SocketAddr, 'c) hmap"

definition get_or_connect ::
  "(SocketAddr \<Rightarrow> (ObjectTransportClientError, 'c) result) \<Rightarrow> SocketAddr \<Rightarrow> 'c RayletConnPool \<Rightarrow>
     'c RayletConnPool \<times> (ObjectTransportClientError, 'c) result" where
  "get_or_connect build addr pool =
     (case hm_get pool addr of
        Some ch \<Rightarrow> (pool, Inr ch)
      | None \<Rightarrow> (case build addr of Inl e \<Rightarrow> (pool, Inl e) | Inr ch \<Rightarrow> (hm_insert addr ch pool, Inr ch)))"

definition pool_evict :: "SocketAddr \<Rightarrow> 'c RayletConnPool \<Rightarrow> 'c RayletConnPool" where
  "pool_evict addr pool = hm_remove addr pool"

definition should_evict :: "ObjectTransportClientError \<Rightarrow> bool" where
  "should_evict e \<longleftrightarrow> (case e of TransportRpc st \<Rightarrow> status_code st = Unavailable | _ \<Rightarrow> False)"

text \<open>The pattern of every call: a pooled channel, the call, and eviction when the server is gone.\<close>

definition pooled ::
  "('c, 'n) Transport \<Rightarrow> SocketAddr \<Rightarrow> ('c \<Rightarrow> 'n \<Rightarrow> 'n \<times> 'a rpc_result) \<Rightarrow> 'c RayletConnPool \<times> 'n \<Rightarrow>
     ('c RayletConnPool \<times> 'n) \<times> 'a rpc_result" where
  "pooled tr addr rpc pn =
     (case pn of
        (pool, net) \<Rightarrow>
          (case get_or_connect (\<lambda>a. tr_connect tr a net) addr pool of
             (pool1, Inl e) \<Rightarrow> ((pool1, net), Some (Inl e))
           | (pool1, Inr c) \<Rightarrow>
               (case rpc c net of
                  (net1, Some (Inl e)) \<Rightarrow>
                    ((if should_evict e then pool_evict addr pool1 else pool1, net1), Some (Inl e))
                | (net1, r) \<Rightarrow> ((pool1, net1), r))))"

section \<open>The calls\<close>

fun parse_locations :: "bytes list \<Rightarrow> bytes list \<Rightarrow> (ObjectTransportClientError, bytes list) result" where
  "parse_locations acc [] = Inr acc"
| "parse_locations acc (raw # raws) =
     (if length raw \<noteq> 16
      then Inl (TransportMalformed (ascii ''node_id must be 16 bytes, got '' @ dec_digits (length raw)))
      else parse_locations (acc @ [raw]) raws)"

definition of_status :: "(GrpcStatus, 'a) result \<Rightarrow> (ObjectTransportClientError, 'a) result" where
  "of_status r = map_err TransportRpc r"

definition client_pull ::
  "(PullKind option \<Rightarrow> bytes) \<Rightarrow> ('c, 'n) Transport \<Rightarrow> bytes \<Rightarrow> 'c \<Rightarrow> 'n \<Rightarrow> 'n \<times> PulledObject rpc_result" where
  "client_pull dbg tr oid c net = (case tr_pull tr c oid net of (net', reply) \<Rightarrow> (net', transport_pull dbg reply))"

definition client_push :: "('c, 'n) Transport \<Rightarrow> bytes \<Rightarrow> bytes \<Rightarrow> bytes \<Rightarrow> 'c \<Rightarrow> 'n \<Rightarrow> 'n \<times> unit rpc_result" where
  "client_push tr oid md d c net =
     (case tr_push tr c (push_frames oid md d) net of (net', r) \<Rightarrow> (net', Some (of_status r)))"

definition client_locations :: "('c, 'n) Transport \<Rightarrow> bytes \<Rightarrow> 'c \<Rightarrow> 'n \<Rightarrow> 'n \<times> bytes list rpc_result" where
  "client_locations tr oid c net =
     (case tr_locations tr c oid net of
        (net', Inl e) \<Rightarrow> (net', Some (Inl (TransportRpc e)))
      | (net', Inr raws) \<Rightarrow> (net', Some (parse_locations [] raws)))"

definition client_register :: "('c, 'n) Transport \<Rightarrow> bytes \<Rightarrow> bytes \<Rightarrow> 'c \<Rightarrow> 'n \<Rightarrow> 'n \<times> unit rpc_result" where
  "client_register tr oid node c net =
     (case tr_register tr c oid node net of (net', r) \<Rightarrow> (net', Some (of_status r)))"

definition client_ref_removed :: "('c, 'n) Transport \<Rightarrow> bytes \<Rightarrow> bytes \<Rightarrow> 'c \<Rightarrow> 'n \<Rightarrow> 'n \<times> unit rpc_result" where
  "client_ref_removed tr oid node c net =
     (case tr_ref_removed tr c oid node net of (net', r) \<Rightarrow> (net', Some (of_status r)))"

definition pull_from where
  "pull_from dbg tr addr oid = pooled tr addr (client_pull dbg tr oid)"

definition push_to where
  "push_to tr addr oid md d = pooled tr addr (client_push tr oid md d)"

definition get_object_locations_at where
  "get_object_locations_at tr addr oid = pooled tr addr (client_locations tr oid)"

definition register_object_at where
  "register_object_at tr addr oid holder = pooled tr addr (client_register tr oid holder)"

definition notify_ref_removed_at where
  "notify_ref_removed_at tr addr oid borrower pn = fst (pooled tr addr (client_ref_removed tr oid borrower) pn)"

text \<open>\<open>listed\<close> is the answer of the control store to \<open>list_nodes\<close>, with the display of its error.\<close>

definition notify_owner_of_drop ::
  "(bytes \<Rightarrow> nat \<Rightarrow> SocketAddr list option) \<Rightarrow> ('c, 'n) Transport \<Rightarrow> (bytes, NodeInfo list) result \<Rightarrow>
     GcsBinding \<Rightarrow> bytes \<Rightarrow> bytes \<Rightarrow> 'c RayletConnPool \<times> 'n \<Rightarrow> 'c RayletConnPool \<times> 'n" where
  "notify_owner_of_drop resolve tr listed b owner oid pn =
     (case listed of
        Inl e \<Rightarrow> pn
      | Inr ns \<Rightarrow>
          (case owner_addr_for resolve ns owner of
             None \<Rightarrow> pn
           | Some addr \<Rightarrow> notify_ref_removed_at tr addr oid (gb_node_id b) pn))"

section \<open>Fetching\<close>

record ('c, 'n, 'r) Driver =
  dr_session :: "'r Session option"
  dr_pool :: "'c RayletConnPool"
  dr_net :: 'n

text \<open>The outcome of a call as the entry point reports it.\<close>

definition rpc_outcome :: "'v PyEnv \<Rightarrow> string \<Rightarrow> 'a rpc_result \<Rightarrow> ('v PyErr, 'a) result" where
  "rpc_outcome py what r =
     (case r of
        None \<Rightarrow> Inl PyPanic
      | Some (Inl e) \<Rightarrow> Inl (PyRuntimeError (ascii what @ ascii ''transport: '' @ show_transport py e))
      | Some (Inr x) \<Rightarrow> Inr x)"

definition on_net ::
  "'v PyEnv \<Rightarrow> string \<Rightarrow> ('c RayletConnPool \<times> 'n \<Rightarrow> ('c RayletConnPool \<times> 'n) \<times> 'a rpc_result) \<Rightarrow>
     ('c, 'n, 'r) Driver \<Rightarrow> ('c, 'n, 'r) Driver \<times> ('v PyErr, 'a) result" where
  "on_net py what call dr =
     (case call (dr_pool dr, dr_net dr) of
        ((pool, net), r) \<Rightarrow> (dr\<lparr>dr_pool := pool, dr_net := net\<rparr>, rpc_outcome py what r))"

definition and_then ::
  "('s \<Rightarrow> 's \<times> ('e, 'a) result) \<Rightarrow> ('a \<Rightarrow> 's \<Rightarrow> 's \<times> ('e, 'b) result) \<Rightarrow> 's \<Rightarrow> 's \<times> ('e, 'b) result" where
  "and_then f k s = (case f s of (s', Inl e) \<Rightarrow> (s', Inl e) | (s', Inr x) \<Rightarrow> k x s')"

definition choose_holder :: "bytes \<Rightarrow> bytes list \<Rightarrow> bytes option" where
  "choose_holder local locations =
     (case find (\<lambda>n. n \<noteq> local) locations of
        Some n \<Rightarrow> Some n
      | None \<Rightarrow> (case locations of [] \<Rightarrow> None | n # _ \<Rightarrow> Some n))"

text \<open>Steps 1 to 3: the owner's address, the replicas it knows and the holder to ask.\<close>

definition fetch_locate ::
  "'v PyEnv \<Rightarrow> (bytes \<Rightarrow> nat \<Rightarrow> SocketAddr list option) \<Rightarrow> ('c, 'n) Transport \<Rightarrow> NodeInfo list \<Rightarrow> bytes \<Rightarrow>
     bytes \<Rightarrow> bytes \<Rightarrow> ('c, 'n, 'r) Driver \<Rightarrow> ('c, 'n, 'r) Driver \<times> ('v PyErr, SocketAddr \<times> SocketAddr) result" where
  "fetch_locate py resolve tr ns local oid owner dr =
     (case raylet_addr_for resolve ns owner of
        None \<Rightarrow> (dr, Inl (PyRuntimeError (ascii ''owner node '' @ short_hex owner @ ascii '' not found in GCS'')))
      | Some owner_addr \<Rightarrow>
          and_then (on_net py ''get_object_locations: '' (get_object_locations_at tr owner_addr oid))
            (\<lambda>locations dr1.
               (dr1,
                case choose_holder local locations of
                  None \<Rightarrow> Inl (PyRuntimeError (ascii ''no holder registered for object '' @ short_hex oid))
                | Some holder \<Rightarrow>
                    (case raylet_addr_for resolve ns holder of
                       None \<Rightarrow> Inl (PyRuntimeError (ascii ''holder node '' @ short_hex holder @ ascii '' not found in GCS''))
                     | Some holder_addr \<Rightarrow> Inr (owner_addr, holder_addr)))) dr)"

text \<open>Step 5: an object that is already there is fine.\<close>

definition fetch_seal ::
  "'v PyEnv \<Rightarrow> 'r hook \<Rightarrow> bytes \<Rightarrow> PulledObject \<Rightarrow> ('c, 'n, 'r) Driver \<Rightarrow> ('c, 'n, 'r) Driver \<times> ('v PyErr, unit) result" where
  "fetch_seal py h oid pulled dr =
     (case decode (pulled_metadata pulled) of
        Inl e \<Rightarrow> (dr, Inl (PyRuntimeError (ascii ''decode metadata: '' @ show_metadata_error py e)))
      | Inr m \<Rightarrow>
          (case dr_session dr of
             None \<Rightarrow> (dr, Inl (PyRuntimeError not_initialized))
           | Some s \<Rightarrow>
               (case seal_value_to_plasma h (ObjectId oid) m (pulled_data pulled) (ses_worker s) of
                  (w, r) \<Rightarrow>
                    (dr\<lparr>dr_session := Some (set_worker w s)\<rparr>,
                     case r of
                       Inr _ \<Rightarrow> Inr ()
                     | Inl (CorePlasma e) \<Rightarrow>
                         if is_already_exists e then Inr ()
                         else Inl (PyRuntimeError (ascii ''seal_into_plasma: '' @ show_core py (CorePlasma e)))
                     | Inl e \<Rightarrow> Inl (PyRuntimeError (ascii ''seal_into_plasma: '' @ show_core py e))))))"

definition fetch_object ::
  "'v PyEnv \<Rightarrow> (PullKind option \<Rightarrow> bytes) \<Rightarrow> 'r hook \<Rightarrow> (bytes \<Rightarrow> nat \<Rightarrow> SocketAddr list option) \<Rightarrow>
     ('c, 'n) Transport \<Rightarrow> (bytes, NodeInfo list) result \<Rightarrow> bytes \<Rightarrow> bytes \<Rightarrow> ('c, 'n, 'r) Driver \<Rightarrow>
     ('c, 'n, 'r) Driver \<times> ('v PyErr, unit) result" where
  "fetch_object py dbg h resolve tr listed raw_oid raw_owner dr =
     (case parse_object_id_28 raw_oid of
        Inl e \<Rightarrow> (dr, Inl e)
      | Inr oid \<Rightarrow>
          (case parse_node_id_16 raw_owner of
             Inl e \<Rightarrow> (dr, Inl e)
           | Inr owner \<Rightarrow>
               (case require (dr_session dr) of
                  Inl e \<Rightarrow> (dr, Inl e)
                | Inr s \<Rightarrow>
                    (case ses_gcs s of
                       None \<Rightarrow> (dr, Inl (PyRuntimeError no_gcs))
                     | Some b \<Rightarrow>
                         (case listed of
                            Inl e \<Rightarrow> (dr, Inl (PyRuntimeError (ascii ''list_nodes: '' @ e)))
                          | Inr ns \<Rightarrow>
                              and_then (fetch_locate py resolve tr ns (gb_node_id b) oid owner)
                                (\<lambda>(owner_addr, holder_addr).
                                   and_then (on_net py ''pull: '' (pull_from dbg tr holder_addr oid))
                                     (\<lambda>pulled. and_then (fetch_seal py h oid pulled)
                                        (\<lambda>_. on_net py ''register at owner: ''
                                           (register_object_at tr owner_addr oid (gb_node_id b))))) dr)))))"

section \<open>A cluster of raylets\<close>

text \<open>
  The servers behind a transport: a raylet per address, a channel is an address.  \<open>order\<close> is the order in
  which a hash set is listed.  An address without a raylet does not connect; through an open channel it is
  unavailable, and so is a handler that panics.
\<close>

type_synonym cluster = "(SocketAddr, Raylet) hmap"

definition at_node ::
  "SocketAddr \<Rightarrow> (Raylet \<Rightarrow> Raylet \<times> (GrpcStatus, 'a) result) \<Rightarrow> cluster \<Rightarrow> cluster \<times> (GrpcStatus, 'a) result" where
  "at_node a f cl =
     (case hm_get cl a of
        None \<Rightarrow> (cl, Inl (GrpcStatus Unavailable []))
      | Some r \<Rightarrow> (case f r of (r', x) \<Rightarrow> (hm_insert a r' cl, x)))"

definition cluster_transport ::
  "(PlasmaError \<Rightarrow> bytes) \<Rightarrow> (bytes set \<Rightarrow> bytes list) \<Rightarrow> (SocketAddr, cluster) Transport" where
  "cluster_transport lib order =
     \<lparr>tr_connect = (\<lambda>a cl. if hm_contains cl a then Inr a else Inl TransportConnect),
      tr_pull = (\<lambda>a oid. at_node a (\<lambda>r.
        case raylet_pull lib oid r of (r', x) \<Rightarrow> (r', map_ok (map (\<lambda>k. Inr (Some k))) x))),
      tr_push = (\<lambda>a frames. at_node a (\<lambda>r.
        case raylet_push lib (map (\<lambda>k. Inr (Some k)) frames) r of
          (r', None) \<Rightarrow> (r', Inl (GrpcStatus Unavailable []))
        | (r', Some x) \<Rightarrow> (r', x))),
      tr_locations = (\<lambda>a oid. at_node a (\<lambda>r.
        case raylet_get_object_locations oid r of (r', x) \<Rightarrow> (r', map_ok order x))),
      tr_register = (\<lambda>a oid node. at_node a (raylet_register_object oid node)),
      tr_ref_removed = (\<lambda>a oid node. at_node a (raylet_wait_for_ref_removed oid node))\<rparr>"

section \<open>Calls into a cluster\<close>

text \<open>A pooled channel to an address leads to that address.\<close>

definition pool_ok :: "SocketAddr RayletConnPool \<Rightarrow> bool" where
  "pool_ok pool \<longleftrightarrow> (\<forall>a c. hm_get pool a = Some c \<longrightarrow> c = a)"

lemma pooled_at_node:
  assumes "pool_ok pool" and "hm_contains cl a" and "rpc a cl = (cl', x)"
  obtains pool' where "pooled (cluster_transport lib order) a rpc (pool, cl) = ((pool', cl'), x)" "pool_ok pool'"
proof -
  have conn: "tr_connect (cluster_transport lib order) a cl = Inr a"
    using assms(2) by (simp add: cluster_transport_def)
  obtain pool1 where p: "get_or_connect (\<lambda>b. tr_connect (cluster_transport lib order) b cl) a pool = (pool1, Inr a)"
      "pool_ok pool1"
    using assms(1) conn by (cases "hm_get pool a") (auto simp: get_or_connect_def pool_ok_def split: if_splits)
  have ev: "pool_ok (pool_evict a pool1)"
    using p(2) by (auto simp: pool_ok_def pool_evict_def delete_conv' split: if_splits)
  consider "x = None" | e where "x = Some (Inl e)" | b where "x = Some (Inr b)"
    by (cases x) (metis sum.exhaust)+
  then show thesis
  proof cases
    case 2
    then show thesis
      using that [of "if should_evict e then pool_evict a pool1 else pool1"] p ev assms(3) by (simp add: pooled_def)
  qed (use that p assms(3) in \<open>simp_all add: pooled_def\<close>)
qed

lemma at_node_some: "hm_get cl a = Some r \<Longrightarrow> f r = (r', x) \<Longrightarrow> at_node a f cl = (hm_insert a r' cl, x)"
  by (simp add: at_node_def)

lemma parse_locations_ok: "list_all (\<lambda>n. length n = 16) raws \<Longrightarrow> parse_locations acc raws = Inr (acc @ raws)"
  by (induction raws arbitrary: acc) auto

lemma on_net_at:
  assumes "pool_ok (dr_pool dr)" and "hm_contains (dr_net dr) a" and "rpc a (dr_net dr) = (net', Some (Inr x))"
  obtains pool' where
    "on_net py what (pooled (cluster_transport lib order) a rpc) dr = (dr\<lparr>dr_pool := pool', dr_net := net'\<rparr>, Inr x)"
    "pool_ok pool'"
  by (rule pooled_at_node [OF assms(1,2), of rpc net' "Some (Inr x)" lib order])
    (simp_all add: assms(3) on_net_def rpc_outcome_def that)

text \<open>What a raylet holds and has recorded.\<close>

definition node_state :: "Raylet \<Rightarrow> bool \<times> (bytes \<Rightarrow> slot_state) \<times> ObjectDirectory \<times> SinkCall list option" where
  "node_state r = (conn_inv (rl_plasma r), raylet_view r, rl_directory r, sink_calls r)"

text \<open>A raylet that answers a pull keeps what its other answers are about.\<close>

lemma raylet_pull_sealed:
  assumes "conn_inv (rl_plasma r)" and "length oid = 28" and "raylet_view r oid = Sealed md d"
  obtains r' frames where "raylet_pull lib oid r = (r', Inr frames)"
    "transport_pull dbg (Inr (map (\<lambda>k. Inr (Some k)) frames)) = Some (Inr \<lparr>pulled_metadata = md, pulled_data = d\<rparr>)"
    "node_state r' = node_state r"
proof -
  let ?r = "raylet_metric (\<lambda>x. x\<lparr>pull_total := pull_total x + 1\<rparr>) r"
  obtain st where st: "client_get_bytes direct_exchange oid (rl_plasma r) = (st, Inr (md, d))" "conn_inv st"
      "server_view (snd st) = raylet_view r"
    using plasma.get_sealed [OF assms(1,3)] by blast
  have "rust_slice d" using sealed_rust_slice [OF assms(1,3)] by simp
  from pull_frames_reassemble [OF this, of dbg md] show thesis
    using that [of "?r\<lparr>rl_plasma := st\<rparr>" "PullMeta md (of_nat (length d)) # pull_loop d 0"] st assms(1,2)
    by (simp add: node_state_def raylet_pull_def parse_object_id_def plasma_get_with_restore_def)
qed

definition same_nodes :: "cluster \<Rightarrow> cluster \<Rightarrow> bool" where
  "same_nodes cl cl' \<longleftrightarrow> (\<forall>a. map_option node_state (hm_get cl' a) = map_option node_state (hm_get cl a))"

lemma same_nodes_get:
  assumes "same_nodes cl cl'" and "hm_get cl a = Some r"
  obtains r' where "hm_get cl' a = Some r'" "node_state r' = node_state r"
  using assms unfolding same_nodes_def by (metis map_option_eq_Some option.simps(9))

lemma same_nodes_trans: "same_nodes a b \<Longrightarrow> same_nodes b c \<Longrightarrow> same_nodes a c"
  by (simp add: same_nodes_def)

lemma same_nodes_update: "hm_get cl a = Some r \<Longrightarrow> node_state r' = node_state r \<Longrightarrow> same_nodes cl (hm_insert a r' cl)"
  by (simp add: same_nodes_def)

lemma locations_call:
  assumes "hm_get cl a = Some r" and "length oid = 28"
    and "list_all (\<lambda>n. length n = 16) (order (directory_locations oid (rl_directory r)))"
  obtains r' where "client_locations (cluster_transport lib order) oid a cl =
      (hm_insert a r' cl, Some (Inr (order (directory_locations oid (rl_directory r)))))" "node_state r' = node_state r"
  using that [of "fst (raylet_get_object_locations oid r)"] assms
  by (simp add: client_locations_def cluster_transport_def at_node_def raylet_get_object_locations_def Let_def
      parse_object_id_def map_ok_def parse_locations_ok node_state_def)

lemma pull_call:
  assumes "hm_get cl a = Some r" and "length oid = 28"
    and "conn_inv (rl_plasma r)" and "raylet_view r oid = Sealed md d"
  obtains r' where "client_pull dbg (cluster_transport lib order) oid a cl =
      (hm_insert a r' cl, Some (Inr \<lparr>pulled_metadata = md, pulled_data = d\<rparr>))" "node_state r' = node_state r"
  by (rule raylet_pull_sealed [OF assms(3,2,4), of lib dbg])
    (use that assms(1) in \<open>auto simp: client_pull_def cluster_transport_def at_node_def map_ok_def\<close>)

lemma register_call:
  assumes "hm_get cl a = Some r" and "length oid = 28" and "length node = 16"
  obtains r' where "client_register (cluster_transport lib order) oid node a cl = (hm_insert a r' cl, Some (Inr ()))"
    "rl_directory r' = directory_register oid node (rl_directory r)"
    "sink_calls r' = map_option (\<lambda>cs. cs @ [SinkAddBorrower oid node]) (sink_calls r)"
  using that [of "fst (raylet_register_object oid node r)"] assms
  by (simp add: client_register_def cluster_transport_def at_node_def raylet_register_object_def Let_def
      parse_object_id_def parse_node_id_def of_status_def map_err_def)

lemma fetch_locate_finds:
  assumes "pool_ok (dr_pool dr)" and "raylet_addr_for resolve ns owner = Some oa" and "hm_get (dr_net dr) oa = Some ow"
    and "length oid = 28" and "list_all (\<lambda>n. length n = 16) (order (directory_locations oid (rl_directory ow)))"
    and "choose_holder local (order (directory_locations oid (rl_directory ow))) = Some holder"
    and "raylet_addr_for resolve ns holder = Some ha"
  obtains pool' net' where "fetch_locate py resolve (cluster_transport lib order) ns local oid owner dr =
      (dr\<lparr>dr_pool := pool', dr_net := net'\<rparr>, Inr (oa, ha))" "pool_ok pool'" "same_nodes (dr_net dr) net'"
proof -
  obtain ow' where call: "client_locations (cluster_transport lib order) oid oa (dr_net dr) =
      (hm_insert oa ow' (dr_net dr), Some (Inr (order (directory_locations oid (rl_directory ow)))))"
      "node_state ow' = node_state ow"
    by (rule locations_call [where order = order, OF assms(3,4,5)])
  have "hm_contains (dr_net dr) oa" using assms(3) by (simp add: hm_contains_def)
  from on_net_at [where rpc = "client_locations (cluster_transport lib order) oid", OF assms(1) this call(1), of py "''get_object_locations: ''" lib order]
  obtain pool' where "on_net py ''get_object_locations: '' (get_object_locations_at (cluster_transport lib order) oa oid) dr =
      (dr\<lparr>dr_pool := pool', dr_net := hm_insert oa ow' (dr_net dr)\<rparr>,
       Inr (order (directory_locations oid (rl_directory ow))))" "pool_ok pool'"
    unfolding get_object_locations_at_def by blast
  then show thesis
    using that same_nodes_update [OF assms(3) call(2)] assms(2,6,7) by (simp add: fetch_locate_def and_then_def)
qed

text \<open>Sealing a fetched object that is not there yet.\<close>

lemma seal_absent_cases:
  assumes "session_ok base s" and "cw_plasma (ses_worker s) = Some st" and "server_view (snd st) (ObjectId_bytes i) = Absent"
    and "rust_slice d" and "seal_value_to_plasma manager_hook i m d (ses_worker s) = (w, r)"
  obtains n where "r = Inr n" "sealed_session base i m d s (set_worker w s)"
  | msg where "r = Inl (CorePlasma (PlasmaServerError OutOfMemory msg))" "worker_value w = session_value s"
proof -
  have inv: "conn_inv st" using assms(1,2) by (simp add: session_ok_def cw_ok_def)
  note k = localfs.hook.seal_value_to_plasma_result [OF session_okD [OF assms(1)] assms(4) assms(5) [unfolded manager_hook_eq]]
  from create_cases [OF inv metadata_rust_slice assms(4), of "ObjectId_bytes i" m "address_blob (ses_worker s)"]
  consider n where "r = Inr n" | msg where "r = Inl (CorePlasma (PlasmaServerError OutOfMemory msg))"
    by cases (use assms(2,3,5) in \<open>auto simp: seal_value_to_plasma_def Let_def split: prod.splits\<close>)
  then show thesis
  proof cases
    case (1 n)
    then have "sealed_session base i m d s (set_worker w s)"
      using seal_to_plasma_session [OF assms(1,4), of i m "ses_worker s" w n "set_worker w s"] assms(5)
        session_okD [OF assms(1)] by simp
    with 1 that(1) show thesis by blast
  next
    case 2
    then show thesis using that(2) k by (simp add: is_ok_def)
  qed
qed

text \<open>A node that a driver can dial and that has the object.\<close>

definition serves ::
  "(bytes \<Rightarrow> nat \<Rightarrow> SocketAddr list option) \<Rightarrow> NodeInfo list \<Rightarrow> cluster \<Rightarrow> bytes \<Rightarrow> bytes \<Rightarrow> bytes \<Rightarrow> bytes \<Rightarrow> bool" where
  "serves resolve ns cl oid md d n \<longleftrightarrow>
     (\<exists>a r. raylet_addr_for resolve ns n = Some a \<and> hm_get cl a = Some r \<and> conn_inv (rl_plasma r) \<and>
        raylet_view r oid = Sealed md d)"

lemma choose_holder_other:
  assumes "set locations - {local} \<noteq> {}"
  obtains n where "choose_holder local locations = Some n" "n \<in> set locations - {local}"
proof -
  obtain n where "find (\<lambda>n. n \<noteq> local) locations = Some n"
    using assms by (cases "find (\<lambda>n. n \<noteq> local) locations") (auto simp: find_None_iff)
  moreover from this have "n \<in> set locations - {local}" by (auto simp: find_Some_iff)
  ultimately show thesis using that by (simp add: choose_holder_def)
qed

lemma node_stateD:
  "node_state r' = node_state r \<Longrightarrow> (conn_inv (rl_plasma r') \<longleftrightarrow> conn_inv (rl_plasma r)) \<and>
     raylet_view r' = raylet_view r \<and> rl_directory r' = rl_directory r \<and> sink_calls r' = sink_calls r"
  by (simp add: node_state_def)

text \<open>Up to the pull, a fetch touches the pool and the metrics of the nodes only.\<close>

lemma fetch_reaches_seal:
  assumes dr: "dr_session dr = Some s" "ses_gcs s = Some b" "pool_ok (dr_pool dr)"
    and len: "length oid = 28" "length owner = 16"
    and ow: "raylet_addr_for resolve ns owner = Some oa" "hm_get (dr_net dr) oa = Some ow"
    and locs: "set (order (directory_locations oid (rl_directory ow))) = H" "\<forall>n\<in>H. length n = 16"
      "H - {gb_node_id b} \<noteq> {}" "\<forall>n\<in>H - {gb_node_id b}. serves resolve ns (dr_net dr) oid md d n"
  obtains pool net where "pool_ok pool" "same_nodes (dr_net dr) net"
    "fetch_object py dbg h resolve (cluster_transport lib order) (Inr ns) oid owner dr =
       and_then (fetch_seal py h oid \<lparr>pulled_metadata = md, pulled_data = d\<rparr>)
         (\<lambda>_. on_net py ''register at owner: ''
            (register_object_at (cluster_transport lib order) oa oid (gb_node_id b)))
         (dr\<lparr>dr_pool := pool, dr_net := net\<rparr>)"
proof -
  let ?tr = "cluster_transport lib order"
  obtain n where n: "choose_holder (gb_node_id b) (order (directory_locations oid (rl_directory ow))) = Some n"
      "n \<in> H - {gb_node_id b}"
    using choose_holder_other locs(1,3) by metis
  obtain ha hr where h: "raylet_addr_for resolve ns n = Some ha" "hm_get (dr_net dr) ha = Some hr"
      "conn_inv (rl_plasma hr)" "raylet_view hr oid = Sealed md d"
    using locs(4) n(2) unfolding serves_def by blast
  have l16: "list_all (\<lambda>n. length n = 16) (order (directory_locations oid (rl_directory ow)))"
    using locs(1,2) by (simp add: list_all_iff)
  obtain p1 n1 where loc: "fetch_locate py resolve ?tr ns (gb_node_id b) oid owner dr =
      (dr\<lparr>dr_pool := p1, dr_net := n1\<rparr>, Inr (oa, ha))" "pool_ok p1" "same_nodes (dr_net dr) n1"
    by (rule fetch_locate_finds [where order = order, OF dr(3) ow len(1) l16 n(1) h(1)])
  obtain hr1 where h1: "hm_get n1 ha = Some hr1" "node_state hr1 = node_state hr"
    by (rule same_nodes_get [OF loc(3) h(2)])
  obtain hr2 where pc: "client_pull dbg ?tr oid ha n1 =
      (hm_insert ha hr2 n1, Some (Inr \<lparr>pulled_metadata = md, pulled_data = d\<rparr>))" "node_state hr2 = node_state hr1"
    by (rule pull_call [OF h1(1) len(1)]) (use node_stateD [OF h1(2)] h in auto)
  let ?d1 = "dr\<lparr>dr_pool := p1, dr_net := n1\<rparr>"
  have "hm_contains (dr_net ?d1) ha" using h1(1) by (simp add: hm_contains_def)
  from on_net_at [of ?d1 ha "client_pull dbg ?tr oid" "hm_insert ha hr2 n1" _ py "''pull: ''" lib order, OF _ this]
  obtain p2 where p2: "on_net py ''pull: '' (pull_from dbg ?tr ha oid) ?d1 =
      (?d1\<lparr>dr_pool := p2, dr_net := hm_insert ha hr2 n1\<rparr>, Inr \<lparr>pulled_metadata = md, pulled_data = d\<rparr>)" "pool_ok p2"
    using loc(2) pc(1) unfolding pull_from_def by auto
  have sn: "same_nodes (dr_net dr) (hm_insert ha hr2 n1)"
    using same_nodes_trans [OF loc(3) same_nodes_update [OF h1(1) pc(2)]] .
  show thesis
    using that [OF p2(2) sn] dr len loc(1) p2(1)
    by (simp add: fetch_object_def parse_object_id_28_def parse_node_id_16_def require_def and_then_def)
qed

text \<open>
  A copy that plasma already has counts as fetched, but the index of the worker is left as it was: a replica
  whose index entry was dropped by \<open>free\<close> is not found again by fetching it.
\<close>

lemma fetch_seal_existing:
  assumes "dr_session dr = Some s" and "session_ok base s" and "cw_plasma (ses_worker s) = Some st"
    and "server_view (snd st) oid \<noteq> Absent" and "rust_slice d"
  obtains w where
    "fetch_seal py h oid \<lparr>pulled_metadata = encode m, pulled_data = d\<rparr> dr =
       (dr\<lparr>dr_session := Some (set_worker w s)\<rparr>, Inr ())"
    "cw_store w = cw_store (ses_worker s)"
proof -
  have inv: "conn_inv st" using assms(2,3) by (simp add: session_ok_def cw_ok_def)
  have dec: "decode (encode m) = Inr m" using decode_encode_append [of m "[]"] by simp
  from create_cases [OF inv metadata_rust_slice assms(5), of oid m "address_blob (ses_worker s)"] show thesis
  proof cases
    case (2 st' msg)
    then show thesis
      using that [of "(ses_worker s)\<lparr>cw_plasma := Some st'\<rparr>"] assms(1,3) dec
      by (simp add: fetch_seal_def seal_value_to_plasma_def)
  qed (use assms(4) in auto)
qed

lemma freed_replica_is_lost:
  assumes "session_ok base s" and "cw_plasma (ses_worker s) = Some st" and "server_view (snd st) (ObjectId_bytes (ref_id p)) \<noteq> Absent"
    and "rust_slice d" and "py_free [p] (Some s) = (Some s', (Inr () :: ('v PyErr, unit) result))" and "dr_session dr = Some s'"
  obtains s'' where
    "fetch_seal py h (ObjectId_bytes (ref_id p)) \<lparr>pulled_metadata = encode m, pulled_data = d\<rparr> dr =
       (dr\<lparr>dr_session := Some s''\<rparr>, Inr ())"
    "get_entry (ref_id p) (cw_store (ses_worker s'')) = None"
proof -
  have s': "s' = set_worker ((ses_worker s)\<lparr>cw_store := delete [ref_id p] (cw_store (ses_worker s))\<rparr>) s"
    using assms(5) by (simp add: py_free_def Let_def)
  have ok: "session_ok base s'" using assms(1) by (simp add: s' session_ok_def cw_ok_def)
  have pl: "cw_plasma (ses_worker s') = Some st" using assms(2) by (simp add: s')
  obtain w where "fetch_seal py h (ObjectId_bytes (ref_id p)) \<lparr>pulled_metadata = encode m, pulled_data = d\<rparr> dr =
       (dr\<lparr>dr_session := Some (set_worker w s')\<rparr>, Inr ())" "cw_store w = cw_store (ses_worker s')"
    by (rule fetch_seal_existing [OF assms(6) ok pl assms(3,4)])
  then show thesis using that [of "set_worker w s'"] by (simp add: s')
qed

text \<open>Both outcomes of a fetch, with what a reader of the object needs of the session.\<close>

lemma fetch_outcome:
  assumes "dr_session dr = Some s" and "ses_gcs s = Some b" and "pool_ok (dr_pool dr)" and "session_ok base s"
    and "length oid = 28" and "length owner = 16" and "length (gb_node_id b) = 16"
    and "raylet_addr_for resolve ns owner = Some oa" and "hm_get (dr_net dr) oa = Some ow"
    and "set (order (directory_locations oid (rl_directory ow))) = directory_locations oid (rl_directory ow)"
    and "\<forall>n\<in>directory_locations oid (rl_directory ow). length n = 16"
    and "directory_locations oid (rl_directory ow) - {gb_node_id b} \<noteq> {}"
    and "\<forall>n\<in>directory_locations oid (rl_directory ow) - {gb_node_id b}.
      serves resolve ns (dr_net dr) oid (encode m) d n"
    and "cw_plasma (ses_worker s) = Some st" and "server_view (snd st) oid = Absent"
    and "fetch_object py dbg manager_hook resolve (cluster_transport lib order) (Inr ns) oid owner dr = (dr', x)"
  shows "\<exists>s' ow'. dr_session dr' = Some s' \<and> hm_get (dr_net dr') oa = Some ow' \<and>
    (x = Inr () \<and> session_ok base s' \<and> ses_gcs s' = ses_gcs s \<and> session_value s' = (session_value s)(ObjectId oid \<mapsto> (m, d)) \<and>
       rl_directory ow' = directory_register oid (gb_node_id b) (rl_directory ow) \<and>
       sink_calls ow' = map_option (\<lambda>cs. cs @ [SinkAddBorrower oid (gb_node_id b)]) (sink_calls ow)
     \<or> (\<exists>msg. snd (seal_value_to_plasma manager_hook (ObjectId oid) m d (ses_worker s)) =
         Inl (CorePlasma (PlasmaServerError OutOfMemory msg)) \<and> x = Inl (PyRuntimeError (ascii ''seal_into_plasma: ''
          @ show_core py (CorePlasma (PlasmaServerError OutOfMemory msg))))) \<and>
       session_value s' = session_value s \<and> rl_directory ow' = rl_directory ow \<and> sink_calls ow' = sink_calls ow)"
proof -
  obtain pool net where r: "pool_ok pool" "same_nodes (dr_net dr) net"
    "fetch_object py dbg manager_hook resolve (cluster_transport lib order) (Inr ns) oid owner dr =
       and_then (fetch_seal py manager_hook oid \<lparr>pulled_metadata = encode m, pulled_data = d\<rparr>)
         (\<lambda>_. on_net py ''register at owner: ''
            (register_object_at (cluster_transport lib order) oa oid (gb_node_id b)))
         (dr\<lparr>dr_pool := pool, dr_net := net\<rparr>)"
    by (rule fetch_reaches_seal [where order = order, OF assms(1-3,5,6,8,9,10-13)])
  let ?dr = "dr\<lparr>dr_pool := pool, dr_net := net\<rparr>"
  obtain w q where q: "seal_value_to_plasma manager_hook (ObjectId oid) m d (ses_worker s) = (w, q)" by fastforce
  have dec: "decode (encode m) = Inr m" using decode_encode_append [of m "[]"] by simp
  obtain ow1 where ow1: "hm_get net oa = Some ow1" "node_state ow1 = node_state ow"
    by (rule same_nodes_get [OF r(2) assms(9)])
  obtain n where "serves resolve ns (dr_net dr) oid (encode m) d n" using assms(12,13) by blast
  then have d: "rust_slice d" unfolding serves_def using sealed_rust_slice(2) by blast
  have fs: "fetch_seal py manager_hook oid \<lparr>pulled_metadata = encode m, pulled_data = d\<rparr> ?dr =
      (?dr\<lparr>dr_session := Some (set_worker w s)\<rparr>,
       case q of Inr _ \<Rightarrow> Inr ()
       | Inl (CorePlasma e) \<Rightarrow> if is_already_exists e then Inr ()
           else Inl (PyRuntimeError (ascii ''seal_into_plasma: '' @ show_core py (CorePlasma e)))
       | Inl e \<Rightarrow> Inl (PyRuntimeError (ascii ''seal_into_plasma: '' @ show_core py e)))"
    using assms(1) dec q by (simp add: fetch_seal_def)
  from assms(4,14) _ d q show ?thesis
  proof (rule seal_absent_cases)
    show "server_view (snd st) (ObjectId_bytes (ObjectId oid)) = Absent" using assms(15) by simp
  next
    fix n assume k: "q = Inr n" "sealed_session base (ObjectId oid) m d s (set_worker w s)"
    let ?d2 = "?dr\<lparr>dr_session := Some (set_worker w s)\<rparr>"
    obtain ow2 where ow2: "client_register (cluster_transport lib order) oid (gb_node_id b) oa net =
        (hm_insert oa ow2 net, Some (Inr ()))"
        "rl_directory ow2 = directory_register oid (gb_node_id b) (rl_directory ow1)"
        "sink_calls ow2 = map_option (\<lambda>cs. cs @ [SinkAddBorrower oid (gb_node_id b)]) (sink_calls ow1)"
      by (rule register_call [OF ow1(1) assms(5,7)])
    have c: "hm_contains (dr_net ?d2) oa" using ow1(1) by (simp add: hm_contains_def)
    have p: "pool_ok (dr_pool ?d2)" using r(1) by simp
    obtain pool' where "on_net py ''register at owner: ''
        (register_object_at (cluster_transport lib order) oa oid (gb_node_id b)) ?d2 =
        (?d2\<lparr>dr_pool := pool', dr_net := hm_insert oa ow2 net\<rparr>, Inr ())"
      unfolding register_object_at_def
      by (rule on_net_at [OF p c, of "client_register (cluster_transport lib order) oid (gb_node_id b)"
            "hm_insert oa ow2 net" "()" py "''register at owner: ''" lib order]) (use ow2(1) in simp_all)
    then have "dr' = ?d2\<lparr>dr_pool := pool', dr_net := hm_insert oa ow2 net\<rparr>" "x = Inr ()"
      using assms(16) r(3) fs k(1) by (simp_all add: and_then_def)
    then show ?thesis using k(2) ow2(2,3) node_stateD [OF ow1(2)] by (simp add: sealed_session_def)
  next
    fix msg assume k: "q = Inl (CorePlasma (PlasmaServerError OutOfMemory msg))" "worker_value w = session_value s"
    then have "dr' = ?dr\<lparr>dr_session := Some (set_worker w s)\<rparr>"
      "x = Inl (PyRuntimeError (ascii ''seal_into_plasma: '' @ show_core py (CorePlasma (PlasmaServerError OutOfMemory msg))))"
      using assms(16) r(3) fs by (simp_all add: and_then_def)
    then show ?thesis using k q ow1 node_stateD [OF ow1(2)] by auto
  qed
qed

section \<open>Properties\<close>

text \<open>C11. Fetching an object that lives on other nodes: when the owner's raylet lists at least one other holder and
  the listed holders can be dialled and have the object, a fetch brings exactly their metadata and data into the
  local store, changes no other value, and leaves this node registered as a holder and as a borrower at the owner.
  The only failure is that the local arena is full, and then neither the local values nor the owner's directory
  have changed.\<close>

theorem fetch_replicates_object:
  assumes "dr_session dr = Some s" and "ses_gcs s = Some b" and "pool_ok (dr_pool dr)" and "session_ok base s"
    and "length oid = 28" and "length owner = 16" and "length (gb_node_id b) = 16"
    and "raylet_addr_for resolve ns owner = Some oa" and "hm_get (dr_net dr) oa = Some ow"
    and "set (order (directory_locations oid (rl_directory ow))) = directory_locations oid (rl_directory ow)"
    and "\<forall>n\<in>directory_locations oid (rl_directory ow). length n = 16"
    and "directory_locations oid (rl_directory ow) - {gb_node_id b} \<noteq> {}"
    and "\<forall>n\<in>directory_locations oid (rl_directory ow) - {gb_node_id b}.
      serves resolve ns (dr_net dr) oid (encode m) d n"
    and "cw_plasma (ses_worker s) = Some st" and "server_view (snd st) oid = Absent"
    and "fetch_object py dbg manager_hook resolve (cluster_transport lib order) (Inr ns) oid owner dr = (dr', x)"
  shows "\<exists>s' ow'. dr_session dr' = Some s' \<and> hm_get (dr_net dr') oa = Some ow' \<and>
    (x = Inr () \<and> session_value s' = (session_value s)(ObjectId oid \<mapsto> (m, d)) \<and>
       rl_directory ow' = directory_register oid (gb_node_id b) (rl_directory ow) \<and>
       sink_calls ow' = map_option (\<lambda>cs. cs @ [SinkAddBorrower oid (gb_node_id b)]) (sink_calls ow)
     \<or> (\<exists>msg. x = Inl (PyRuntimeError (ascii ''seal_into_plasma: ''
          @ show_core py (CorePlasma (PlasmaServerError OutOfMemory msg))))) \<and>
       session_value s' = session_value s \<and> rl_directory ow' = rl_directory ow \<and> sink_calls ow' = sink_calls ow)"
  using fetch_outcome [where order = order, OF assms] by blast

definition example_binding :: GcsBinding where
  "example_binding = \<lparr>gb_node_id = replicate 16 3, gb_job_id = [], gb_session_id = [], gb_directory = []\<rparr>"

definition example_peer :: "fs_manager Session" where
  "example_peer =
     \<lparr>ses_worker = (ses_worker example_session)\<lparr>cw_plasma := Some example_conn, cw_free_callback := Some forget_on_free\<rparr>,
      ses_gcs = Some example_binding\<rparr>"

definition example_addr :: SocketAddr where
  "example_addr = SockV4 [10, 0, 0, 1] 7"

definition example_nodes :: "NodeInfo list" where
  "example_nodes =
     [\<lparr>ni_address = Some \<lparr>addr_host = ascii ''peer'', addr_port = 7, addr_node_id = replicate 16 2, addr_plasma_socket = []\<rparr>,
       ni_resources = None, ni_status = 1, ni_registered_at = 0, ni_last_heartbeat = 0\<rparr>]"

definition example_owner :: "conn \<Rightarrow> Raylet" where
  "example_owner st = (example_raylet st)\<lparr>rl_directory := [(replicate 28 1, {replicate 16 2})]\<rparr>"

definition example_driver :: "conn \<Rightarrow> (SocketAddr, cluster, fs_manager) Driver" where
  "example_driver st =
     \<lparr>dr_session = Some example_peer, dr_pool = [], dr_net = [(example_addr, example_owner st)]\<rparr>"

lemma example_conn_empty: "server_view (snd example_conn) oid = Absent"
  by (simp add: example_conn_def example_server_def server_new_def server_view_def)

theorem fetch_replicates_object_witness:
  "\<exists>st dr x s. fetch_object example_env (\<lambda>_. []) manager_hook (\<lambda>_ p. Some [SockV4 [10, 0, 0, 1] p])
       (cluster_transport (\<lambda>_. []) (\<lambda>_. [replicate 16 2])) (Inr example_nodes) (replicate 28 1) (replicate 16 2)
       (example_driver st) = (dr, x) \<and> dr_session dr = Some s \<and>
     (x = Inr () \<and> session_value s (ObjectId (replicate 28 1)) = Some (Raw, [9, 8]) \<or>
      x = Inl (PyRuntimeError (ascii ''seal_into_plasma: '')))"
proof -
  let ?oid = "replicate 28 1 :: bytes" and ?resolve = "\<lambda>_ p. Some [SockV4 [10, 0, 0, 1] p]"
  obtain st where st: "conn_inv st" "server_view (snd st) ?oid = Sealed [2] [9, 8]" by (rule example_object)
  let ?dr = "example_driver st" and ?ow = "example_owner st"
  obtain dr x where f: "fetch_object example_env (\<lambda>_. []) manager_hook ?resolve
       (cluster_transport (\<lambda>_. []) (\<lambda>_. [replicate 16 2])) (Inr example_nodes) ?oid (replicate 16 2) ?dr = (dr, x)"
    by fastforce
  have addr: "raylet_addr_for ?resolve example_nodes (replicate 16 2) = Some example_addr"
    by (simp add: example_nodes_def dial_def example_addr_def)
  have ow: "hm_get (dr_net ?dr) example_addr = Some ?ow" by (simp add: example_driver_def)
  have locs: "directory_locations ?oid (rl_directory ?ow) = {replicate 16 2}"
    by (simp add: example_owner_def directory_locations_def)
  have ne: "(replicate 16 2 :: bytes) \<noteq> gb_node_id example_binding"
    by (simp add: example_binding_def eval_nat_numeral)
  have sv: "serves ?resolve example_nodes (dr_net ?dr) ?oid (encode Raw) [9, 8] (replicate 16 2)"
    unfolding serves_def using addr ow st
    by (intro exI [of _ example_addr] exI [of _ ?ow])
      (simp add: example_owner_def example_raylet_def DISCRIMINATOR_RAW_def)
  have ok: "session_ok [] example_peer"
    using example_conn_inv
    by (simp add: session_ok_def example_peer_def example_session_def new_local_def CoreWorker_new_def cw_ok_def)
  have "\<exists>s' ow'. dr_session dr = Some s' \<and> hm_get (dr_net dr) example_addr = Some ow' \<and>
    (x = Inr () \<and> session_value s' = (session_value example_peer)(ObjectId ?oid \<mapsto> (Raw, [9, 8])) \<and>
       rl_directory ow' = directory_register ?oid (gb_node_id example_binding) (rl_directory ?ow) \<and>
       sink_calls ow' = map_option (\<lambda>cs. cs @ [SinkAddBorrower ?oid (gb_node_id example_binding)]) (sink_calls ?ow)
     \<or> (\<exists>msg. x = Inl (PyRuntimeError (ascii ''seal_into_plasma: ''
          @ show_core example_env (CorePlasma (PlasmaServerError OutOfMemory msg))))) \<and>
       session_value s' = session_value example_peer \<and> rl_directory ow' = rl_directory ?ow \<and> sink_calls ow' = sink_calls ?ow)"
    by (rule fetch_replicates_object [OF _ _ _ ok _ _ _ addr ow _ _ _ _ _ example_conn_empty f])
      (use sv ne in \<open>simp_all add: locs example_driver_def example_peer_def example_binding_def pool_ok_def\<close>)
  then obtain s where "dr_session dr = Some s" "x = Inr () \<and> session_value s (ObjectId ?oid) = Some (Raw, [9, 8]) \<or>
      x = Inl (PyRuntimeError (ascii ''seal_into_plasma: ''))"
    by (auto simp: example_env_def)
  with f show ?thesis by blast
qed

end
