(* ===== verification/Gcs_Directory.thy ===== *)
theory Gcs_Directory
imports Gcs_Nodes
begin

text \<open>
  The named-actor and job directories of the control store (\<open>actor_service.rs\<close>, \<open>job_service.rs\<close>) and the typed
  client over all three registries (\<open>client.rs\<close>).  A call of the client is the handler applied to the
  request it builds; a call that the transport loses is not modelled.  The escaping of a name inside a
  message (\<open>{:?}\<close>, which follows the Unicode tables) is an argument.
\<close>

section \<open>Actors\<close>

record ActorInfo =
  ai_name :: bytes
  ai_actor_id :: bytes
  ai_owner_node_id :: bytes
  ai_owner_pid :: u32
  ai_registered_at :: u64
  ai_driver_actor_host :: bytes
  ai_driver_actor_port :: u32

record RegisterActorRequest =
  ra_name :: bytes
  ra_actor_id :: bytes
  ra_owner_node_id :: bytes
  ra_owner_pid :: u32
  ra_driver_actor_host :: bytes
  ra_driver_actor_port :: u32

record ActorsRegistry =
  actors :: "(bytes, ActorInfo) hmap"
  actors_total :: "int option"

definition ActorsRegistry_new :: "int option \<Rightarrow> ActorsRegistry" where
  "ActorsRegistry_new gauge = \<lparr>actors = [], actors_total = gauge\<rparr>"

definition actors_snapshot :: "ActorsRegistry \<Rightarrow> ActorInfo list" where
  "actors_snapshot g = map snd (actors g)"

definition parse_id :: "bytes \<Rightarrow> bytes \<Rightarrow> (GrpcStatus, bytes) result" where
  "parse_id bs name =
     (if length bs \<noteq> 16
      then Inl (GrpcStatus InvalidArgument (name @ ascii '' must be 16 bytes, got '' @ dec_digits (length bs)))
      else Inr bs)"

definition register_actor ::
  "(bytes \<Rightarrow> bytes) \<Rightarrow> u64 \<Rightarrow> RegisterActorRequest \<Rightarrow> ActorsRegistry \<Rightarrow> ActorsRegistry \<times> (GrpcStatus, unit) result" where
  "register_actor dbg now_ms req g =
     (if ra_name req = [] then (g, Inl (GrpcStatus InvalidArgument (ascii ''name must not be empty'')))
      else
        (case parse_id (ra_actor_id req) (ascii ''actor_id'') of
           Inl e \<Rightarrow> (g, Inl e)
         | Inr actor_id \<Rightarrow>
             if ra_owner_node_id req \<noteq> [] \<and> length (ra_owner_node_id req) \<noteq> 16
             then (g, Inl (GrpcStatus InvalidArgument
                     (ascii ''owner_node_id must be 16 bytes (or empty), got '' @ dec_digits (length (ra_owner_node_id req)))))
             else
               (let info = \<lparr>ai_name = ra_name req, ai_actor_id = actor_id, ai_owner_node_id = ra_owner_node_id req,
                            ai_owner_pid = ra_owner_pid req, ai_registered_at = now_ms,
                            ai_driver_actor_host = ra_driver_actor_host req,
                            ai_driver_actor_port = ra_driver_actor_port req\<rparr>
                in case hm_get (actors g) (ra_name req) of
                     Some existing \<Rightarrow>
                       if ai_actor_id existing = ai_actor_id info then (g, Inr ())
                       else (g, Inl (GrpcStatus CodeAlreadyExists
                               (ascii ''actor name '' @ dbg (ra_name req) @ ascii '' is already registered'')))
                   | None \<Rightarrow>
                       (g\<lparr>actors := hm_insert (ra_name req) info (actors g),
                          actors_total := map_option (\<lambda>n. n + 1) (actors_total g)\<rparr>, Inr ()))))"

definition get_actor :: "(bytes \<Rightarrow> bytes) \<Rightarrow> bytes \<Rightarrow> ActorsRegistry \<Rightarrow> (GrpcStatus, ActorInfo) result" where
  "get_actor dbg name g =
     (if name = [] then Inl (GrpcStatus InvalidArgument (ascii ''name must not be empty''))
      else
        (case hm_get (actors g) name of
           None \<Rightarrow> Inl (GrpcStatus CodeNotFound (ascii ''no actor named '' @ dbg name))
         | Some info \<Rightarrow> Inr info))"

definition unregister_actor ::
  "bytes \<Rightarrow> bytes \<Rightarrow> ActorsRegistry \<Rightarrow> ActorsRegistry \<times> (GrpcStatus, unit) result" where
  "unregister_actor name raw_id g =
     (case parse_id raw_id (ascii ''actor_id'') of
        Inl e \<Rightarrow> (g, Inl e)
      | Inr actor_id \<Rightarrow>
          (case hm_get (actors g) name of
             None \<Rightarrow> (g, Inl (GrpcStatus CodeNotFound (ascii ''unknown actor name'')))
           | Some existing \<Rightarrow>
               if ai_actor_id existing \<noteq> actor_id
               then (g, Inl (GrpcStatus FailedPrecondition (ascii ''actor_id does not match registered entry'')))
               else
                 (g\<lparr>actors := hm_remove name (actors g),
                    actors_total := map_option (\<lambda>n. n - 1) (actors_total g)\<rparr>, Inr ())))"

definition list_actors :: "ActorsRegistry \<Rightarrow> ActorInfo list" where
  "list_actors g = actors_snapshot g"

section \<open>Jobs\<close>

datatype JobStatus = JobUnspecified | Running | Finished | JobFailed

fun job_status_i32 :: "JobStatus \<Rightarrow> int" where
  "job_status_i32 JobUnspecified = 0"
| "job_status_i32 Running = 1"
| "job_status_i32 Finished = 2"
| "job_status_i32 JobFailed = 3"

record JobInfo =
  ji_job_id :: bytes
  ji_driver_host :: bytes
  ji_driver_pid :: u32
  ji_node_id :: bytes
  ji_status :: int
  ji_registered_at :: u64
  ji_finished_at :: u64

record JobInfoEntry =
  je_info :: JobInfo
  je_failure_message :: "bytes option"

record AddJobRequest =
  aj_driver_host :: bytes
  aj_driver_pid :: u32
  aj_node_id :: bytes

record JobsRegistry =
  jobs :: "(bytes, JobInfoEntry) hmap"
  jobs_running :: "int option"

definition JobsRegistry_new :: "int option \<Rightarrow> JobsRegistry" where
  "JobsRegistry_new gauge = \<lparr>jobs = [], jobs_running = gauge\<rparr>"

definition jobs_snapshot :: "JobsRegistry \<Rightarrow> JobInfo list" where
  "jobs_snapshot g = map (je_info \<circ> snd) (jobs g)"

text \<open>\<open>fresh\<close> are the 16 random bytes that the handler draws.\<close>

definition add_job ::
  "bytes \<Rightarrow> u64 \<Rightarrow> AddJobRequest \<Rightarrow> JobsRegistry \<Rightarrow> JobsRegistry \<times> (GrpcStatus, bytes) result" where
  "add_job fresh now_ms req g =
     (if aj_driver_host req = [] then (g, Inl (GrpcStatus InvalidArgument (ascii ''driver_host must not be empty'')))
      else if aj_node_id req \<noteq> [] \<and> length (aj_node_id req) \<noteq> 16
      then (g, Inl (GrpcStatus InvalidArgument
              (ascii ''node_id must be 16 bytes (or empty), got '' @ dec_digits (length (aj_node_id req)))))
      else
        (let info = \<lparr>ji_job_id = fresh, ji_driver_host = aj_driver_host req, ji_driver_pid = aj_driver_pid req,
                     ji_node_id = aj_node_id req, ji_status = job_status_i32 Running, ji_registered_at = now_ms,
                     ji_finished_at = 0\<rparr>
         in (g\<lparr>jobs := hm_insert fresh \<lparr>je_info = info, je_failure_message = None\<rparr> (jobs g),
               jobs_running := map_option (\<lambda>n. n + 1) (jobs_running g)\<rparr>,
             Inr fresh)))"

definition parse_job_id :: "bytes \<Rightarrow> (GrpcStatus, bytes) result" where
  "parse_job_id bs =
     (if length bs \<noteq> 16
      then Inl (GrpcStatus InvalidArgument (ascii ''job_id must be 16 bytes, got '' @ dec_digits (length bs)))
      else Inr bs)"

definition finish_entry :: "u64 \<Rightarrow> bytes \<Rightarrow> JobInfoEntry \<Rightarrow> JobInfoEntry" where
  "finish_entry now_ms failure_message e =
     \<lparr>je_info = (je_info e)\<lparr>ji_finished_at := now_ms,
        ji_status := (if failure_message = [] then job_status_i32 Finished else job_status_i32 JobFailed)\<rparr>,
      je_failure_message = (if failure_message \<noteq> [] then Some failure_message else je_failure_message e)\<rparr>"

definition mark_job_finished ::
  "bytes \<Rightarrow> bytes \<Rightarrow> u64 \<Rightarrow> JobsRegistry \<Rightarrow> JobsRegistry \<times> (GrpcStatus, unit) result" where
  "mark_job_finished raw_id failure_message now_ms g =
     (case parse_job_id raw_id of
        Inl e \<Rightarrow> (g, Inl e)
      | Inr job_id \<Rightarrow>
          (case hm_get (jobs g) job_id of
             None \<Rightarrow> (g, Inl (GrpcStatus CodeNotFound (ascii ''unknown job_id'')))
           | Some e \<Rightarrow>
               (let was_running = (ji_status (je_info e) = job_status_i32 Running);
                    g1 = g\<lparr>jobs := hm_insert job_id (finish_entry now_ms failure_message e) (jobs g)\<rparr>
                in (if was_running then g1\<lparr>jobs_running := map_option (\<lambda>n. n - 1) (jobs_running g1)\<rparr> else g1, Inr ()))))"

definition list_jobs :: "JobsRegistry \<Rightarrow> JobInfo list" where
  "list_jobs g = jobs_snapshot g"

section \<open>Client\<close>

datatype GcsClientError = Connect | Rpc GrpcStatus | Malformed bytes

definition gcs_client_parse_id :: "bytes \<Rightarrow> bytes \<Rightarrow> (GcsClientError, bytes) result" where
  "gcs_client_parse_id bs name =
     (if length bs \<noteq> 16
      then Inl (Malformed (name @ ascii '' must be 16 bytes, got '' @ dec_digits (length bs)))
      else Inr bs)"

definition rpc :: "(GrpcStatus, 'a) result \<Rightarrow> (GcsClientError, 'a) result" where
  "rpc r = (case r of Inl e \<Rightarrow> Inl (Rpc e) | Inr x \<Rightarrow> Inr x)"

record RegisterOutcome =
  out_node_id :: bytes
  out_cluster_session_id :: bytes

definition gcs_client_register ::
  "bytes \<Rightarrow> u64 \<Rightarrow> bytes \<Rightarrow> u16 \<Rightarrow> bytes \<Rightarrow> Resources \<Rightarrow> Registry \<Rightarrow>
     Registry \<times> (GcsClientError, RegisterOutcome) result" where
  "gcs_client_register fresh now_ms host port plasma_socket resources r =
     (case register_node fresh now_ms
             \<lparr>rr_host = host, rr_port = ucast port, rr_plasma_socket = plasma_socket, rr_resources = Some resources\<rparr> r of
        (r', Inl e) \<Rightarrow> (r', Inl (Rpc e))
      | (r', Inr reply) \<Rightarrow>
          (r', case gcs_client_parse_id (reply_node_id reply) (ascii ''node_id'') of
                 Inl e \<Rightarrow> Inl e
               | Inr node_id \<Rightarrow>
                   (case gcs_client_parse_id (reply_session_id reply) (ascii ''cluster_session_id'') of
                      Inl e \<Rightarrow> Inl e
                    | Inr session \<Rightarrow> Inr \<lparr>out_node_id = node_id, out_cluster_session_id = session\<rparr>)))"

definition gcs_client_drain :: "bytes \<Rightarrow> Registry \<Rightarrow> Registry \<times> (GcsClientError, unit) result" where
  "gcs_client_drain node_id r = (case drain node_id r of (r', x) \<Rightarrow> (r', rpc x))"

definition gcs_client_list :: "Registry \<Rightarrow> (GcsClientError, NodeInfo list) result" where
  "gcs_client_list r = Inr (list_nodes r)"

definition gcs_client_heartbeat :: "bytes \<Rightarrow> u64 \<Rightarrow> Registry \<Rightarrow> Registry \<times> (GcsClientError, unit) result" where
  "gcs_client_heartbeat node_id now_ms r = (case heartbeat node_id now_ms r of (r', x) \<Rightarrow> (r', rpc x))"

definition gcs_client_watch_nodes ::
  "u64 \<Rightarrow> Registry \<Rightarrow> Registry \<Rightarrow> RecvItem list \<Rightarrow>
     (GcsClientError, (GrpcStatus, NodeEvent) result list) result" where
  "gcs_client_watch_nodes last_seen r1 r2 items = rpc (watch_nodes last_seen r1 r2 items)"

definition gcs_client_add_job ::
  "bytes \<Rightarrow> u64 \<Rightarrow> bytes \<Rightarrow> u32 \<Rightarrow> bytes option \<Rightarrow> JobsRegistry \<Rightarrow> JobsRegistry \<times> (GcsClientError, bytes) result" where
  "gcs_client_add_job fresh now_ms host pid node_id g =
     (case add_job fresh now_ms
             \<lparr>aj_driver_host = host, aj_driver_pid = pid, aj_node_id = (case node_id of Some n \<Rightarrow> n | None \<Rightarrow> [])\<rparr> g of
        (g', Inl e) \<Rightarrow> (g', Inl (Rpc e))
      | (g', Inr job_id) \<Rightarrow> (g', gcs_client_parse_id job_id (ascii ''job_id'')))"

definition gcs_client_mark_job_finished ::
  "bytes \<Rightarrow> bytes \<Rightarrow> u64 \<Rightarrow> JobsRegistry \<Rightarrow> JobsRegistry \<times> (GcsClientError, unit) result" where
  "gcs_client_mark_job_finished job_id failure_message now_ms g =
     (case mark_job_finished job_id failure_message now_ms g of (g', x) \<Rightarrow> (g', rpc x))"

definition gcs_client_register_actor ::
  "(bytes \<Rightarrow> bytes) \<Rightarrow> u64 \<Rightarrow> bytes \<Rightarrow> bytes \<Rightarrow> bytes option \<Rightarrow> u32 \<Rightarrow> bytes \<Rightarrow> u16 \<Rightarrow> ActorsRegistry \<Rightarrow>
     ActorsRegistry \<times> (GcsClientError, unit) result" where
  "gcs_client_register_actor dbg now_ms name actor_id owner_node_id owner_pid host port g =
     (case register_actor dbg now_ms
             \<lparr>ra_name = name, ra_actor_id = actor_id,
              ra_owner_node_id = (case owner_node_id of Some n \<Rightarrow> n | None \<Rightarrow> []), ra_owner_pid = owner_pid,
              ra_driver_actor_host = host, ra_driver_actor_port = ucast port\<rparr> g of
        (g', x) \<Rightarrow> (g', rpc x))"

definition gcs_client_get_actor ::
  "(bytes \<Rightarrow> bytes) \<Rightarrow> bytes \<Rightarrow> ActorsRegistry \<Rightarrow> (GcsClientError, ActorInfo option) result" where
  "gcs_client_get_actor dbg name g =
     (case get_actor dbg name g of
        Inr info \<Rightarrow> Inr (Some info)
      | Inl status \<Rightarrow> if status_code status = CodeNotFound then Inr None else Inl (Rpc status))"

definition gcs_client_unregister_actor :: "bytes \<Rightarrow> bytes \<Rightarrow> ActorsRegistry \<Rightarrow> ActorsRegistry \<times> (GcsClientError, unit) result" where
  "gcs_client_unregister_actor name actor_id g = (case unregister_actor name actor_id g of (g', x) \<Rightarrow> (g', rpc x))"

section \<open>Ownership of names\<close>

datatype ActorOp =
    ActRegister u64 RegisterActorRequest
  | ActUnregister bytes bytes

fun actor_step :: "(bytes \<Rightarrow> bytes) \<Rightarrow> ActorOp \<Rightarrow> ActorsRegistry \<Rightarrow> ActorsRegistry" where
  "actor_step dbg (ActRegister now req) g = fst (register_actor dbg now req g)"
| "actor_step dbg (ActUnregister name raw) g = fst (unregister_actor name raw g)"

definition actor_run :: "(bytes \<Rightarrow> bytes) \<Rightarrow> ActorOp list \<Rightarrow> ActorsRegistry \<Rightarrow> ActorsRegistry" where
  "actor_run dbg ops g = fold (actor_step dbg) ops g"

definition actors_inv :: "ActorsRegistry \<Rightarrow> bool" where
  "actors_inv g \<longleftrightarrow>
     hm_wf (actors g) \<and> (\<forall>n. actors_total g = Some n \<longrightarrow> n = int (length (actors g))) \<and>
     (\<forall>name info. hm_get (actors g) name = Some info \<longrightarrow>
        ai_name info = name \<and> name \<noteq> [] \<and> length (ai_actor_id info) = 16)"

lemma length_remove_key: "hm_wf m \<Longrightarrow> hm_get m k = Some v \<Longrightarrow> length m = Suc (length (hm_remove k m))"
proof (induction m)
  case (Cons kv m)
  then show ?case using hm_remove_id [of m k] by (cases kv) (auto simp: map_of_eq_None_iff)
qed simp

lemma actors_inv_step: "actors_inv g \<Longrightarrow> actors_inv (actor_step dbg op g)"
proof (cases op)
  case (ActRegister now req)
  assume "actors_inv g"
  then show ?thesis
    using ActRegister
    by (auto simp: actors_inv_def register_actor_def parse_id_def Let_def length_insert_new
        simp del: map_of_eq_Some_iff split: option.splits sum.splits if_splits)
next
  case (ActUnregister name raw)
  assume "actors_inv g"
  then show ?thesis
    using ActUnregister length_remove_key [of "actors g" name]
    by (auto simp: actors_inv_def unregister_actor_def parse_id_def
        simp del: map_of_eq_Some_iff split: option.splits sum.splits if_splits)
qed

lemma actors_inv_run: "actors_inv g \<Longrightarrow> actors_inv (actor_run dbg ops g)"
  unfolding actor_run_def by (induction ops arbitrary: g) (auto simp: actors_inv_step)

lemma actor_total_some: "\<exists>n. actors_total (actor_run dbg ops (ActorsRegistry_new (Some n0))) = Some n"
proof -
  have "\<exists>n. actors_total (actor_step dbg op g) = Some n" if "actors_total g = Some m" for op g m
    using that by (cases op) (auto simp: register_actor_def unregister_actor_def Let_def split: sum.split option.split)
  note step = this
  have "\<exists>n. actors_total (fold (actor_step dbg) ops g) = Some n" if "actors_total g = Some m" for g m
    using that
  proof (induction ops arbitrary: g m)
    case (Cons op ops)
    then show ?case using step [of g m op] by auto
  qed simp
  then show ?thesis by (simp add: actor_run_def ActorsRegistry_new_def)
qed

text \<open>A step changes the entry of a name only by creating it or on behalf of its owner.\<close>

lemma actor_step_owner:
  assumes "hm_get (actors g) name = Some info" and "op \<noteq> ActUnregister name (ai_actor_id info)"
  shows "hm_get (actors (actor_step dbg op g)) name = Some info"
proof (cases op)
  case (ActRegister now req)
  then show ?thesis
    using assms(1) by (auto simp: register_actor_def Let_def split: option.splits sum.splits)
next
  case (ActUnregister n raw)
  then show ?thesis
    using assms by (auto simp: unregister_actor_def parse_id_def split: option.splits)
qed

lemma actor_run_owner:
  "hm_get (actors g) name = Some info \<Longrightarrow> ActUnregister name (ai_actor_id info) \<notin> set ops \<Longrightarrow>
     hm_get (actors (actor_run dbg ops g)) name = Some info"
  unfolding actor_run_def
proof (induction ops arbitrary: g)
  case (Cons op ops)
  then have "hm_get (actors (actor_step dbg op g)) name = Some info" by (intro actor_step_owner) auto
  then show ?case using Cons by simp
qed simp

section \<open>Jobs and their gauge\<close>

datatype JobOp = JobAdd bytes u64 AddJobRequest | JobFinish bytes bytes u64

fun job_step :: "JobOp \<Rightarrow> JobsRegistry \<Rightarrow> JobsRegistry" where
  "job_step (JobAdd fresh now req) g = fst (add_job fresh now req g)"
| "job_step (JobFinish raw msg now) g = fst (mark_job_finished raw msg now g)"

fun job_fresh :: "JobOp \<Rightarrow> JobsRegistry \<Rightarrow> bool" where
  "job_fresh (JobAdd fresh now req) g \<longleftrightarrow> length fresh = 16 \<and> hm_get (jobs g) fresh = None"
| "job_fresh (JobFinish raw msg now) g \<longleftrightarrow> True"

inductive jobs_reachable :: "JobsRegistry \<Rightarrow> bool" where
  start: "jobs_reachable (JobsRegistry_new gauge)" if "gauge = None \<or> gauge = Some 0"
| step: "jobs_reachable (job_step op g)" if "jobs_reachable g" and "job_fresh op g"

definition running_count :: "(bytes, JobInfoEntry) hmap \<Rightarrow> nat" where
  "running_count js = hm_sum (\<lambda>e. of_bool (ji_status (je_info e) = job_status_i32 Running)) js"

definition jobs_inv :: "JobsRegistry \<Rightarrow> bool" where
  "jobs_inv g \<longleftrightarrow>
     (\<forall>n. jobs_running g = Some n \<longrightarrow> n = int (running_count (jobs g))) \<and>
     (\<forall>k e. hm_get (jobs g) k = Some e \<longrightarrow>
        ji_job_id (je_info e) = k \<and> ji_status (je_info e) \<in> {1, 2, 3} \<and>
        (ji_status (je_info e) = 3 \<longrightarrow> je_failure_message e \<noteq> None))"

lemma running_insert:
  "running_count (hm_insert k e js) + (case hm_get js k of None \<Rightarrow> 0 | Some p \<Rightarrow> of_bool (ji_status (je_info p) = job_status_i32 Running))
     = running_count js + of_bool (ji_status (je_info e) = job_status_i32 Running)"
  unfolding running_count_def by (rule hm_sum_insert)

lemma jobs_inv_add:
  assumes "jobs_inv g" "hm_get (jobs g) fresh = None"
  shows "jobs_inv (fst (add_job fresh now req g))"
  using assms running_insert [of fresh _ "jobs g"]
  by (auto simp: jobs_inv_def add_job_def Let_def split: option.splits)

lemma jobs_inv_finish:
  assumes "jobs_inv g"
  shows "jobs_inv (fst (mark_job_finished raw msg now g))"
proof (cases "length raw = 16 \<and> hm_get (jobs g) raw \<noteq> None")
  case True
  then obtain e where e: "length raw = 16" "hm_get (jobs g) raw = Some e" by auto
  have "running_count (hm_insert raw (finish_entry now msg e) (jobs g))
      + of_bool (ji_status (je_info e) = job_status_i32 Running) = running_count (jobs g)"
    using running_insert [of raw "finish_entry now msg e" "jobs g"] e by (simp add: finish_entry_def split: if_splits)
  then show ?thesis
    using assms e
    by (auto simp: jobs_inv_def mark_job_finished_def parse_job_id_def Let_def finish_entry_def split: if_splits)
qed (use assms in \<open>auto simp: mark_job_finished_def parse_job_id_def\<close>)

lemma jobs_inv_reachable: "jobs_reachable g \<Longrightarrow> jobs_inv g"
proof (induction rule: jobs_reachable.induct)
  case (start gauge)
  then show ?case by (auto simp: jobs_inv_def JobsRegistry_new_def running_count_def)
next
  case (step g op)
  then show ?case by (cases op) (auto intro: jobs_inv_add jobs_inv_finish)
qed

lemma running_count_list:
  "running_count js = length (filter (\<lambda>i. ji_status i = 1) (map (je_info \<circ> snd) js))"
  by (induction js) (auto simp: running_count_def hm_sum_def)

section \<open>Properties\<close>

text \<open>  A name in the actor directory belongs to the actor that registered it.  Whatever registrations and
  removals follow, lookups keep returning exactly the registered entry until its owner removes it: a removal with
  another actor id fails, a registration with another id is refused with \<open>AlreadyExists\<close>, and one with the
  same id changes nothing (so that a new driver address is not recorded).  The gauge counts the names.
\<close>

lemma actor_names_are_owned:
  assumes "g = actor_run dbg ops0 (ActorsRegistry_new (Some 0))" and "hm_get (actors g) name = Some info"
    and "ActUnregister name (ai_actor_id info) \<notin> set ops"
  shows "gcs_client_get_actor dbg name (actor_run dbg ops g) = Inr (Some info) \<and>
    (\<forall>now req. ra_name req = name \<and> length (ra_actor_id req) = 16 \<and> ra_owner_node_id req = [] \<longrightarrow>
       register_actor dbg now req (actor_run dbg ops g) =
         (actor_run dbg ops g,
          if ra_actor_id req = ai_actor_id info then Inr ()
          else Inl (GrpcStatus CodeAlreadyExists (ascii ''actor name '' @ dbg name @ ascii '' is already registered'')))) \<and>
    actors_total (actor_run dbg ops g) = Some (int (length (list_actors (actor_run dbg ops g))))"
proof -
  let ?g = "actor_run dbg ops g"
  have get: "hm_get (actors ?g) name = Some info" using actor_run_owner assms(2,3) by blast
  have "actors_inv (ActorsRegistry_new (Some 0))" by (simp add: actors_inv_def ActorsRegistry_new_def)
  then have inv: "actors_inv ?g" using assms(1) actors_inv_run by simp
  then have ne: "name \<noteq> []" using get unfolding actors_inv_def by blast
  have "\<exists>n. actors_total (actor_run dbg ops' (ActorsRegistry_new (Some 0))) = Some n" for ops'
    by (rule actor_total_some)
  moreover have "?g = actor_run dbg (ops0 @ ops) (ActorsRegistry_new (Some 0))"
    using assms(1) by (simp add: actor_run_def)
  ultimately obtain n where n: "actors_total ?g = Some n" by metis
  then have "n = int (length (actors ?g))" using inv by (simp add: actors_inv_def)
  then have "actors_total ?g = Some (int (length (list_actors ?g)))"
    using n by (simp add: list_actors_def actors_snapshot_def)
  moreover have "gcs_client_get_actor dbg name ?g = Inr (Some info)"
    using get ne by (simp add: gcs_client_get_actor_def get_actor_def)
  ultimately show ?thesis
    using get ne by (auto simp: register_actor_def parse_id_def Let_def)
qed

lemma actor_names_are_owned_witness:
  "gcs_client_get_actor (\<lambda>n. n) [110]
     (actor_run (\<lambda>n. n) [ActUnregister [110] (replicate 16 9)]
       (actor_run (\<lambda>n. n) [ActRegister 5 \<lparr>ra_name = [110], ra_actor_id = replicate 16 1, ra_owner_node_id = [],
          ra_owner_pid = 1, ra_driver_actor_host = [], ra_driver_actor_port = 0\<rparr>] (ActorsRegistry_new (Some 0)))) =
   Inr (Some \<lparr>ai_name = [110], ai_actor_id = replicate 16 1, ai_owner_node_id = [], ai_owner_pid = 1,
     ai_registered_at = 5, ai_driver_actor_host = [], ai_driver_actor_port = 0\<rparr>)"
proof -
  let ?g = "actor_run (\<lambda>n. n) [ActRegister 5 \<lparr>ra_name = [110], ra_actor_id = replicate 16 1, ra_owner_node_id = [],
          ra_owner_pid = 1, ra_driver_actor_host = [], ra_driver_actor_port = 0\<rparr>] (ActorsRegistry_new (Some 0))"
  let ?i = "\<lparr>ai_name = [110], ai_actor_id = replicate 16 1, ai_owner_node_id = [], ai_owner_pid = 1,
     ai_registered_at = 5, ai_driver_actor_host = [], ai_driver_actor_port = 0\<rparr>"
  have "hm_get (actors ?g) [110] = Some ?i"
    by (simp add: actor_run_def register_actor_def parse_id_def ActorsRegistry_new_def Let_def)
  from actor_names_are_owned [OF refl this, of "[ActUnregister [110] (replicate 16 9)]"]
  show ?thesis by simp
qed

text \<open>  The gauge of running jobs is exact: after any sequence of additions and completions - repeated, with or
  without a failure message, for unknown jobs - it equals the number of running jobs in the list, and every
  job listed as failed has a failure message on record.
\<close>

lemma jobs_running_gauge_exact:
  assumes "jobs_reachable g" and "jobs_running g = Some n"
  shows "n = int (length (filter (\<lambda>i. ji_status i = job_status_i32 Running) (list_jobs g))) \<and>
    (\<forall>k e. hm_get (jobs g) k = Some e \<longrightarrow> ji_status (je_info e) = job_status_i32 JobFailed \<longrightarrow>
       je_failure_message e \<noteq> None)"
  using jobs_inv_reachable [OF assms(1)] assms(2)
  by (auto simp: jobs_inv_def running_count_list list_jobs_def jobs_snapshot_def)

lemma jobs_running_gauge_exact_witness:
  "int (length (filter (\<lambda>i. ji_status i = job_status_i32 Running)
     (list_jobs (job_step (JobAdd (replicate 16 1) 5 \<lparr>aj_driver_host = [104], aj_driver_pid = 1, aj_node_id = []\<rparr>)
       (JobsRegistry_new (Some 0)))))) = 1"
proof -
  let ?op = "JobAdd (replicate 16 1) 5 \<lparr>aj_driver_host = [104], aj_driver_pid = 1, aj_node_id = []\<rparr>"
  let ?g = "job_step ?op (JobsRegistry_new (Some 0))"
  have "jobs_reachable ?g"
    by (rule jobs_reachable.step [OF jobs_reachable.start]) (simp_all add: JobsRegistry_new_def)
  moreover have "jobs_running ?g = Some 1" by (simp add: add_job_def JobsRegistry_new_def Let_def)
  ultimately show ?thesis using jobs_running_gauge_exact [of ?g 1] by simp
qed

end
