(* ===== verification/Py_Directory.thy ===== *)
theory Py_Directory
imports Driver_Session Gcs_Directory Node_Index
begin

text \<open>
  The entry points of \<open>rayd-py/src/lib.rs\<close> that ask the control store, over the methods of \<open>GcsBinding\<close>
  (\<open>rayd-py/src/gcs.rs\<close>): snapshots of nodes, jobs and actors as Python sees them, the local liveness lookup, and
  the directory of named actors.  The state after a call is the registry of the control store; the display
  of a client error is the argument \<open>shown\<close>, and \<open>reach\<close> says whether the call reached the control store.
\<close>

section \<open>What Python sees\<close>

definition node_status_str :: "int \<Rightarrow> bytes" where
  "node_status_str code =
     (if code = 1 then ascii ''alive'' else if code = 2 then ascii ''draining''
      else if code = 3 then ascii ''dead'' else ascii ''unspecified'')"

definition job_status_str :: "int \<Rightarrow> bytes" where
  "job_status_str code =
     (if code = 1 then ascii ''running'' else if code = 2 then ascii ''finished''
      else if code = 3 then ascii ''failed'' else ascii ''unspecified'')"

record PyNodeInfo =
  pn_host :: bytes
  pn_port :: u32
  pn_node_id :: bytes
  pn_plasma_socket :: bytes
  pn_resources :: Resources
  pn_status :: bytes
  pn_registered_at :: u64
  pn_last_heartbeat :: u64

text \<open>\<open>unwrap_or_default\<close> of the two nested messages.\<close>

definition default_address :: NodeAddress where
  "default_address = \<lparr>addr_host = [], addr_port = 0, addr_node_id = [], addr_plasma_socket = []\<rparr>"

definition convert_node :: "NodeInfo \<Rightarrow> PyNodeInfo" where
  "convert_node info =
     (let address = (case ni_address info of Some a \<Rightarrow> a | None \<Rightarrow> default_address);
          resources = (case ni_resources info of Some q \<Rightarrow> q | None \<Rightarrow> \<lparr>num_cpus = 0, num_gpus = 0, memory_bytes = 0\<rparr>)
      in \<lparr>pn_host = addr_host address, pn_port = addr_port address, pn_node_id = addr_node_id address,
          pn_plasma_socket = addr_plasma_socket address, pn_resources = resources,
          pn_status = node_status_str (ni_status info), pn_registered_at = ni_registered_at info,
          pn_last_heartbeat = ni_last_heartbeat info\<rparr>)"

record PyJobInfo =
  pj_job_id :: bytes
  pj_driver_host :: bytes
  pj_driver_pid :: u32
  pj_node_id :: bytes
  pj_status :: bytes
  pj_registered_at :: u64
  pj_finished_at :: u64

definition convert_job :: "JobInfo \<Rightarrow> PyJobInfo" where
  "convert_job info =
     \<lparr>pj_job_id = ji_job_id info, pj_driver_host = ji_driver_host info, pj_driver_pid = ji_driver_pid info,
      pj_node_id = ji_node_id info, pj_status = job_status_str (ji_status info),
      pj_registered_at = ji_registered_at info, pj_finished_at = ji_finished_at info\<rparr>"

record PyActorInfo =
  pa_name :: bytes
  pa_actor_id :: bytes
  pa_owner_node_id :: bytes
  pa_owner_pid :: u32
  pa_registered_at :: u64
  pa_driver_actor_host :: bytes
  pa_driver_actor_port :: u32

definition convert_actor :: "ActorInfo \<Rightarrow> PyActorInfo" where
  "convert_actor info =
     \<lparr>pa_name = ai_name info, pa_actor_id = ai_actor_id info, pa_owner_node_id = ai_owner_node_id info,
      pa_owner_pid = ai_owner_pid info, pa_registered_at = ai_registered_at info,
      pa_driver_actor_host = ai_driver_actor_host info, pa_driver_actor_port = ai_driver_actor_port info\<rparr>"

section \<open>Calls of the control store\<close>

text \<open>The common shape: a session, a binding, the call, and its error under a prefix.\<close>

definition gcs_call ::
  "(GcsClientError \<Rightarrow> bytes) \<Rightarrow> string \<Rightarrow> bool \<Rightarrow> (GcsBinding \<Rightarrow> 's \<Rightarrow> 's \<times> (GcsClientError, 'a) result) \<Rightarrow>
     'r Session option \<Rightarrow> 's \<Rightarrow> 's \<times> ('v PyErr, 'a) result" where
  "gcs_call shown what reach f g reg =
     (case with_gcs (\<lambda>b. if reach then f b reg else (reg, Inl Connect)) g of
        Inl e \<Rightarrow> (reg, Inl e)
      | Inr None \<Rightarrow> (reg, Inl (PyRuntimeError no_gcs))
      | Inr (Some (reg', Inl e)) \<Rightarrow> (reg', Inl (PyRuntimeError (ascii what @ shown e)))
      | Inr (Some (reg', Inr x)) \<Rightarrow> (reg', Inr x))"

definition py_list_nodes ::
  "(GcsClientError \<Rightarrow> bytes) \<Rightarrow> bool \<Rightarrow> 'r Session option \<Rightarrow> Registry \<Rightarrow> ('v PyErr, PyNodeInfo list) result" where
  "py_list_nodes shown reach g reg =
     map_ok (map convert_node) (snd (gcs_call shown ''gcs list_nodes: '' reach (\<lambda>_ r. (r, gcs_client_list r)) g reg))"

definition py_list_jobs ::
  "(GcsClientError \<Rightarrow> bytes) \<Rightarrow> bool \<Rightarrow> 'r Session option \<Rightarrow> JobsRegistry \<Rightarrow> ('v PyErr, PyJobInfo list) result" where
  "py_list_jobs shown reach g reg =
     map_ok (map convert_job) (snd (gcs_call shown ''gcs list_jobs: '' reach (\<lambda>_ r. (r, Inr (list_jobs r))) g reg))"

definition py_list_actors ::
  "(GcsClientError \<Rightarrow> bytes) \<Rightarrow> bool \<Rightarrow> 'r Session option \<Rightarrow> ActorsRegistry \<Rightarrow> ('v PyErr, PyActorInfo list) result" where
  "py_list_actors shown reach g reg =
     map_ok (map convert_actor) (snd (gcs_call shown ''gcs list_actors: '' reach (\<lambda>_ r. (r, Inr (list_actors r))) g reg))"

text \<open>\<open>dbg\<close> escapes a name inside a message, \<open>now_ms\<close> is the clock of the control store, \<open>pid\<close> this process.\<close>

definition binding_register_actor ::
  "(bytes \<Rightarrow> bytes) \<Rightarrow> u64 \<Rightarrow> u32 \<Rightarrow> bytes \<Rightarrow> bytes \<Rightarrow> bytes \<Rightarrow> u16 \<Rightarrow> GcsBinding \<Rightarrow> ActorsRegistry \<Rightarrow>
     ActorsRegistry \<times> (GcsClientError, unit) result" where
  "binding_register_actor dbg now_ms pid name aid driver_host driver_port b =
     gcs_client_register_actor dbg now_ms name aid (Some (gb_node_id b)) pid driver_host driver_port"

definition register_named_actor ::
  "(GcsClientError \<Rightarrow> bytes) \<Rightarrow> (bytes \<Rightarrow> bytes) \<Rightarrow> bool \<Rightarrow> u64 \<Rightarrow> u32 \<Rightarrow> bytes \<Rightarrow> bytes \<Rightarrow> bytes \<Rightarrow> u16 \<Rightarrow>
     'r Session option \<Rightarrow> ActorsRegistry \<Rightarrow> ActorsRegistry \<times> ('v PyErr, unit) result" where
  "register_named_actor shown dbg reach now_ms pid name actor_id driver_host driver_port g reg =
     (case parse_node_id_16 actor_id of
        Inl e \<Rightarrow> (reg, Inl e)
      | Inr aid \<Rightarrow>
          gcs_call shown ''register_actor: '' reach
            (binding_register_actor dbg now_ms pid name aid driver_host driver_port) g reg)"

definition lookup_named_actor ::
  "(GcsClientError \<Rightarrow> bytes) \<Rightarrow> (bytes \<Rightarrow> bytes) \<Rightarrow> bool \<Rightarrow> bytes \<Rightarrow> 'r Session option \<Rightarrow> ActorsRegistry \<Rightarrow>
     ('v PyErr, PyActorInfo option) result" where
  "lookup_named_actor shown dbg reach name g reg =
     map_ok (map_option convert_actor)
       (snd (gcs_call shown ''get_actor: '' reach (\<lambda>_ r. (r, gcs_client_get_actor dbg name r)) g reg))"

definition unregister_named_actor ::
  "(GcsClientError \<Rightarrow> bytes) \<Rightarrow> bool \<Rightarrow> bytes \<Rightarrow> bytes \<Rightarrow> 'r Session option \<Rightarrow> ActorsRegistry \<Rightarrow>
     ActorsRegistry \<times> ('v PyErr, unit) result" where
  "unregister_named_actor shown reach name actor_id g reg =
     (case parse_node_id_16 actor_id of
        Inl e \<Rightarrow> (reg, Inl e)
      | Inr aid \<Rightarrow> gcs_call shown ''unregister_actor: '' reach (\<lambda>_. gcs_client_unregister_actor name aid) g reg)"

section \<open>The local view of other nodes\<close>

text \<open>
  \<open>idx\<close> is the node index of the raylet that the binding started, \<open>None\<close> when there is none.
\<close>

definition node_status_local ::
  "NodeIndex option \<Rightarrow> bytes \<Rightarrow> 'r Session option \<Rightarrow> ('v PyErr, bytes option) result" where
  "node_status_local idx node_id g =
     (if length node_id \<noteq> 16
      then Inl (PyValueError (ascii ''node_id must be 16 bytes, got '' @ dec_digits (length node_id)))
      else
        (let status =
           (case (with_gcs (\<lambda>_. Option.bind idx (\<lambda>i. status_of i node_id)) g :: (unit PyErr, NodeStatus option option) result) of
              Inl _ \<Rightarrow> None
            | Inr r \<Rightarrow> Option.bind r (\<lambda>x. x))
         in Inr (map_option (\<lambda>st. node_status_str (as_i32 st)) status)))"

definition py_node_id :: "'r Session option \<Rightarrow> ('v PyErr, bytes option) result" where
  "py_node_id g = with_gcs gb_node_id g"

definition py_job_id :: "'r Session option \<Rightarrow> ('v PyErr, bytes option) result" where
  "py_job_id g = with_gcs gb_job_id g"

definition py_cluster_session_id :: "'r Session option \<Rightarrow> ('v PyErr, bytes option) result" where
  "py_cluster_session_id g = with_gcs gb_session_id g"

section \<open>Lemmas\<close>

lemma node_status_str_inj:
  "node_status_str (as_i32 a) = node_status_str (as_i32 b) \<longleftrightarrow> a = b"
  by (cases a; cases b) (simp_all add: node_status_str_def ascii_def)

lemma alive_iff: "node_status_str code = ascii ''alive'' \<longleftrightarrow> code = as_i32 Alive"
  by (simp add: node_status_str_def ascii_def)

lemma gcs_call_attached:
  "g = Some s \<Longrightarrow> ses_gcs s = Some b \<Longrightarrow>
     gcs_call shown what True f g reg = (case f b reg of (reg', r) \<Rightarrow> (reg', map_err (\<lambda>e. PyRuntimeError (ascii what @ shown e)) r))"
  by (auto simp: gcs_call_def with_gcs_def map_err_def split: prod.splits sum.splits)

lemma gcs_call_detached:
  "(\<And>s. g = Some s \<Longrightarrow> ses_gcs s = None) \<Longrightarrow>
     gcs_call shown what reach f g reg = (reg, Inl (PyRuntimeError (if g = None then not_initialized else no_gcs)))"
  by (cases g) (auto simp: gcs_call_def with_gcs_def)

text \<open>A name that one driver registered is what every driver finds.\<close>

lemma registered_name_is_found:
  assumes "g = Some s" "ses_gcs s = Some b" "g' = Some s'" "ses_gcs s' = Some b'" "name \<noteq> []"
    and "register_named_actor shown dbg True now pid name aid hst prt g reg = (reg', (Inr () :: ('v PyErr, unit) result))"
  obtains info where "(lookup_named_actor shown dbg True name g' reg' :: ('w PyErr, PyActorInfo option) result) = Inr (Some info)"
    "pa_actor_id info = aid"
    "hm_get (actors reg) name = None \<Longrightarrow>
       pa_owner_node_id info = gb_node_id b \<and> pa_driver_actor_host info = hst \<and> pa_driver_actor_port info = ucast prt"
proof -
  have aid: "length aid = 16"
    using assms(6) by (auto simp: register_named_actor_def parse_node_id_16_def split: if_splits)
  let ?req = "\<lparr>ra_name = name, ra_actor_id = aid, ra_owner_node_id = gb_node_id b, ra_owner_pid = pid,
              ra_driver_actor_host = hst, ra_driver_actor_port = ucast prt\<rparr>"
  obtain r where r: "register_actor dbg now ?req reg = (reg', r)" "r = Inr ()"
    using assms(6) aid
    by (cases "register_actor dbg now ?req reg")
      (auto simp: register_named_actor_def parse_node_id_16_def gcs_call_attached [OF assms(1,2)] binding_register_actor_def
        gcs_client_register_actor_def rpc_def map_err_def split: sum.splits)
  have "\<exists>info. hm_get (actors reg') name = Some info \<and> ai_actor_id info = aid \<and>
      (hm_get (actors reg) name = None \<longrightarrow> ai_owner_node_id info = gb_node_id b \<and> ai_driver_actor_host info = hst \<and>
         ai_driver_actor_port info = ucast prt)"
  proof (cases "hm_get (actors reg) name")
    case None
    then show ?thesis using r aid assms(5)
      by (simp add: register_actor_def parse_id_def Let_def split: if_splits) (auto simp del: map_of_eq_Some_iff)
  next
    case (Some old)
    then have "reg' = reg \<and> ai_actor_id old = aid" using r aid assms(5)
      by (simp add: register_actor_def parse_id_def Let_def split: if_splits)
    then show ?thesis using Some by simp
  qed
  then obtain info where k: "hm_get (actors reg') name = Some info \<and> ai_actor_id info = aid \<and>
      (hm_get (actors reg) name = None \<longrightarrow> ai_owner_node_id info = gb_node_id b \<and> ai_driver_actor_host info = hst \<and>
         ai_driver_actor_port info = ucast prt)" by (rule exE)
  have f: "(lookup_named_actor shown dbg True name g' reg' :: ('w PyErr, PyActorInfo option) result) =
      Inr (Some (convert_actor info))"
    using k assms(5)
    by (simp add: lookup_named_actor_def gcs_call_attached [OF assms(3,4)] gcs_client_get_actor_def get_actor_def
        map_ok_def map_err_def)
  show thesis by (rule that [OF f]) (use k in \<open>auto simp: convert_actor_def\<close>)
qed

end
