(* ===== verification/Remote_Get.thy ===== *)
theory Remote_Get
imports Peer_Fetch Py_Directory Dispatcher
begin

text \<open>
  Reading through the Python facade, \<open>python/rayd/__init__.py\<close>: before the native call, references of other
  nodes are fetched behind a check of their owner's liveness, and references of this node whose object was
  lost are resubmitted from their lineage.  Times are milliseconds of the monotonic clock.
\<close>

section \<open>State and environment\<close>

record ('c, 'n, 'r) Runtime =
  rn_driver :: "('c, 'n, 'r) Driver"
  rn_dispatcher :: "Dispatcher option"
  rn_index :: "NodeIndex option"

abbreviation rn_session :: "('c, 'n, 'r) Runtime \<Rightarrow> 'r Session option" where
  "rn_session rt \<equiv> dr_session (rn_driver rt)"

datatype 'v FacadeErr =
    Native "'v PyErr"
  | OwnerDiedError bytes
  | ObjectUnreconstructableError bytes

record ('c, 'n, 'r, 'v) FacadeEnv =
  fe_py :: "'v PyEnv"
  fe_dbg :: "PullKind option \<Rightarrow> bytes"
  fe_hook :: "'r hook"
  fe_resolve :: "bytes \<Rightarrow> nat \<Rightarrow> SocketAddr list option"
  fe_transport :: "('c, 'n) Transport"
  fe_hex :: "bytes \<Rightarrow> bytes"
  fe_shown :: "GcsClientError \<Rightarrow> bytes"

text \<open>
  One call of the native \<open>fetch_object\<close>: what the other nodes and threads did before it, the registry it finds and
  whether it reaches the control store, and the clock when it is back.
\<close>

record ('c, 'n, 'r) Attempt =
  at_move :: "('c, 'n, 'r) Driver \<Rightarrow> ('c, 'n, 'r) Driver"
  at_registry :: Registry
  at_reach :: bool
  at_now :: nat

text \<open>What resolving one reference finds: the registry when it asks, the clock, and the attempts.\<close>

record ('c, 'n, 'r) Script =
  sc_registry :: Registry
  sc_reach :: bool
  sc_start :: nat
  sc_attempts :: "('c, 'n, 'r) Attempt list"

section \<open>Fetching with retries\<close>

definition FETCH_RETRY_TOTAL :: nat where
  "FETCH_RETRY_TOTAL = 5000"

definition FETCH_RETRY_SLEEP :: nat where
  "FETCH_RETRY_SLEEP = 50"

text \<open>The substring test of Python.\<close>

fun occurs_in :: "bytes \<Rightarrow> bytes \<Rightarrow> bool" where
  "occurs_in pat [] = (pat = [])"
| "occurs_in pat (b # bs) = (take (length pat) (b # bs) = pat \<or> occurs_in pat bs)"

definition retryable :: "'v PyErr \<Rightarrow> bool" where
  "retryable e = (case e of PyRuntimeError msg \<Rightarrow> occurs_in (ascii ''no holder registered'') msg | _ \<Rightarrow> False)"

definition listing :: "(GcsClientError \<Rightarrow> bytes) \<Rightarrow> bool \<Rightarrow> Registry \<Rightarrow> (bytes, NodeInfo list) result" where
  "listing shown reach reg = (if reach then map_err shown (gcs_client_list reg) else Inl (shown Connect))"

definition native_fetch ::
  "('c, 'n, 'r, 'v) FacadeEnv \<Rightarrow> bytes \<Rightarrow> bytes \<Rightarrow> ('c, 'n, 'r) Attempt \<Rightarrow> ('c, 'n, 'r) Driver \<Rightarrow>
     ('c, 'n, 'r) Driver \<times> ('v PyErr, unit) result" where
  "native_fetch env oid owner a dr =
     fetch_object (fe_py env) (fe_dbg env) (fe_hook env) (fe_resolve env) (fe_transport env)
       (listing (fe_shown env) (at_reach a) (at_registry a)) oid owner (at_move a dr)"

text \<open>\<open>None\<close>: still retrying after all attempts.\<close>

fun fetch_loop ::
  "('c, 'n, 'r, 'v) FacadeEnv \<Rightarrow> bytes \<Rightarrow> bytes \<Rightarrow> nat \<Rightarrow> ('c, 'n, 'r) Attempt list \<Rightarrow> ('c, 'n, 'r) Driver \<Rightarrow>
     (('c, 'n, 'r) Driver \<times> ('v PyErr, unit) result) option" where
  "fetch_loop env oid owner deadline [] dr = None"
| "fetch_loop env oid owner deadline (a # as) dr =
     (case native_fetch env oid owner a dr of
        (dr', Inr _) \<Rightarrow> Some (dr', Inr ())
      | (dr', Inl e) \<Rightarrow>
          if \<not> retryable e then Some (dr', Inl e)
          else if deadline \<le> at_now a then Some (dr', Inl e)
          else fetch_loop env oid owner deadline as dr')"

definition fetch_with_retries ::
  "('c, 'n, 'r, 'v) FacadeEnv \<Rightarrow> bytes \<Rightarrow> bytes \<Rightarrow> nat \<Rightarrow> ('c, 'n, 'r) Attempt list \<Rightarrow> ('c, 'n, 'r) Driver \<Rightarrow>
     (('c, 'n, 'r) Driver \<times> ('v PyErr, unit) result) option" where
  "fetch_with_retries env oid owner start as dr = fetch_loop env oid owner (start + FETCH_RETRY_TOTAL) as dr"

section \<open>References of other nodes\<close>

definition owner_gone :: "('c, 'n, 'r, 'v) FacadeEnv \<Rightarrow> PyObjectRef \<Rightarrow> bytes \<Rightarrow> 'v FacadeErr" where
  "owner_gone env p what =
     OwnerDiedError (ascii ''owner of ObjectRef('' @ fe_hex env (ObjectId_bytes (ref_id p)) @ ascii '') is '' @ what
       @ ascii ''; cannot fetch'')"

definition fetch_ref ::
  "('c, 'n, 'r, 'v) FacadeEnv \<Rightarrow> PyObjectRef \<Rightarrow> bytes \<Rightarrow> ('c, 'n, 'r) Script \<Rightarrow> 'a \<Rightarrow> ('c, 'n, 'r) Runtime \<Rightarrow>
     (('c, 'n, 'r) Runtime \<times> ('v FacadeErr, 'a) result) option" where
  "fetch_ref env p owner sc x rt =
     map_option (\<lambda>(dr, r). (rt\<lparr>rn_driver := dr\<rparr>, case r of Inl e \<Rightarrow> Inl (Native e) | Inr _ \<Rightarrow> Inr x))
       (fetch_with_retries env (ObjectId_bytes (ref_id p)) owner (sc_start sc) (sc_attempts sc) (rn_driver rt))"

text \<open>The cache is the listing of nodes that a batch shares; the result is the cache for the next reference.\<close>

definition resolve_remote_ref ::
  "('c, 'n, 'r, 'v) FacadeEnv \<Rightarrow> PyObjectRef \<Rightarrow> bytes \<Rightarrow> ('c, 'n, 'r) Script \<Rightarrow> PyNodeInfo list option \<Rightarrow>
     ('c, 'n, 'r) Runtime \<Rightarrow> (('c, 'n, 'r) Runtime \<times> ('v FacadeErr, PyNodeInfo list) result) option" where
  "resolve_remote_ref env p owner sc cache rt =
     (case node_status_local (rn_index rt) owner (rn_session rt) of
        Inl e \<Rightarrow> Some (rt, Inl (Native e))
      | Inr (Some fast) \<Rightarrow>
          if fast \<noteq> ascii ''alive'' then Some (rt, Inl (owner_gone env p fast))
          else fetch_ref env p owner sc (case cache of Some ns \<Rightarrow> ns | None \<Rightarrow> []) rt
      | Inr None \<Rightarrow>
          (case (case cache of
                   Some ns \<Rightarrow> Inr ns
                 | None \<Rightarrow> py_list_nodes (fe_shown env) (sc_reach sc) (rn_session rt) (sc_registry sc)) of
             Inl e \<Rightarrow> Some (rt, Inl (Native e))
           | Inr ns \<Rightarrow>
               (let owner_status = map_option pn_status (find (\<lambda>n. pn_node_id n = owner) ns)
                in if owner_status \<noteq> Some (ascii ''alive'')
                   then Some (rt, Inl (owner_gone env p
                          (case owner_status of None \<Rightarrow> ascii ''absent from GCS'' | Some st \<Rightarrow> st)))
                   else fetch_ref env p owner sc ns rt)))"

section \<open>References of this node\<close>

definition lineage_str :: "LineageStatus \<Rightarrow> bytes" where
  "lineage_str st =
     (case st of
        NotRecorded \<Rightarrow> ascii ''not_recorded''
      | NotYetCompleted \<Rightarrow> ascii ''not_yet_completed''
      | ReadyToResubmit \<Rightarrow> ascii ''ready''
      | BudgetExhausted \<Rightarrow> ascii ''exhausted'')"

text \<open>A session without a dispatcher has recorded no task.\<close>

definition lineage_status_str :: "bytes \<Rightarrow> Dispatcher option \<Rightarrow> ('v PyErr, bytes) result" where
  "lineage_status_str raw disp =
     map_ok (\<lambda>oid. case Option.bind disp tasks of
                      None \<Rightarrow> ascii ''not_recorded''
                    | Some tm \<Rightarrow> lineage_str (lineage_status (ObjectId oid) tm)) (parse_object_id_28 raw)"

definition no_dispatcher :: bytes where
  "no_dispatcher = ascii ''rayd is not initialized (or dispatcher disabled); call rayd.init() first''"

definition resubmit_entry ::
  "bytes \<Rightarrow> 'r Session option \<Rightarrow> Dispatcher option \<Rightarrow> Dispatcher option \<times> ('v PyErr, bool) result" where
  "resubmit_entry raw g disp =
     (case parse_object_id_28 raw of
        Inl e \<Rightarrow> (disp, Inl e)
      | Inr oid \<Rightarrow>
          if g = None then (disp, Inr False)
          else
            (case disp of
               None \<Rightarrow> (disp, Inl (PyRuntimeError no_dispatcher))
             | Some d \<Rightarrow> (case try_resubmit_for_lineage (ObjectId oid) d of (d', b) \<Rightarrow> (Some d', Inr b))))"

definition maybe_resubmit_local_lineage ::
  "('c, 'n, 'r, 'v) FacadeEnv \<Rightarrow> PyObjectRef \<Rightarrow> ('c, 'n, 'r) Runtime \<Rightarrow> ('c, 'n, 'r) Runtime \<times> ('v FacadeErr, unit) result" where
  "maybe_resubmit_local_lineage env p rt =
     (let oid = ObjectId_bytes (ref_id p) in
      if py_state p (rn_session rt) \<noteq> Pending then (rt, Inr ())
      else
        (case lineage_status_str oid (rn_dispatcher rt) of
           Inl e \<Rightarrow> (rt, Inl (Native e))
         | Inr status \<Rightarrow>
             if status = ascii ''ready''
             then (case resubmit_entry oid (rn_session rt) (rn_dispatcher rt) of
                     (disp, r) \<Rightarrow> (rt\<lparr>rn_dispatcher := disp\<rparr>, case r of Inl e \<Rightarrow> Inl (Native e) | Inr _ \<Rightarrow> Inr ()))
             else if status = ascii ''exhausted''
             then (rt, Inl (ObjectUnreconstructableError (ascii ''object '' @ fe_hex env oid
                     @ ascii '' cannot be reconstructed: task lineage exhausted retry budget'')))
             else (rt, Inr ())))"

section \<open>Reading\<close>

fun ensure_local ::
  "('c, 'n, 'r, 'v) FacadeEnv \<Rightarrow> bytes option \<Rightarrow> (PyObjectRef \<times> ('c, 'n, 'r) Script) list \<Rightarrow> PyNodeInfo list option \<Rightarrow>
     ('c, 'n, 'r) Runtime \<Rightarrow> (('c, 'n, 'r) Runtime \<times> ('v FacadeErr, unit) result) option" where
  "ensure_local env local [] cache rt = Some (rt, Inr ())"
| "ensure_local env local ((p, sc) # ps) cache rt =
     (case (local, ref_owner_node_id (ref_inner p)) of
        (Some l, Some owner) \<Rightarrow>
          if owner \<noteq> l
          then (case resolve_remote_ref env p owner sc cache rt of
                  None \<Rightarrow> None
                | Some (rt', Inl e) \<Rightarrow> Some (rt', Inl e)
                | Some (rt', Inr ns) \<Rightarrow> ensure_local env local ps (Some ns) rt')
          else (case maybe_resubmit_local_lineage env p rt of
                  (rt', Inl e) \<Rightarrow> Some (rt', Inl e)
                | (rt', Inr _) \<Rightarrow> ensure_local env local ps cache rt')
      | _ \<Rightarrow>
          (case maybe_resubmit_local_lineage env p rt of
             (rt', Inl e) \<Rightarrow> Some (rt', Inl e)
           | (rt', Inr _) \<Rightarrow> ensure_local env local ps cache rt'))"

definition ensure_local_for_remote_refs ::
  "('c, 'n, 'r, 'v) FacadeEnv \<Rightarrow> (PyObjectRef \<times> ('c, 'n, 'r) Script) list \<Rightarrow> ('c, 'n, 'r) Runtime \<Rightarrow>
     (('c, 'n, 'r) Runtime \<times> ('v FacadeErr, unit) result) option" where
  "ensure_local_for_remote_refs env targets rt =
     (case rn_session rt of
        None \<Rightarrow> Some (rt, Inr ())
      | Some s \<Rightarrow> ensure_local env (map_option gb_node_id (ses_gcs s)) targets None rt)"

text \<open>
  \<open>native\<close> is the native call that follows, on the session it finds; \<open>None\<close> is a call that is still waiting.
\<close>

definition then_native ::
  "('r Session option \<Rightarrow> ('r Session option \<times> ('v PyErr, 'a) result) option) \<Rightarrow>
     (('c, 'n, 'r) Runtime \<times> ('v FacadeErr, unit) result) option \<Rightarrow>
     (('c, 'n, 'r) Runtime \<times> ('v FacadeErr, 'a) result) option" where
  "then_native native prep =
     (case prep of
        None \<Rightarrow> None
      | Some (rt, Inl e) \<Rightarrow> Some (rt, Inl e)
      | Some (rt, Inr _) \<Rightarrow>
          map_option (\<lambda>(g, r). (rt\<lparr>rn_driver := (rn_driver rt)\<lparr>dr_session := g\<rparr>\<rparr>, map_err Native r))
            (native (rn_session rt)))"

definition facade_get ::
  "('c, 'n, 'r, 'v) FacadeEnv \<Rightarrow> (f64 \<Rightarrow> nat) \<Rightarrow> PyObjectRef \<times> ('c, 'n, 'r) Script \<Rightarrow> f64 option \<Rightarrow>
     ('r Session option \<Rightarrow> nat \<times> observation list) \<Rightarrow> ('c, 'n, 'r) Runtime \<Rightarrow>
     (('c, 'n, 'r) Runtime \<times> ('v FacadeErr, 'v) result) option" where
  "facade_get env to_nanos target seconds seen rt =
     then_native (\<lambda>g. case seen g of (start, obs) \<Rightarrow> py_get (fe_py env) to_nanos (fe_hook env) (fst target) seconds start obs g)
       (ensure_local_for_remote_refs env [target] rt)"

definition facade_get_list ::
  "('c, 'n, 'r, 'v) FacadeEnv \<Rightarrow> (f64 \<Rightarrow> nat) \<Rightarrow> (PyObjectRef \<times> ('c, 'n, 'r) Script) list \<Rightarrow> f64 option \<Rightarrow>
     ('r Session option \<Rightarrow> (nat \<times> observation list) list) \<Rightarrow> ('c, 'n, 'r) Runtime \<Rightarrow>
     (('c, 'n, 'r) Runtime \<times> ('v FacadeErr, 'v list) result) option" where
  "facade_get_list env to_nanos targets seconds seen rt =
     then_native (\<lambda>g. py_get_list (fe_py env) to_nanos (fe_hook env) seconds (zip (map fst targets) (seen g)) g)
       (ensure_local_for_remote_refs env targets rt)"

definition facade_get_settled ::
  "('c, 'n, 'r, 'v) FacadeEnv \<Rightarrow> (f64 \<Rightarrow> nat) \<Rightarrow> (PyObjectRef \<times> ('c, 'n, 'r) Script) list \<Rightarrow> f64 option \<Rightarrow>
     ('r Session option \<Rightarrow> (nat \<times> observation list) list) \<Rightarrow> ('c, 'n, 'r) Runtime \<Rightarrow>
     (('c, 'n, 'r) Runtime \<times> ('v FacadeErr, 'v Settled list) result) option" where
  "facade_get_settled env to_nanos targets seconds seen rt =
     then_native (\<lambda>g. py_get_settled (fe_py env) to_nanos (fe_hook env) seconds (zip (map fst targets) (seen g)) g)
       (ensure_local_for_remote_refs env targets rt)"

section \<open>The retry loop\<close>

text \<open>The loop ends with the attempt that succeeds, fails for another reason, or comes back after the deadline.\<close>

definition last_word :: "nat \<Rightarrow> ('c, 'n, 'r) Attempt \<Rightarrow> ('v PyErr, unit) result \<Rightarrow> bool" where
  "last_word deadline a r \<longleftrightarrow> (case r of Inr _ \<Rightarrow> True | Inl e \<Rightarrow> \<not> retryable e \<or> deadline \<le> at_now a)"

lemma fetch_loop_waiting: "fetch_loop env oid owner deadline as dr = None \<Longrightarrow> \<forall>a\<in>set as. at_now a < deadline"
  by (induction as arbitrary: dr) (auto split: prod.splits sum.splits if_splits)

lemma fetch_loop_returns:
  "fetch_loop env oid owner deadline as dr = Some (dr', r) \<Longrightarrow>
     \<exists>k<length as. fetch_loop env oid owner deadline (take (Suc k) as) dr = Some (dr', r) \<and> last_word deadline (as ! k) r"
proof (induction as arbitrary: dr)
  case (Cons a as)
  obtain d x where f: "native_fetch env oid owner a dr = (d, x)" by fastforce
  show ?case
  proof (cases "last_word deadline a x")
    case True
    then have "fetch_loop env oid owner deadline (a # as) dr = Some (d, x)" for as
      using f by (auto simp: last_word_def split: sum.splits)
    with Cons.prems have "d = dr'" "x = r" "fetch_loop env oid owner deadline (take (Suc 0) (a # as)) dr = Some (dr', r)"
      by auto
    with True show ?thesis by (intro exI [of _ 0]) simp
  next
    case False
    then obtain e where x: "x = Inl e" "retryable e" "\<not> deadline \<le> at_now a"
      by (auto simp: last_word_def split: sum.splits)
    then have step: "fetch_loop env oid owner deadline (a # bs) dr = fetch_loop env oid owner deadline bs d" for bs
      using f by simp
    with Cons obtain k where "k < length as" "fetch_loop env oid owner deadline (take (Suc k) as) d = Some (dr', r)"
        "last_word deadline (as ! k) r" by metis
    then show ?thesis using step by (intro exI [of _ "Suc k"]) simp
  qed
qed simp

section \<open>The liveness gate\<close>

text \<open>What the gate knows of the owner: the index first, and the listing of a fresh batch when the index has not seen it.\<close>

definition gate_status :: "('c, 'n, 'r) Runtime \<Rightarrow> ('c, 'n, 'r) Script \<Rightarrow> bytes \<Rightarrow> NodeStatus option" where
  "gate_status rt sc owner =
     (case Option.bind (rn_index rt) (\<lambda>i. status_of i owner) of
        Some st \<Rightarrow> Some st
      | None \<Rightarrow> map_option (\<lambda>n. status_of_i32 (ni_status n))
                  (find (\<lambda>n. pn_node_id (convert_node n) = owner) (list_nodes (sc_registry sc))))"

lemma local_status:
  "g = Some s \<Longrightarrow> ses_gcs s = Some b \<Longrightarrow> length owner = 16 \<Longrightarrow>
     node_status_local idx owner g =
       Inr (map_option (\<lambda>st. node_status_str (as_i32 st)) (Option.bind idx (\<lambda>i. status_of i owner)))"
  by (simp add: node_status_local_def with_gcs_def Let_def)

lemma listed_nodes:
  "g = Some s \<Longrightarrow> ses_gcs s = Some b \<Longrightarrow> py_list_nodes shown True g reg = Inr (map convert_node (list_nodes reg))"
  by (simp add: py_list_nodes_def gcs_call_attached gcs_client_list_def map_ok_def map_err_def)

lemma status_of_i32_alive: "status_of_i32 i = Alive \<longleftrightarrow> i = as_i32 Alive"
  by (simp add: status_of_i32_def)

lemma find_map: "find P (map f xs) = map_option f (find (\<lambda>x. P (f x)) xs)"
  by (induction xs) simp_all

lemma convert_status: "pn_status (convert_node n) = node_status_str (ni_status n)"
  by (simp add: convert_node_def Let_def)

lemma gate_opens:
  assumes "rn_session rt = Some s" "ses_gcs s = Some b" "length owner = 16" "sc_reach sc" "gate_status rt sc owner = Some Alive"
  obtains ns where "resolve_remote_ref env p owner sc None rt = fetch_ref env p owner sc ns rt"
proof (cases "Option.bind (rn_index rt) (\<lambda>i. status_of i owner)")
  case None
  then obtain n where n: "find (\<lambda>n. pn_node_id (convert_node n) = owner) (list_nodes (sc_registry sc)) = Some n"
      "ni_status n = as_i32 Alive"
    using assms(5) by (auto simp: gate_status_def status_of_i32_alive)
  then have "find (\<lambda>n. pn_node_id n = owner) (map convert_node (list_nodes (sc_registry sc))) = Some (convert_node n)"
    by (simp add: find_map)
  then show thesis
    using that [of "map convert_node (list_nodes (sc_registry sc))"] None n assms
    by (simp add: resolve_remote_ref_def local_status listed_nodes convert_status alive_iff Let_def)
next
  case (Some st)
  then have "st = Alive" using assms(5) by (simp add: gate_status_def)
  then show thesis using that [of "[]"] Some assms by (simp add: resolve_remote_ref_def local_status alive_iff)
qed

lemma gate_closes:
  assumes "rn_session rt = Some s" "ses_gcs s = Some b" "length owner = 16" "sc_reach sc" "gate_status rt sc owner \<noteq> Some Alive"
  shows "\<exists>what. resolve_remote_ref env p owner sc None rt = Some (rt, Inl (owner_gone env p what))"
proof (cases "Option.bind (rn_index rt) (\<lambda>i. status_of i owner)")
  case None
  let ?f = "find (\<lambda>n. pn_node_id (convert_node n) = owner) (list_nodes (sc_registry sc))"
  have "map_option (\<lambda>n. node_status_str (ni_status n)) ?f \<noteq> Some (ascii ''alive'')"
    using assms(5) None by (auto simp: gate_status_def status_of_i32_alive alive_iff)
  then show ?thesis
    using None assms
    by (auto simp: resolve_remote_ref_def local_status listed_nodes find_map option.map_comp comp_def convert_status Let_def)
next
  case (Some st)
  then have "st \<noteq> Alive" using assms(5) by (simp add: gate_status_def)
  then have "node_status_str (as_i32 st) \<noteq> ascii ''alive''" by (cases st) (simp_all add: alive_iff)
  then show ?thesis
    using Some assms by (intro exI [of _ "node_status_str (as_i32 st)"]) (simp add: resolve_remote_ref_def local_status)
qed

text \<open>Reading one reference of another node.\<close>

lemma facade_get_remote:
  assumes "rn_session rt = Some s" "ses_gcs s = Some b" "ref_owner_node_id (ref_inner p) = Some owner" "owner \<noteq> gb_node_id b"
  shows "facade_get env to_nanos (p, sc) seconds seen rt =
    then_native (\<lambda>g. case seen g of (start, obs) \<Rightarrow> py_get (fe_py env) to_nanos (fe_hook env) p seconds start obs g)
      (map_option (\<lambda>(rt', r). (rt', map_ok (\<lambda>_. ()) r)) (resolve_remote_ref env p owner sc None rt))"
proof (cases "resolve_remote_ref env p owner sc None rt")
  case None
  then show ?thesis using assms by (simp add: facade_get_def ensure_local_for_remote_refs_def)
next
  case (Some y)
  then show ?thesis
    using assms by (cases y; cases "snd y") (simp_all add: facade_get_def ensure_local_for_remote_refs_def map_ok_def)
qed

text \<open>One attempt against a cluster whose directory of the owner lists holders that serve the object.\<close>

definition holders_ready ::
  "('c, 'n, 'r, 'v) FacadeEnv \<Rightarrow> (bytes set \<Rightarrow> bytes list) \<Rightarrow> NodeInfo list \<Rightarrow> cluster \<Rightarrow> bytes \<Rightarrow> bytes \<Rightarrow> bytes \<Rightarrow>
     SocketAddr \<Rightarrow> Raylet \<Rightarrow> Metadata \<Rightarrow> bytes \<Rightarrow> bool" where
  "holders_ready env order ns cl oid owner local oa ow m d \<longleftrightarrow>
     raylet_addr_for (fe_resolve env) ns owner = Some oa \<and> hm_get cl oa = Some ow \<and>
     set (order (directory_locations oid (rl_directory ow))) = directory_locations oid (rl_directory ow) \<and>
     (\<forall>n\<in>directory_locations oid (rl_directory ow). length n = 16) \<and>
     directory_locations oid (rl_directory ow) - {local} \<noteq> {} \<and>
     (\<forall>n\<in>directory_locations oid (rl_directory ow) - {local}. serves (fe_resolve env) ns cl oid (encode m) d n)"

definition no_room :: "'v PyEnv \<Rightarrow> bytes \<Rightarrow> 'v PyErr" where
  "no_room py msg =
     PyRuntimeError (ascii ''seal_into_plasma: '' @ show_core py (CorePlasma (PlasmaServerError OutOfMemory msg)))"

lemma first_attempt:
  assumes tr: "fe_transport env = cluster_transport lib order" "fe_hook env = manager_hook" "at_reach a"
    and dr: "dr_session (at_move a dr) = Some s" "ses_gcs s = Some b" "pool_ok (dr_pool (at_move a dr))" "session_ok base s"
    and len: "length oid = 28" "length owner = 16" "length (gb_node_id b) = 16"
    and hr: "holders_ready env order (list_nodes (at_registry a)) (dr_net (at_move a dr)) oid owner (gb_node_id b) oa ow m d"
    and pl: "cw_plasma (ses_worker s) = Some st" "server_view (snd st) oid = Absent"
  obtains (ok) dr' s' where "native_fetch env oid owner a dr = (dr', Inr ())" "dr_session dr' = Some s'"
      "session_ok base s'" "session_value s' = (session_value s)(ObjectId oid \<mapsto> (m, d))" "ses_gcs s' = ses_gcs s"
  | (full) dr' s' msg where "native_fetch env oid owner a dr = (dr', Inl (no_room (fe_py env) msg))"
      "dr_session dr' = Some s'" "session_value s' = session_value s"
      "snd (seal_value_to_plasma manager_hook (ObjectId oid) m d (ses_worker s)) = Inl (CorePlasma (PlasmaServerError OutOfMemory msg))"
proof -
  obtain dr' x where f: "native_fetch env oid owner a dr = (dr', x)" by fastforce
  then have g: "fetch_object (fe_py env) (fe_dbg env) manager_hook (fe_resolve env) (cluster_transport lib order)
      (Inr (list_nodes (at_registry a))) oid owner (at_move a dr) = (dr', x)"
    using tr by (simp add: native_fetch_def listing_def gcs_client_list_def map_err_def)
  note h = hr [unfolded holders_ready_def]
  from fetch_outcome [where order = order, OF dr len h [THEN conjunct1] h [THEN conjunct2, THEN conjunct1] _ _ _ _ pl g] h
  obtain s' where s': "dr_session dr' = Some s'"
      "x = Inr () \<and> session_ok base s' \<and> ses_gcs s' = ses_gcs s \<and> session_value s' = (session_value s)(ObjectId oid \<mapsto> (m, d)) \<or>
       (\<exists>msg. snd (seal_value_to_plasma manager_hook (ObjectId oid) m d (ses_worker s)) =
          Inl (CorePlasma (PlasmaServerError OutOfMemory msg)) \<and> x = Inl (no_room (fe_py env) msg)) \<and>
       session_value s' = session_value s"
    unfolding no_room_def by blast
  then show thesis using f ok full by blast
qed

text \<open>An example: the driver and the peer of \<open>Peer_Fetch\<close>, with the peer in the registry.\<close>

definition example_fe :: "(SocketAddr, cluster, fs_manager, bytes) FacadeEnv" where
  "example_fe =
     \<lparr>fe_py = example_env, fe_dbg = (\<lambda>_. []), fe_hook = manager_hook, fe_resolve = (\<lambda>_ q. Some [SockV4 [10, 0, 0, 1] q]),
      fe_transport = cluster_transport (\<lambda>_. []) (\<lambda>_. [replicate 16 2]), fe_hex = hex_lower, fe_shown = (\<lambda>_. [])\<rparr>"

definition example_registry :: Registry where
  "example_registry = (Registry_new [] None)\<lparr>nodes := map (\<lambda>n. (replicate 16 2, n)) example_nodes\<rparr>"

definition example_attempt :: "nat \<Rightarrow> ('c, 'n, 'r) Attempt" where
  "example_attempt t = \<lparr>at_move = (\<lambda>dr. dr), at_registry = example_registry, at_reach = True, at_now = t\<rparr>"

definition example_script :: "Registry \<Rightarrow> ('c, 'n, 'r) Script" where
  "example_script reg = \<lparr>sc_registry = reg, sc_reach = True, sc_start = 0, sc_attempts = [example_attempt 0]\<rparr>"

definition example_remote :: "byte \<Rightarrow> PyObjectRef" where
  "example_remote k =
     from_inner (with_owner_node_id (replicate 16 k) (ObjectRef_new (ObjectId (replicate 28 1)) (Address_new [] 0 (WorkerId []))))"

definition example_runtime :: "NodeIndex option \<Rightarrow> conn \<Rightarrow> (SocketAddr, cluster, fs_manager) Runtime" where
  "example_runtime idx st = \<lparr>rn_driver = example_driver st, rn_dispatcher = None, rn_index = idx\<rparr>"

lemma example_remote_simps [simp]:
  "ref_id (example_remote k) = ObjectId (replicate 28 1)"
  "ref_owner_node_id (ref_inner (example_remote k)) = Some (replicate 16 k)"
  by (simp_all add: example_remote_def from_inner_def with_owner_node_id_def ObjectRef_new_def)

lemma replicate_eq_byte: "0 < n \<Longrightarrow> replicate n (a :: byte) = replicate n b \<longleftrightarrow> a = b"
  by (cases n) auto

lemma example_listing: "list_nodes example_registry = example_nodes"
  by (simp add: list_nodes_def registry_snapshot_def example_registry_def comp_def)

lemma example_peer_ok: "session_ok [] example_peer"
  using example_conn_inv
  by (simp add: session_ok_def example_peer_def example_session_def new_local_def CoreWorker_new_def cw_ok_def)

lemma example_no_room: "\<not> retryable (no_room (fe_py example_fe) msg)"
  by (simp add: retryable_def no_room_def example_fe_def example_env_def ascii_def)

lemma example_ready:
  assumes "conn_inv st" "server_view (snd st) (replicate 28 1) = Sealed [2] [9, 8]"
  shows "holders_ready example_fe (\<lambda>_. [replicate 16 2]) example_nodes (dr_net (example_driver st)) (replicate 28 1)
    (replicate 16 2) (replicate 16 3) example_addr (example_owner st) Raw [9, 8]"
proof -
  have addr: "raylet_addr_for (fe_resolve example_fe) example_nodes (replicate 16 2) = Some example_addr"
    by (simp add: example_nodes_def dial_def example_addr_def example_fe_def)
  have locs: "directory_locations (replicate 28 1) (rl_directory (example_owner st)) = {replicate 16 2}"
    by (simp add: example_owner_def directory_locations_def)
  have ow: "hm_get (dr_net (example_driver st)) example_addr = Some (example_owner st)" by (simp add: example_driver_def)
  have "serves (fe_resolve example_fe) example_nodes (dr_net (example_driver st)) (replicate 28 1) (encode Raw) [9, 8] (replicate 16 2)"
    unfolding serves_def using addr ow assms
    by (intro exI [of _ example_addr] exI [of _ "example_owner st"])
      (simp add: example_owner_def example_raylet_def DISCRIMINATOR_RAW_def)
  then show ?thesis
    using addr ow locs replicate_eq_byte [of 16 2 3] by (auto simp: holders_ready_def simp del: encode.simps)
qed

lemma example_seals:
  "\<exists>n. snd (seal_value_to_plasma manager_hook (ObjectId oid) Raw [9, 8] (ses_worker example_peer)) = Inr n"
proof -
  have "snd (client_create_and_seal direct_exchange oid [2] [9, 8] ow example_conn) = Inr ()" for ow
    by (simp add: client_create_and_seal_def client_create_def direct_exchange_def example_conn_def
        example_server_def server_new_def handle_create_def count_create_def alloc_def align_up_def
        OBJECT_ALIGN_def checked_add_def hm_contains_def set_gauges_def slot_info_def
        ensure_arena_mapped_def write_metadata_def write_data_def write_slot_def mmap_write_def
        set_mmap_def client_seal_def handle_seal_def expect_ok_def Let_def)
  then obtain st where st: "client_create_and_seal direct_exchange oid [2] [9, 8] (address_blob (ses_worker example_peer)) example_conn = (st, Inr ())"
    by (metis prod.collapse)
  have m: "encode Raw = [2]" by (simp add: DISCRIMINATOR_RAW_def)
  have p: "cw_plasma (ses_worker example_peer) = Some example_conn" by (simp add: example_peer_def)
  show ?thesis using st unfolding seal_value_to_plasma_def p m by (simp add: Let_def split: prod.split)
qed

lemma example_fetch:
  assumes "conn_inv st" "server_view (snd st) (replicate 28 1) = Sealed [2] [9, 8]"
  obtains dr s where "native_fetch example_fe (replicate 28 1) (replicate 16 2) (example_attempt 0) (example_driver st) = (dr, Inr ())"
    "dr_session dr = Some s" "ses_gcs s = Some example_binding"
proof -
  let ?dr = "at_move (example_attempt 0) (example_driver st)"
  have dr: "dr_session ?dr = Some example_peer" "ses_gcs example_peer = Some example_binding" "pool_ok (dr_pool ?dr)"
    by (simp_all add: example_attempt_def example_driver_def example_peer_def pool_ok_def)
  have hr: "holders_ready example_fe (\<lambda>_. [replicate 16 2]) (list_nodes (at_registry (example_attempt 0))) (dr_net ?dr)
      (replicate 28 1) (replicate 16 2) (gb_node_id example_binding) example_addr (example_owner st) Raw [9, 8]"
    using example_ready [OF assms] by (simp add: example_attempt_def example_listing example_binding_def)
  have pl: "cw_plasma (ses_worker example_peer) = Some example_conn" by (simp add: example_peer_def)
  show thesis
    by (rule first_attempt [OF _ _ _ dr example_peer_ok _ _ _ hr pl example_conn_empty])
      (use that dr(2) example_seals [of "replicate 28 1"] in \<open>auto simp: example_fe_def example_attempt_def example_binding_def\<close>)
qed

text \<open>The first attempt of a read that passes the gate.\<close>

lemma facade_get_outcome:
  assumes "fe_transport env = cluster_transport lib order" and "fe_hook env = manager_hook"
    and "\<forall>msg. \<not> retryable (no_room (fe_py env) msg)"
    and "rn_session rt = Some s" and "ses_gcs s = Some b" and "session_ok base s" and "length (gb_node_id b) = 16"
    and "ref_owner_node_id (ref_inner p) = Some owner" and "owner \<noteq> gb_node_id b" and "length owner = 16"
    and "length (ObjectId_bytes (ref_id p)) = 28"
    and "sc_reach sc" and "gate_status rt sc owner = Some Alive"
    and "sc_attempts sc = a # as" and "at_reach a"
    and "dr_session (at_move a (rn_driver rt)) = Some s" and "pool_ok (dr_pool (at_move a (rn_driver rt)))"
    and "holders_ready env order (list_nodes (at_registry a)) (dr_net (at_move a (rn_driver rt))) (ObjectId_bytes (ref_id p))
      owner (gb_node_id b) oa ow m d"
    and "cw_plasma (ses_worker s) = Some st" and "server_view (snd st) (ObjectId_bytes (ref_id p)) = Absent"
    and "\<And>s'. seen (Some s') = (start s', (cw_store (ses_worker s'), now s') # obs s')"
  shows "\<exists>rt' s' x. facade_get env to_nanos (p, sc) None seen rt = Some (rt', x) \<and> rn_session rt' = Some s' \<and>
    (x = map_err Native (value_from_object (fe_py env) m d) \<and>
       session_value s' = (session_value s)(ref_id p \<mapsto> (m, d))
     \<or> (\<exists>msg. x = Inl (Native (no_room (fe_py env) msg))) \<and> session_value s' = session_value s
     \<or> (\<exists>y. x = map_err Native y \<and> out_of_memory (fe_py env) y) \<and>
       session_value s' = (session_value s)(ref_id p \<mapsto> (m, d)))"
proof -
  let ?oid = "ObjectId_bytes (ref_id p)"
  obtain ns where gate: "resolve_remote_ref env p owner sc None rt = fetch_ref env p owner sc ns rt"
    by (rule gate_opens [OF assms(4,5,10,12,13)])
  note get = facade_get_remote [OF assms(4,5,8,9), of env to_nanos sc None seen, unfolded gate fetch_ref_def fetch_with_retries_def
      assms(14)]
  from assms(1,2,15,16,5,17,6,11,10,7,18,19,20) show ?thesis
  proof (rule first_attempt)
    fix dr' s' assume k: "native_fetch env ?oid owner a (rn_driver rt) = (dr', Inr ())" "dr_session dr' = Some s'"
      "session_ok base s'" "session_value s' = (session_value s)(ObjectId ?oid \<mapsto> (m, d))" "ses_gcs s' = ses_gcs s"
    have v: "session_value s' (ref_id (clone_ref p)) = Some (m, d)" using k(4) by (simp add: clone_ref_def)
    obtain s'' x where g: "get_one (fe_py env) manager_hook (clone_ref p) (start s') None
        ((cw_store (ses_worker s'), now s') # obs s') s' = Some (s'', x)" "session_value s'' = session_value s'"
        "x = value_from_object (fe_py env) m d \<or> out_of_memory (fe_py env) x"
      by (rule get_one_result [OF k(3) v, of "fe_py env" "start s'" None "now s'" "obs s'"]) blast
    have "facade_get env to_nanos (p, sc) None seen rt =
        Some (rt\<lparr>rn_driver := dr'\<lparr>dr_session := Some s''\<rparr>\<rparr>, map_err Native x)"
      using g(1) k(1,2) assms(2,21)
      by (simp add: get then_native_def map_ok_def py_get_def with_timeout_def require_def parse_timeout_def)
    then show ?thesis using g(2,3) k(4) by (intro exI conjI) (auto)
  next
    fix dr' s' msg assume k: "native_fetch env ?oid owner a (rn_driver rt) = (dr', Inl (no_room (fe_py env) msg))"
      "dr_session dr' = Some s'" "session_value s' = session_value s"
      "snd (seal_value_to_plasma manager_hook (ObjectId ?oid) m d (ses_worker s)) = Inl (CorePlasma (PlasmaServerError OutOfMemory msg))"
    have "facade_get env to_nanos (p, sc) None seen rt = Some (rt\<lparr>rn_driver := dr'\<rparr>, Inl (Native (no_room (fe_py env) msg)))"
      using k(1) assms(3) by (simp add: get then_native_def map_ok_def)
    then show ?thesis using k(2,3) by auto
  qed
qed

section \<open>Properties\<close>

text \<open>C12. Reading a reference of another node through the facade: when the owner counts as alive and the attempt finds
  holders that serve the object, \<open>get\<close> returns, and it returns what the owner's object says, the unpickled value or
  the error raised from it, with the object now readable on this node. The only other outcome is that the local
  arena has no room, on sealing the copy or on bringing a spilled copy back.\<close>

theorem remote_get_reads_owner_value:
  assumes "fe_transport env = cluster_transport lib order" and "fe_hook env = manager_hook"
    and "\<forall>msg. \<not> retryable (no_room (fe_py env) msg)"
    and "rn_session rt = Some s" and "ses_gcs s = Some b" and "session_ok base s" and "length (gb_node_id b) = 16"
    and "ref_owner_node_id (ref_inner p) = Some owner" and "owner \<noteq> gb_node_id b" and "length owner = 16"
    and "length (ObjectId_bytes (ref_id p)) = 28"
    and "sc_reach sc" and "gate_status rt sc owner = Some Alive"
    and "sc_attempts sc = a # as" and "at_reach a"
    and "dr_session (at_move a (rn_driver rt)) = Some s" and "pool_ok (dr_pool (at_move a (rn_driver rt)))"
    and "holders_ready env order (list_nodes (at_registry a)) (dr_net (at_move a (rn_driver rt))) (ObjectId_bytes (ref_id p))
      owner (gb_node_id b) oa ow m d"
    and "cw_plasma (ses_worker s) = Some st" and "server_view (snd st) (ObjectId_bytes (ref_id p)) = Absent"
    and "\<And>s'. seen (Some s') = (start s', (cw_store (ses_worker s'), now s') # obs s')"
  shows "\<exists>rt' s' x. facade_get env to_nanos (p, sc) None seen rt = Some (rt', x) \<and> rn_session rt' = Some s' \<and>
    (x = map_err Native (value_from_object (fe_py env) m d) \<and>
       session_value s' = (session_value s)(ref_id p \<mapsto> (m, d))
     \<or> (\<exists>msg. x = Inl (Native (no_room (fe_py env) msg))) \<and> session_value s' = session_value s
     \<or> (\<exists>y. x = map_err Native y \<and> out_of_memory (fe_py env) y) \<and>
       session_value s' = (session_value s)(ref_id p \<mapsto> (m, d)))"
  by (rule facade_get_outcome [OF assms])

theorem remote_get_reads_owner_value_witness:
  "\<exists>st rt s x. facade_get example_fe (\<lambda>_. 0) (example_remote 2, example_script example_registry) None
       (\<lambda>g. (0, case g of None \<Rightarrow> [] | Some s \<Rightarrow> [(cw_store (ses_worker s), 0)])) (example_runtime None st) = Some (rt, x) \<and>
     rn_session rt = Some s \<and>
     (x = Inr [9, 8] \<and> session_value s (ObjectId (replicate 28 1)) = Some (Raw, [9, 8]) \<or>
      (\<exists>e. x = Inl (Native e)))"
proof -
  obtain st where st: "conn_inv st" "server_view (snd st) (replicate 28 1) = Sealed [2] [9, 8]" by (rule example_object)
  let ?rt = "example_runtime None st" and ?a = "example_attempt 0 :: (SocketAddr, cluster, fs_manager) Attempt"
  let ?seen = "\<lambda>g. (0, case g of None \<Rightarrow> [] | Some s \<Rightarrow> [(cw_store (ses_worker s), 0)])"
  have gate: "gate_status ?rt (example_script example_registry) (replicate 16 2) = Some Alive"
    unfolding gate_status_def by (simp add: example_runtime_def example_script_def example_listing example_nodes_def
        convert_node_def status_of_i32_def)
  have ne: "replicate 16 2 \<noteq> gb_node_id example_binding"
    by (simp add: example_binding_def replicate_eq_byte)
  have seen: "?seen (Some s) = (0, (cw_store (ses_worker s), 0) # [])" for s :: "fs_manager Session" by simp
  from remote_get_reads_owner_value [where env = example_fe and rt = ?rt and p = "example_remote 2" and seen = ?seen
      and sc = "example_script example_registry" and a = ?a and to_nanos = "\<lambda>_. 0" and start = "\<lambda>_. 0" and now = "\<lambda>_. 0" and obs = "\<lambda>_. []",
      OF _ _ _ _ _ example_peer_ok _ _ ne _ _ _ gate _ _ _ _ _ _ _ seen,
      of "\<lambda>_. []" "\<lambda>_. [replicate 16 2]" "[]" example_addr "example_owner st" Raw "[9, 8]" example_conn]
    example_ready [OF st] example_no_room example_conn_empty
  have "\<exists>rt' s' x. facade_get example_fe (\<lambda>_. 0) (example_remote 2, example_script example_registry) None ?seen ?rt = Some (rt', x) \<and>
      rn_session rt' = Some s' \<and>
      (x = map_err Native (value_from_object (fe_py example_fe) Raw [9, 8]) \<and>
         session_value s' = (session_value example_peer)(ref_id (example_remote 2) \<mapsto> (Raw, [9, 8]))
       \<or> (\<exists>msg. x = Inl (Native (no_room (fe_py example_fe) msg))) \<and> session_value s' = session_value example_peer
       \<or> (\<exists>y. x = map_err Native y \<and> out_of_memory (fe_py example_fe) y) \<and>
         session_value s' = (session_value example_peer)(ref_id (example_remote 2) \<mapsto> (Raw, [9, 8])))"
    by (simp add: example_fe_def example_script_def example_attempt_def example_runtime_def example_driver_def
        example_peer_def example_binding_def pool_ok_def example_listing)
  then obtain rt s x where k: "facade_get example_fe (\<lambda>_. 0) (example_remote 2, example_script example_registry) None ?seen ?rt = Some (rt, x)"
      "rn_session rt = Some s"
      "x = map_err Native (value_from_object (fe_py example_fe) Raw [9, 8]) \<and> session_value s (ref_id (example_remote 2)) = Some (Raw, [9, 8])
       \<or> (\<exists>e. x = Inl (Native e))"
    unfolding out_of_memory_def by (auto simp: map_err_def)
  have "map_err Native (value_from_object (fe_py example_fe) Raw [9, 8]) = Inr [9, 8]"
    by (simp add: value_from_object_def example_fe_def example_env_def map_err_def)
  with k show ?thesis by (intro exI [of _ st] exI [of _ rt] exI [of _ s] exI [of _ x]) simp
qed

text \<open>C38. The liveness gate: a reference of another node whose owner is not alive, in the node index or, when the index
  has not seen the owner, in the registry, makes \<open>get\<close> raise \<open>OwnerDiedError\<close> without touching the session or the
  network, also when a copy of the object is readable on this node.\<close>

theorem dead_owner_is_reported:
  assumes "rn_session rt = Some s" and "ses_gcs s = Some b"
    and "ref_owner_node_id (ref_inner p) = Some owner" and "owner \<noteq> gb_node_id b" and "length owner = 16"
    and "sc_reach sc" and "gate_status rt sc owner \<noteq> Some Alive"
  shows "\<exists>what. facade_get env to_nanos (p, sc) seconds seen rt = Some (rt, Inl (owner_gone env p what))"
proof -
  obtain what where "resolve_remote_ref env p owner sc None rt = Some (rt, Inl (owner_gone env p what))"
    using gate_closes [OF assms(1,2,5,6,7), of env p] by blast
  then show ?thesis
    unfolding facade_get_remote [OF assms(1-4)] by (intro exI [of _ what]) (simp add: then_native_def map_ok_def)
qed

theorem dead_owner_is_reported_witness:
  "\<exists>what. facade_get example_fe (\<lambda>_. 0) (example_remote 2, example_script (Registry_new [] None)) None (\<lambda>_. (0, []))
     (example_runtime None example_conn) = Some (example_runtime None example_conn, Inl (owner_gone example_fe (example_remote 2) what))"
proof (rule dead_owner_is_reported [where s = example_peer and b = example_binding and owner = "replicate 16 2"])
  show "replicate 16 2 \<noteq> gb_node_id example_binding" by (simp add: example_binding_def replicate_eq_byte)
qed (simp_all add: example_runtime_def example_driver_def example_peer_def example_script_def gate_status_def list_nodes_def
    registry_snapshot_def Registry_new_def)

text \<open>Fetching ends: with the pause of 50 ms between attempts, at most 101 attempts are made, whatever the peers
  do, and the outcome is a success, an error other than a missing holder, or the missing holder reported after
  the budget of five seconds.\<close>

lemma fetch_retries_end:
  assumes "\<forall>i<length as. start + i * FETCH_RETRY_SLEEP \<le> at_now (as ! i)" and "100 < length as"
  shows "\<exists>k\<le>100. \<exists>dr' r. fetch_with_retries env oid owner start as dr = Some (dr', r) \<and>
    fetch_with_retries env oid owner start (take (Suc k) as) dr = Some (dr', r) \<and>
    last_word (start + FETCH_RETRY_TOTAL) (as ! k) r"
proof -
  let ?short = "take 101 as"
  have "at_now (as ! 100) \<ge> start + FETCH_RETRY_TOTAL" "as ! 100 \<in> set ?short"
    using assms by (auto simp: FETCH_RETRY_SLEEP_def FETCH_RETRY_TOTAL_def in_set_conv_nth intro!: exI [of _ 100])
  then have "fetch_loop env oid owner (start + FETCH_RETRY_TOTAL) ?short dr \<noteq> None"
    using fetch_loop_waiting [of env oid owner "start + FETCH_RETRY_TOTAL" ?short dr] by fastforce
  then obtain dr' r where s: "fetch_loop env oid owner (start + FETCH_RETRY_TOTAL) ?short dr = Some (dr', r)" by fastforce
  obtain k where k: "k < length ?short" "fetch_loop env oid owner (start + FETCH_RETRY_TOTAL) (take (Suc k) ?short) dr = Some (dr', r)"
      "last_word (start + FETCH_RETRY_TOTAL) (?short ! k) r"
    using fetch_loop_returns [OF s] by blast
  have more: "fetch_loop env oid owner D (xs @ ys) d = Some z" if "fetch_loop env oid owner D xs d = Some z" for D xs ys d z
    using that by (induction xs arbitrary: d) (auto split: prod.splits sum.splits if_splits)
  have "fetch_with_retries env oid owner start as dr = Some (dr', r)"
    using more [OF s, of "drop 101 as"] by (simp add: fetch_with_retries_def)
  moreover have "k < 101" using k(1) by simp
  then have "take (Suc k) ?short = take (Suc k) as" "?short ! k = as ! k" by (simp_all add: min_absorb1)
  ultimately show ?thesis using k(2,3) \<open>k < 101\<close> by (intro exI [of _ k] exI [of _ dr'] exI [of _ r]) (simp add: fetch_with_retries_def)
qed

lemma fetch_retries_end_witness:
  "\<exists>k\<le>100. \<exists>dr r. fetch_with_retries example_fe (replicate 28 7) (replicate 16 2) 0 (map (\<lambda>i. example_attempt (50 * i)) [0..<101])
       (example_driver example_conn) = Some (dr, r) \<and>
     fetch_with_retries example_fe (replicate 28 7) (replicate 16 2) 0 (take (Suc k) (map (\<lambda>i. example_attempt (50 * i)) [0..<101]))
       (example_driver example_conn) = Some (dr, r) \<and>
     last_word 5000 (example_attempt (50 * k) :: (SocketAddr, cluster, fs_manager) Attempt) r"
proof -
  let ?as = "map (\<lambda>i. example_attempt (50 * i) :: (SocketAddr, cluster, fs_manager) Attempt) [0..<101]"
  have "\<forall>i<length ?as. 0 + i * FETCH_RETRY_SLEEP \<le> at_now (?as ! i)" "100 < length ?as"
    by (simp_all add: example_attempt_def FETCH_RETRY_SLEEP_def)
  from fetch_retries_end [OF this, of example_fe "replicate 28 7" "replicate 16 2" "example_driver example_conn"]
  obtain k dr r where k: "k \<le> 100" "fetch_with_retries example_fe (replicate 28 7) (replicate 16 2) 0 ?as (example_driver example_conn) = Some (dr, r)"
    "fetch_with_retries example_fe (replicate 28 7) (replicate 16 2) 0 (take (Suc k) ?as) (example_driver example_conn) = Some (dr, r)"
    "last_word (0 + FETCH_RETRY_TOTAL) (?as ! k) r" by blast
  have "last_word 5000 (example_attempt (50 * k) :: (SocketAddr, cluster, fs_manager) Attempt) r"
    using k(1,4) by (simp add: FETCH_RETRY_TOTAL_def del: upt_Suc)
  with k(1-3) show ?thesis by blast
qed

text \<open>The listing shared by a batch: after a reference whose owner the index knows, the cache of the batch is the
  empty list, so a second reference whose owner the index has not seen is reported as owned by a node absent from the
  control store, whatever the registry says.\<close>

lemma shared_cache_hides_owner:
  assumes "rn_session rt = Some s" and "ses_gcs s = Some b" and "length o1 = 16" and "length o2 = 16"
    and "ref_owner_node_id (ref_inner p) = Some o1" and "ref_owner_node_id (ref_inner q) = Some o2"
    and "o1 \<noteq> gb_node_id b" and "o2 \<noteq> gb_node_id b"
    and "rn_index rt = Some idx" and "status_of idx o1 = Some Alive" and "status_of idx o2 = None"
    and "fetch_ref env p o1 scp ([] :: PyNodeInfo list) rt = Some (rt', Inr [])" and "rn_session rt' = Some s'" and "ses_gcs s' = Some b"
  shows "ensure_local_for_remote_refs env [(p, scp), (q, scq)] rt =
    Some (rt', Inl (owner_gone env q (ascii ''absent from GCS'')))"
proof -
  have idx: "rn_index rt' = Some idx" using assms(9,12) by (auto simp: fetch_ref_def)
  have "resolve_remote_ref env p o1 scp None rt = Some (rt', Inr [])"
    using assms by (simp add: resolve_remote_ref_def local_status alive_iff)
  moreover have "resolve_remote_ref env q o2 scq (Some []) rt' = Some (rt', Inl (owner_gone env q (ascii ''absent from GCS'')))"
    using assms idx by (simp add: resolve_remote_ref_def local_status)
  ultimately show ?thesis using assms by (simp add: ensure_local_for_remote_refs_def)
qed

lemma shared_cache_hides_owner_witness:
  "\<exists>st rt idx. status_of idx (replicate 16 2) = Some Alive \<and>
     ensure_local_for_remote_refs example_fe
       [(example_remote 2, example_script example_registry), (example_remote 5, example_script example_registry)]
       (example_runtime (Some idx) st) = Some (rt, Inl (owner_gone example_fe (example_remote 5) (ascii ''absent from GCS'')))"
proof -
  obtain st where st: "conn_inv st" "server_view (snd st) (replicate 28 1) = Sealed [2] [9, 8]" by (rule example_object)
  let ?idx = "[(replicate 16 2, \<lparr>ne_status = Alive, ne_addr = example_addr\<rparr>)] :: NodeIndex"
  let ?rt = "example_runtime (Some ?idx) st"
  obtain dr s where f: "native_fetch example_fe (replicate 28 1) (replicate 16 2) (example_attempt 0) (example_driver st) = (dr, Inr ())"
      "dr_session dr = Some s" "ses_gcs s = Some example_binding"
    by (rule example_fetch [OF st])
  have r: "fetch_ref example_fe (example_remote 2) (replicate 16 2) (example_script example_registry) ([] :: PyNodeInfo list) ?rt =
      Some (?rt\<lparr>rn_driver := dr\<rparr>, Inr [])"
    using f(1) by (simp add: fetch_ref_def fetch_with_retries_def example_script_def example_runtime_def)
  have ne: "replicate 16 2 \<noteq> gb_node_id example_binding" "replicate 16 5 \<noteq> gb_node_id example_binding"
      "(replicate 16 2 :: bytes) \<noteq> replicate 16 5"
    by (simp_all add: example_binding_def replicate_eq_byte)
  have "ensure_local_for_remote_refs example_fe
       [(example_remote 2, example_script example_registry), (example_remote 5, example_script example_registry)] ?rt =
     Some (?rt\<lparr>rn_driver := dr\<rparr>, Inl (owner_gone example_fe (example_remote 5) (ascii ''absent from GCS'')))"
    by (rule shared_cache_hides_owner [where idx = ?idx and s = example_peer and s' = s and b = example_binding, OF _ _ _ _ _ _ ne(1,2) _ _ _ r])
      (use f ne(3) in \<open>simp_all add: example_runtime_def example_driver_def example_peer_def status_of_def del: replicate.simps\<close>)
  moreover have "status_of ?idx (replicate 16 2) = Some Alive" by (simp add: status_of_def)
  ultimately show ?thesis by blast
qed

text \<open>C39. A lost object of this node: when the task that made it has completed and has retries left, \<open>get\<close> hands the
  task to the dispatcher once; asking again before the new run completes hands out nothing more and raises nothing.\<close>

theorem lost_object_resubmitted_once:
  assumes "rn_session rt = Some s" and "py_state p (Some s) = Pending" and "length (ObjectId_bytes (ref_id p)) = 28"
    and "rn_dispatcher rt = Some d" and "tasks d = Some tm" and "hm_wf tm" and "\<not> shutdown_flag d"
    and "lineage_status (ref_id p) tm = ReadyToResubmit"
  shows "\<exists>r d'. hm_get tm (ref_id p) = Some r \<and> accepted d' = accepted d @ [job_of r] \<and>
    maybe_resubmit_local_lineage env p rt = (rt\<lparr>rn_dispatcher := Some d'\<rparr>, Inr ()) \<and>
    maybe_resubmit_local_lineage env p (rt\<lparr>rn_dispatcher := Some d'\<rparr>) = (rt\<lparr>rn_dispatcher := Some d'\<rparr>, Inr ())"
proof -
  from try_resubmit_cases [OF assms(6), of "ref_id p"] obtain r m' where
    k: "hm_get tm (ref_id p) = Some r" "try_resubmit (ref_id p) tm = (m', Some (job_of r))"
      "hm_get m' (ref_id p) = map_option (\<lambda>r'. if rec_task_id r' = rec_task_id r then spent r' else r') (hm_get tm (ref_id p))"
    by cases (use assms(8) in auto)
  have again: "lineage_status (ref_id p) m' = NotYetCompleted" using k(1,3) by (simp add: lineage_status_def)
  have strs: "ascii ''not_yet_completed'' \<noteq> ascii ''ready''" "ascii ''not_yet_completed'' \<noteq> ascii ''exhausted''"
    by (simp_all add: ascii_def)
  let ?d = "submit_check (job_of r) (d\<lparr>tasks := Some m'\<rparr>)"
  have d: "tasks ?d = Some m'" "accepted ?d = accepted d @ [job_of r]"
    using assms(7) by (simp_all add: submit_check_def)
  have first: "maybe_resubmit_local_lineage env p rt = (rt\<lparr>rn_dispatcher := Some ?d\<rparr>, Inr ())"
    using assms k(2)
    by (simp add: maybe_resubmit_local_lineage_def lineage_status_str_def parse_object_id_28_def map_ok_def lineage_str_def
        resubmit_entry_def try_resubmit_for_lineage_def Let_def)
  have second: "maybe_resubmit_local_lineage env p (rt\<lparr>rn_dispatcher := Some ?d\<rparr>) = (rt\<lparr>rn_dispatcher := Some ?d\<rparr>, Inr ())"
    using assms(1-3) d(1) again strs
    by (simp add: maybe_resubmit_local_lineage_def lineage_status_str_def parse_object_id_28_def map_ok_def lineage_str_def Let_def)
  show ?thesis using k(1) d(2) first second by blast
qed

theorem lost_object_resubmitted_once_witness:
  "\<exists>r d. accepted d = [job_of r] \<and>
     maybe_resubmit_local_lineage example_fe (from_inner (ObjectRef_new (ObjectId (replicate 28 1)) (Address_new [] 0 (WorkerId []))))
       ((example_runtime None example_conn)\<lparr>rn_dispatcher := Some (Dispatcher_start (MemoryStore_new 16, None) (Some
          [(ObjectId (replicate 28 1), \<lparr>rec_task_id = TaskId [], rec_num_returns = 1, rec_callable_blob = [], rec_args_blob = [],
             rec_kwargs_blob = None, retries_remaining = 3, was_completed = True\<rparr>)]))\<rparr>) =
       ((example_runtime None example_conn)\<lparr>rn_dispatcher := Some d\<rparr>, Inr ())"
proof -
  let ?p = "from_inner (ObjectRef_new (ObjectId (replicate 28 1)) (Address_new [] 0 (WorkerId [])))"
  let ?tm = "[(ObjectId (replicate 28 1), \<lparr>rec_task_id = TaskId [], rec_num_returns = 1, rec_callable_blob = [], rec_args_blob = [],
             rec_kwargs_blob = None, retries_remaining = 3, was_completed = True\<rparr>)]"
  let ?d = "Dispatcher_start (MemoryStore_new 16, None) (Some ?tm)"
  let ?rt = "(example_runtime None example_conn)\<lparr>rn_dispatcher := Some ?d\<rparr>"
  have p: "ref_owner_node_id (ref_inner ?p) = None" by (simp add: from_inner_def ObjectRef_new_def)
  have k: "rn_session ?rt = Some example_peer" "py_state ?p (Some example_peer) = Pending" "length (ObjectId_bytes (ref_id ?p)) = 28"
    "rn_dispatcher ?rt = Some ?d" "tasks ?d = Some ?tm" "hm_wf ?tm" "\<not> shutdown_flag ?d"
    "lineage_status (ref_id ?p) ?tm = ReadyToResubmit"
    using p by (simp_all add: example_runtime_def example_driver_def py_state_def example_peer_def example_session_def
        new_local_def CoreWorker_new_def MemoryStore_new_def state_of_def Dispatcher_start_def lineage_status_def Let_def)
  from lost_object_resubmitted_once [OF k, of example_fe] obtain r d where
    "accepted d = accepted ?d @ [job_of r]" "maybe_resubmit_local_lineage example_fe ?p ?rt = (?rt\<lparr>rn_dispatcher := Some d\<rparr>, Inr ())"
    by blast
  then show ?thesis by (intro exI [of _ r] exI [of _ d]) (simp add: Dispatcher_start_def)
qed

end
