(* ===== verification/Remote_Actor.thy ===== *)
theory Remote_Actor
imports Actor Remote_Get
begin

text \<open>
  Actors across drivers: handles and their pickles, named actors, and calls to the actor of another driver
  (\<open>python/rayd/_actor.py\<close>), with the listener that serves them (\<open>_actor_rpc.py\<close>).  A connection carries one
  call; the frames of both sides go through a codec whose law is a hypothesis where it is used.
\<close>

section \<open>Handles\<close>

datatype ActorHandle = LocalHandle bytes | RemoteHandle bytes bytes bytes nat

datatype 'v HandleErr =
    HandleNative "'v PyErr"
  | HandleValueError bytes
  | HandleRuntimeError bytes
  | HandleLookupError bytes
  | HandleOSError bytes
  | HandleOwnerDied bytes
  | HandleActorDied bytes
  | HandleBadReply

text \<open>
  What the handle code reads of a process: the actor registry, the address of the listener and the session.  An
  id is in \<open>pr_partial\<close> while its object is registered but not yet constructed.
\<close>

record 'r Process =
  pr_actors :: "(bytes, 'r Actor) hmap"
  pr_partial :: "bytes set"
  pr_rpc :: "(bytes \<times> nat) option"
  pr_session :: "'r Session option"

definition is_registered :: "'r Process \<Rightarrow> bytes \<Rightarrow> bool" where
  "is_registered pr aid \<longleftrightarrow> hm_contains (pr_actors pr) aid \<or> aid \<in> pr_partial pr"

definition ACTOR_ID_SIZE :: nat where
  "ACTOR_ID_SIZE = 16"

definition NODE_ID_SIZE :: nat where
  "NODE_ID_SIZE = 16"

definition no_listener :: bytes where
  "no_listener =
     ascii ''actor's owner driver did not advertise an RPC address (it likely registered without an actor-RPC listener ''
     @ [0xE2, 0x80, 0x94] @ ascii '' check that `rayd.init` brought the listener up there)''"

definition remote_handle_new :: "bytes \<Rightarrow> bytes \<Rightarrow> bytes \<Rightarrow> nat \<Rightarrow> ('v HandleErr, ActorHandle) result" where
  "remote_handle_new aid owner hst prt =
     (if length aid \<noteq> ACTOR_ID_SIZE
      then Inl (HandleValueError (ascii ''actor_id must be 16 bytes, got '' @ dec_digits (length aid)))
      else if length owner \<noteq> NODE_ID_SIZE
      then Inl (HandleValueError (ascii ''owner_node_id must be 16 bytes, got '' @ dec_digits (length owner)))
      else if hst = [] \<or> prt = 0 then Inl (HandleRuntimeError no_listener)
      else Inr (RemoteHandle aid owner hst prt))"

text \<open>The arguments of the pickle factory.\<close>

definition advertised :: "'r Process \<Rightarrow> bytes \<times> nat" where
  "advertised pr = (case pr_rpc pr of None \<Rightarrow> ([], 0) | Some a \<Rightarrow> a)"

definition reduce_handle :: "ActorHandle \<Rightarrow> 'r Process \<Rightarrow> ('v HandleErr, bytes \<times> bytes \<times> bytes \<times> nat) result" where
  "reduce_handle h pr =
     (case h of
        RemoteHandle aid owner hst prt \<Rightarrow> Inr (aid, owner, hst, prt)
      | LocalHandle aid \<Rightarrow>
          (case py_node_id (pr_session pr) of
             Inl e \<Rightarrow> Inl (HandleNative e)
           | Inr n \<Rightarrow>
               (case advertised pr of
                  (hst, prt) \<Rightarrow> Inr (aid, case n of None \<Rightarrow> [] | Some nid \<Rightarrow> nid, hst, prt))))"

definition local_node :: "'r Process \<Rightarrow> bytes option" where
  "local_node pr = Option.bind (pr_session pr) (\<lambda>s. map_option gb_node_id (ses_gcs s))"

definition rebuild_actor_handle ::
  "bytes \<times> bytes \<times> bytes \<times> nat \<Rightarrow> 'r Process \<Rightarrow> ('v HandleErr, ActorHandle) result" where
  "rebuild_actor_handle args pr =
     (case args of
        (aid, owner, hst, prt) \<Rightarrow>
          if is_registered pr aid then Inr (LocalHandle aid)
          else if owner \<noteq> [] \<and> local_node pr \<noteq> None \<and> local_node pr \<noteq> Some owner \<and> hst \<noteq> [] \<and> 0 < prt
          then remote_handle_new aid owner hst prt
          else Inl (HandleLookupError (ascii ''actor '' @ hex_lower aid
                 @ ascii '' is not registered in this driver (terminated, or unpickled in a process that never owned it)'')))"

text \<open>\<open>rep\<close> is Python's \<open>repr\<close> of a string.\<close>

definition get_actor_handle ::
  "(GcsClientError \<Rightarrow> bytes) \<Rightarrow> (bytes \<Rightarrow> bytes) \<Rightarrow> (bytes \<Rightarrow> bytes) \<Rightarrow> bool \<Rightarrow> bytes \<Rightarrow> ActorsRegistry \<Rightarrow> 'r Process \<Rightarrow>
     ('v HandleErr, ActorHandle) result" where
  "get_actor_handle shown dbg rep reach name reg pr =
     (case lookup_named_actor shown dbg reach name (pr_session pr) reg of
        Inl e \<Rightarrow> Inl (HandleNative e)
      | Inr None \<Rightarrow> Inl (HandleValueError (ascii ''no actor named '' @ rep name))
      | Inr (Some info) \<Rightarrow>
          if is_registered pr (pa_actor_id info) then Inr (LocalHandle (pa_actor_id info))
          else remote_handle_new (pa_actor_id info) (pa_owner_node_id info) (pa_driver_actor_host info)
                 (unat (pa_driver_actor_port info)))"

section \<open>Creating an actor\<close>

text \<open>
  The constructor of \<open>_ActorSubprocess\<close>: the registry entry first, then the name, then the subprocess.  Only a failing
  spawn, which raises \<open>spawn_error\<close>, is rolled back.
\<close>

definition create_actor ::
  "(GcsClientError \<Rightarrow> bytes) \<Rightarrow> (bytes \<Rightarrow> bytes) \<Rightarrow> bool \<Rightarrow> u64 \<Rightarrow> u32 \<Rightarrow> bytes \<Rightarrow> nat \<Rightarrow> bytes option \<Rightarrow>
     'v HandleErr option \<Rightarrow> 'r Process \<times> ActorsRegistry \<Rightarrow> ('r Process \<times> ActorsRegistry) \<times> ('v HandleErr, ActorHandle) result" where
  "create_actor shown dbg reach now_ms pid aid max_restarts name spawn_error pg =
     (case pg of
        (pr, reg) \<Rightarrow>
          (let pr1 = pr\<lparr>pr_partial := insert aid (pr_partial pr)\<rparr>;
               named =
                 (case name of
                    None \<Rightarrow> (reg, Inr ())
                  | Some nm \<Rightarrow>
                      (case advertised pr1 of
                         (hst, prt) \<Rightarrow> register_named_actor shown dbg reach now_ms pid nm aid hst (of_nat prt) (pr_session pr1) reg))
           in case named of
                (reg1, Inl e) \<Rightarrow> ((pr1, reg1), Inl (HandleNative e))
              | (reg1, Inr _) \<Rightarrow>
                  (let pr2 = pr1\<lparr>pr_partial := pr_partial pr1 - {aid}\<rparr>
                   in case spawn_error of
                        None \<Rightarrow>
                          ((pr2\<lparr>pr_actors := hm_insert aid (new_actor max_restarts name (pr_session pr)) (pr_actors pr2)\<rparr>, reg1),
                           Inr (LocalHandle aid))
                      | Some e \<Rightarrow>
                          ((pr2,
                            case name of
                              None \<Rightarrow> reg1
                            | Some nm \<Rightarrow>
                                fst (unregister_named_actor shown reach nm aid (pr_session pr) reg1
                                       :: ActorsRegistry \<times> ('v PyErr, unit) result)),
                           Inl e))))"

definition unregister_name_from_gcs ::
  "(GcsClientError \<Rightarrow> bytes) \<Rightarrow> bool \<Rightarrow> bytes \<Rightarrow> 'r Session option \<Rightarrow> 'r Actor \<times> ActorsRegistry \<Rightarrow> 'r Actor \<times> ActorsRegistry" where
  "unregister_name_from_gcs shown reach aid g ar =
     (case ar of
        (ac, reg) \<Rightarrow>
          (case ac_registered_name ac of
             None \<Rightarrow> (ac, reg)
           | Some nm \<Rightarrow>
               (ac\<lparr>ac_registered_name := None\<rparr>,
                fst (unregister_named_actor shown reach nm aid g reg :: ActorsRegistry \<times> (unit PyErr, unit) result))))"

text \<open>A call through a handle of this process.\<close>

definition dispatch_error :: "DispatchError \<Rightarrow> 'v HandleErr" where
  "dispatch_error e =
     (case e of
        ActorTerminated \<Rightarrow> HandleRuntimeError (ascii ''actor has been terminated'')
      | ActorDied \<Rightarrow> HandleActorDied (ascii ''actor has died and exhausted its restart budget''))"

definition submit_local :: "'r Actor \<Rightarrow> 'r Actor \<times> ('v HandleErr, PyObjectRef) result" where
  "submit_local ac =
     (case mint_actor_result_ref None (ac_session ac) of
        (g, Inl e) \<Rightarrow> (ac\<lparr>ac_session := g\<rparr>, Inl (HandleNative e))
      | (g, Inr p) \<Rightarrow>
          (case dispatch_call (ObjectId_bytes (ref_id p)) (ac\<lparr>ac_session := g\<rparr>) of
             (ac', Inl e) \<Rightarrow> (ac', Inl (dispatch_error e))
           | (ac', Inr _) \<Rightarrow> (ac', Inr p)))"

section \<open>The listener\<close>

datatype RpcMsg = RpcInvoke "bytes field" CallMessage | RpcOther

datatype WireReply = WireAck | WireReject bytes | WireOther bytes

definition dispatch_error_str :: "DispatchError \<Rightarrow> bytes" where
  "dispatch_error_str e =
     (case dispatch_error e :: unit HandleErr of HandleRuntimeError msg \<Rightarrow> msg | HandleActorDied msg \<Rightarrow> msg | _ \<Rightarrow> [])"

text \<open>\<open>oserr\<close> is the text of a failing send to the subprocess.\<close>

definition reply_message :: "bytes \<Rightarrow> InvokeReply \<Rightarrow> WireReply" where
  "reply_message oserr r =
     (case r of
        InvokeAck \<Rightarrow> WireAck
      | RejectMalformed \<Rightarrow> WireReject (ascii ''malformed'')
      | RejectUnknown \<Rightarrow> WireReject (ascii ''unknown_actor_id'')
      | RejectOther e \<Rightarrow> WireReject (dispatch_error_str e)
      | RejectSend \<Rightarrow> WireReject oserr)"

text \<open>
  A connection over what its socket yields, with the stop flag read before each frame; \<open>sent\<close> says whether the
  next frame to the subprocess can be sent.  The flag of the result is a closed connection.
\<close>

fun serve_connection ::
  "(bytes \<Rightarrow> RpcMsg option) \<Rightarrow> (bool \<times> WorkerInput \<times> bool) list \<Rightarrow> (bytes, 'r Actor) hmap \<Rightarrow>
     (bytes, 'r Actor) hmap \<times> InvokeReply list \<times> bool" where
  "serve_connection dec [] table = (table, [], False)"
| "serve_connection dec ((stop, inp, sent) # rest) table =
     (if stop then (table, [], True)
      else
        (case inp of
           InFrame frame \<Rightarrow>
             (case dec frame of
                Some (RpcInvoke aid m) \<Rightarrow>
                  (case handle_invoke aid m sent table of
                     (table', reply) \<Rightarrow>
                       (case serve_connection dec rest table' of (table'', replies, closed) \<Rightarrow> (table'', reply # replies, closed)))
              | _ \<Rightarrow> (table, [], True))
         | _ \<Rightarrow> (table, [], True)))"

section \<open>The caller\<close>

datatype Dial = DialRefused bytes | DialBroken bytes | DialTooLarge nat | DialClosed | DialReply bytes

text \<open>The pickles of both directions, and Python's \<open>repr\<close> of a string.\<close>

record RpcCodec =
  rpc_dumps :: "RpcMsg \<Rightarrow> bytes"
  rpc_loads :: "bytes \<Rightarrow> RpcMsg option"
  reply_dumps :: "WireReply \<Rightarrow> bytes"
  reply_loads :: "bytes \<Rightarrow> WireReply option"
  py_repr :: "bytes \<Rightarrow> bytes"

text \<open>The owner's listener as a peer sees it: a call over a fresh connection.\<close>

definition dial_owner :: "RpcCodec \<Rightarrow> bytes \<Rightarrow> bool \<Rightarrow> bytes \<Rightarrow> (bytes, 'r Actor) hmap \<Rightarrow> (bytes, 'r Actor) hmap \<times> Dial" where
  "dial_owner c oserr sent frame table =
     (case serve_connection (rpc_loads c) [(False, InFrame frame, sent)] table of
        (table', [], _) \<Rightarrow> (table', DialClosed)
      | (table', r # _, _) \<Rightarrow> (table', DialReply (reply_dumps c (reply_message oserr r))))"

definition call_message :: "bytes \<Rightarrow> bytes \<Rightarrow> bytes option \<Rightarrow> bytes \<Rightarrow> CallMessage" where
  "call_message method_name args kwargs oid =
     \<lparr>call_method = Present method_name, call_args = Present args,
      call_kwargs = (case kwargs of None \<Rightarrow> Missing | Some k \<Rightarrow> Present k), call_result_oid = Present oid\<rparr>"

definition owner_died_or_propagate ::
  "bytes \<Rightarrow> bytes \<Rightarrow> ('v PyErr, PyNodeInfo list) result \<Rightarrow> bytes \<Rightarrow> 'v HandleErr" where
  "owner_died_or_propagate aid owner listed err =
     (case listed of
        Inl _ \<Rightarrow> HandleOSError err
      | Inr ns \<Rightarrow>
          (let owner_status = map_option pn_status (find (\<lambda>n. pn_node_id n = owner) ns)
           in if owner_status = Some (ascii ''alive'') then HandleOSError err
              else HandleOwnerDied (ascii ''actor '' @ hex_lower aid @ ascii (CHR 0x27 # ''s owner driver is '')
                     @ (case owner_status of None \<Rightarrow> ascii ''absent from GCS'' | Some st \<Rightarrow> if st = [] then ascii ''absent from GCS'' else st) @ ascii ''; cannot dispatch'')))"

definition remote_reply :: "(bytes \<Rightarrow> bytes) \<Rightarrow> bytes \<Rightarrow> PyObjectRef \<Rightarrow> WireReply option \<Rightarrow> ('v HandleErr, PyObjectRef) result" where
  "remote_reply rep aid p reply =
     (case reply of
        None \<Rightarrow> Inl HandleBadReply
      | Some WireAck \<Rightarrow> Inr p
      | Some (WireReject reason) \<Rightarrow>
          if reason = ascii ''unknown_actor_id''
          then Inl (HandleActorDied (ascii ''actor '' @ hex_lower aid
                 @ ascii '' is no longer alive on its owner driver (terminated or crashed past max_restarts)''))
          else Inl (HandleRuntimeError (ascii ''owner driver rejected actor_invoke: '' @ rep reason))
      | Some (WireOther kind) \<Rightarrow> Inl (HandleRuntimeError (ascii ''unexpected reply from actor RPC server: kind='' @ rep kind)))"

text \<open>
  \<open>_RemoteActorHandle._submit\<close> on the fields of a remote handle: the reference is minted here under the owner's node
  id; \<open>conn_to\<close> is the connection to the owner over the world \<open>w\<close>.  A frame that is too long is refused after
  connecting.
\<close>

definition too_large :: "nat \<Rightarrow> 'v HandleErr" where
  "too_large n = HandleValueError (ascii ''dispatch frame too large: '' @ dec_digits n @ ascii '' bytes'')"

definition submit_remote ::
  "RpcCodec \<Rightarrow> (bytes \<Rightarrow> 's \<Rightarrow> 's \<times> Dial) \<Rightarrow> ('v PyErr, PyNodeInfo list) result \<Rightarrow> bytes \<times> bytes \<times> bytes \<times> nat \<Rightarrow>
     bytes \<Rightarrow> bytes \<Rightarrow> bytes option \<Rightarrow> 'r Session option \<times> 's \<Rightarrow>
     ('r Session option \<times> 's) \<times> ('v HandleErr, PyObjectRef) result" where
  "submit_remote c conn_to listed peer method_name args kwargs gw =
     (case (peer, gw) of
        ((aid, owner, hst, prt), (g, w)) \<Rightarrow>
          (case mint_actor_result_ref (Some owner) g of
             (g1, Inl e) \<Rightarrow> ((g1, w), Inl (HandleNative e))
           | (g1, Inr p) \<Rightarrow>
               (let frame = rpc_dumps c (RpcInvoke (Present aid) (call_message method_name args kwargs (ObjectId_bytes (ref_id p))))
                in case conn_to frame w of
                     (w1, DialRefused err) \<Rightarrow> ((g1, w1), Inl (owner_died_or_propagate aid owner listed err))
                   | (w1, d) \<Rightarrow>
                       if MAX_FRAME_BYTES < length frame then ((g1, w), Inl (too_large (length frame)))
                       else
                         ((g1, w1),
                          case d of
                            DialReply bs \<Rightarrow> remote_reply (py_repr c) aid p (reply_loads c bs)
                          | DialBroken err \<Rightarrow> Inl (owner_died_or_propagate aid owner listed err)
                          | DialTooLarge n \<Rightarrow> Inl (too_large n)
                          | _ \<Rightarrow> Inl (HandleRuntimeError (ascii ''actor RPC server at '' @ hst @ ascii '':'' @ dec_digits prt
                                   @ ascii '' closed the connection without acking actor_invoke''))))))"

section \<open>Handles travel between drivers\<close>

lemma reduce_local:
  assumes "pr_session pr = Some s" "ses_gcs s = Some b" "pr_rpc pr = Some (hst, prt)"
  shows "reduce_handle (LocalHandle aid) pr = Inr (aid, gb_node_id b, hst, prt)"
  using assms by (simp add: reduce_handle_def py_node_id_def with_gcs_def advertised_def require_def)

text \<open>A name that is taken: nothing changes in the control store, and the id stays registered in the process.\<close>

lemma name_clash:
  assumes "g = Some s" "ses_gcs s = Some b" "name \<noteq> []" "length aid = 16" "length (gb_node_id b) = 16"
    and "hm_get (actors reg) name = Some info" "ai_actor_id info \<noteq> aid"
  shows "\<exists>e :: 'v PyErr. register_named_actor shown dbg True now pid name aid hst prt g reg = (reg, Inl e)"
  using assms
  by (auto simp: register_named_actor_def parse_node_id_16_def gcs_call_attached [OF refl assms(2)] binding_register_actor_def
      gcs_client_register_actor_def rpc_def register_actor_def parse_id_def map_err_def Let_def)

lemma create_clash:
  assumes "pr_session pr = Some s" "ses_gcs s = Some b" "name \<noteq> []" "length aid = 16" "length (gb_node_id b) = 16"
    and "hm_get (actors reg) name = Some info" "ai_actor_id info \<noteq> aid"
  shows "\<exists>e :: 'v PyErr. create_actor shown dbg True now pid aid n (Some name) spawn_error (pr, reg) =
    ((pr\<lparr>pr_partial := insert aid (pr_partial pr)\<rparr>, reg), Inl (HandleNative e))"
proof -
  obtain hst prt where a: "advertised pr = (hst, prt)" by fastforce
  obtain e :: "'v PyErr" where "register_named_actor shown dbg True now pid name aid hst (of_nat prt) (pr_session pr) reg = (reg, Inl e)"
    using name_clash [OF assms] by blast
  then show ?thesis using a by (auto simp: create_actor_def advertised_def)
qed

text \<open>The name of an actor that another driver looks up.\<close>

lemma created_actor:
  assumes "pr_rpc pr = Some (hst, prt)"
    and "create_actor shown dbg True now pid aid n (Some name) spawn_error (pr, reg) = ((pr', reg'), Inr h :: ('v HandleErr, ActorHandle) result)"
  shows "register_named_actor shown dbg True now pid name aid hst (of_nat prt) (pr_session pr) reg =
      (reg', Inr () :: ('v PyErr, unit) result) \<and>
    h = LocalHandle aid \<and> is_registered pr' aid \<and> pr_session pr' = pr_session pr"
  using assms
  by (auto simp: create_actor_def advertised_def Let_def is_registered_def hm_contains_def split: prod.splits sum.splits option.splits)

section \<open>A call reaches the owner\<close>

text \<open>The law of the pickles: what was dumped is what is loaded.\<close>

definition rpc_codec :: "RpcCodec \<Rightarrow> bool" where
  "rpc_codec c \<longleftrightarrow> (\<forall>m. rpc_loads c (rpc_dumps c m) = Some m) \<and> (\<forall>r. reply_loads c (reply_dumps c r) = Some r)"

definition minted_oid :: "'r Session \<Rightarrow> bytes" where
  "minted_oid s = ObjectId_bytes (for_return (snd (next_task_id (ses_worker s))) 0)"

definition fits :: "RpcCodec \<Rightarrow> bytes \<Rightarrow> bytes \<Rightarrow> bytes \<Rightarrow> bytes option \<Rightarrow> bytes \<Rightarrow> bool" where
  "fits c aid f args kwargs oid \<longleftrightarrow>
     length (rpc_dumps c (RpcInvoke (Present aid) (call_message f args kwargs oid))) \<le> MAX_FRAME_BYTES"

lemma mint_owned:
  assumes "length owner = 16"
  obtains p w where "mint_actor_result_ref (Some owner) (Some s) = (Some (set_worker w s), Inr p)"
    "ref_owner_node_id (ref_inner p) = Some owner" "w = (ses_worker s)\<lparr>cw_next_task_counter := cw_next_task_counter (ses_worker s) + 1\<rparr>"
    "ObjectId_bytes (ref_id p) = minted_oid s"
  using assms
  by (simp add: mint_actor_result_ref_def in_session_def require_def next_task_id_def parse_node_id_16_def Let_def
      from_inner_def with_owner_node_id_def ObjectRef_new_def minted_oid_def)

lemma handle_call_message:
  "handle_invoke (Present aid) (call_message f args kwargs oid) sent table =
     (case hm_get table aid of
        None \<Rightarrow> (table, RejectUnknown)
      | Some ac \<Rightarrow>
          (case dispatch_call oid ac of
             (ac', Inr _) \<Rightarrow> (hm_insert aid ac' table, if sent then InvokeAck else RejectSend)
           | (ac', Inl e) \<Rightarrow> (table, RejectOther e)))"
  by (simp add: handle_invoke_def call_message_def split: option.split)

lemma dial_owner_call:
  assumes "rpc_codec c"
  shows "dial_owner c oserr sent (rpc_dumps c (RpcInvoke (Present aid) (call_message f args kwargs oid))) table =
    map_prod id (\<lambda>r. DialReply (reply_dumps c (reply_message oserr r)))
      (handle_invoke (Present aid) (call_message f args kwargs oid) sent table)"
  using assms by (simp add: dial_owner_def rpc_codec_def split: prod.split)

lemma submit_over_listener:
  assumes "rpc_codec c" and "fits c aid f args kwargs (minted_oid s)"
    and "mint_actor_result_ref (Some owner) (Some s) = (Some s1, Inr p :: ('v PyErr, PyObjectRef) result)"
    and "ObjectId_bytes (ref_id p) = minted_oid s"
  shows "submit_remote c (dial_owner c oserr sent) (listed :: ('v PyErr, PyNodeInfo list) result) (aid, owner, hst, prt) f args kwargs (Some s, table) =
    (case handle_invoke (Present aid) (call_message f args kwargs (ObjectId_bytes (ref_id p))) sent table of
       (table', r) \<Rightarrow> ((Some s1, table'), remote_reply (py_repr c) aid p (Some (reply_message oserr r))))"
proof -
  obtain table' r where r: "handle_invoke (Present aid) (call_message f args kwargs (ObjectId_bytes (ref_id p))) sent table = (table', r)"
    by fastforce
  have "\<not> MAX_FRAME_BYTES < length (rpc_dumps c (RpcInvoke (Present aid) (call_message f args kwargs (ObjectId_bytes (ref_id p)))))"
    using assms(2,4) by (simp add: fits_def not_less)
  moreover have "reply_loads c (reply_dumps c m) = Some m" for m using assms(1) by (simp add: rpc_codec_def)
  ultimately show ?thesis using r assms(3) by (simp add: submit_remote_def dial_owner_call [OF assms(1)])
qed


text \<open>The driver's directory and the seal of another process.\<close>

lemma seal_registers:
  assumes "record_plasma_seal py oid (encode md) n (Some s) = (Some s', r)" "length oid = 28"
  shows "ses_gcs s' = map_option (register_self_local oid) (ses_gcs s)"
proof -
  have "decode (encode md) = Inr md" using decode_encode_append [of md "[]"] by simp
  then show ?thesis
    using assms by (auto simp: record_plasma_seal_def parse_object_id_28_def in_session_def require_def map_gcs_def set_worker_def)
qed

text \<open>The raylet that a driver runs: it is connected to the driver's plasma server and serves the driver's directory.\<close>

definition own_raylet :: "'r Session \<Rightarrow> GcsBinding \<Rightarrow> Raylet \<Rightarrow> bool" where
  "own_raylet s b r \<longleftrightarrow>
     conn_inv (rl_plasma r) \<and> raylet_view r = seen_by s \<and> rl_directory r = gb_directory b"

lemma session_ok_counter:
  "session_ok base s \<Longrightarrow> session_ok base (set_worker ((ses_worker s)\<lparr>cw_next_task_counter := n\<rparr>) s)"
  by (simp add: session_ok_def cw_ok_def set_worker_def)

lemma available_counter [simp]: "available look (w\<lparr>cw_next_task_counter := n\<rparr>) = available look w"
  by (simp add: available_def fun_eq_iff split: option.split slot_state.split)

lemma value_of_counter [simp]: "value_of look (w\<lparr>cw_next_task_counter := n\<rparr>) = value_of look w"
  by (simp add: value_of_def fun_eq_iff split: option.split StoredEntry.split)

lemma call_message_parses:
  "kwargs \<noteq> Some [] \<Longrightarrow> parse_call (call_message f args kwargs oid) = Inr (f, args, kwargs, oid)"
  by (cases kwargs) (simp_all add: parse_call_def call_message_def)

text \<open>What the owner's node serves once its driver has recorded the seal of the actor's subprocess.\<close>

lemma sealed_call_is_served:
  assumes "worker_process ws" and "session_ok base ds" and "cw_plasma (ses_worker ds) = Some (client, srv)"
    and "ses_gcs ds = Some ob" and "directory_locations oid (gb_directory ob) = {}" and "length oid = 28" and "kwargs \<noteq> Some []"
    and "methods f args kwargs i = (i', Some out)" and "\<forall>md d. method_result out = Some (md, d) \<longrightarrow> rust_slice d"
    and "execute_call (py :: 'v PyEnv) methods h (call_message f args kwargs oid) (i, Some ws) = ((j, Some ws'), Inr fin)"
    and "record_plasma_seal py (done_oid fin) (done_metadata fin) (of_nat (done_data_size fin))
      (Some (set_worker (hand_over (ses_worker ws') (ses_worker ds)) ds)) = (Some ds', r)"
    and "ses_gcs ds' = Some ob'" and "own_raylet ds' ob' ow"
  obtains md d where "method_result out = Some (md, d)" "conn_inv (rl_plasma ow)" "raylet_view ow oid = Sealed (encode md) d"
    "directory_locations oid (rl_directory ow) = {gb_node_id ob}"
proof -
  have pm: "parse_call (call_message f args kwargs oid) =
      (Inr (f, args, kwargs, oid) :: ('v WorkerCrash, bytes \<times> bytes \<times> bytes option \<times> bytes) result)"
    by (rule call_message_parses [OF assms(7)])
  obtain md d where e: "worker_process ws'" "method_result out = Some (md, d)" "seen_by ws' oid = Sealed (encode md) d"
      "fin = \<lparr>done_oid = oid, done_metadata = encode md, done_data_size = length d\<rparr>"
    by (rule execute_call_leaves [where methods = methods, OF assms(1) pm assms(6,8,9,10)]) auto
  have seal: "record_plasma_seal py oid (encode md) (of_nat (length d))
      (Some (set_worker (hand_over (ses_worker ws') (ses_worker ds)) ds)) = (Some ds', r)"
    using assms(11) e(4) by simp
  have view: "seen_by ds' = seen_by ws'"
    by (rule record_foreign_seal [OF assms(2,3) e(1) assms(6) seal]) auto
  have "ses_gcs ds' = Some (register_self_local oid ob)"
    using seal_registers [OF seal assms(6)] assms(4) by (simp add: set_worker_def)
  then have "directory_locations oid (gb_directory ob') = {gb_node_id ob}"
    using assms(5,12) by (simp add: register_self_local_def locations_register)
  then show thesis using that e(2,3) view assms(13) by (simp add: own_raylet_def)
qed

lemma submitted_ref:
  assumes "rpc_codec c" and "fits c aid f args kwargs (minted_oid s)" and "length owner = 16"
    and "submit_remote c (dial_owner c oserr sent) (listed :: ('v PyErr, PyNodeInfo list) result) (aid, owner, hst, prt) f args kwargs
      (Some s, table) = ((Some s1, table'), Inr p)"
  shows "ref_owner_node_id (ref_inner p) = Some owner \<and> ses_gcs s1 = ses_gcs s \<and>
    cw_plasma (ses_worker s1) = cw_plasma (ses_worker s) \<and> session_value s1 = session_value s \<and>
    (session_ok base s \<longrightarrow> session_ok base s1)"
proof -
  obtain q w where q: "mint_actor_result_ref (Some owner) (Some s) = (Some (set_worker w s), Inr q :: ('v PyErr, PyObjectRef) result)"
      "ref_owner_node_id (ref_inner q) = Some owner" "ObjectId_bytes (ref_id q) = minted_oid s"
      "w = (ses_worker s)\<lparr>cw_next_task_counter := cw_next_task_counter (ses_worker s) + 1\<rparr>"
    by (rule mint_owned [OF assms(3)]) blast
  have "p = q \<and> s1 = set_worker w s"
    using submit_over_listener [OF assms(1,2) q(1,3), of oserr sent listed hst prt table] assms(4)
    by (auto simp: remote_reply_def split: prod.splits WireReply.splits if_splits)
  then show ?thesis using q(2,4) session_ok_counter by (auto simp: set_worker_def)
qed

text \<open>An example codec.\<close>

definition enc_str :: "bytes \<Rightarrow> bytes" where
  "enc_str bs = concat (map (\<lambda>b. [1, b]) bs) @ [0]"

fun dec_str :: "bytes \<Rightarrow> (bytes \<times> bytes) option" where
  "dec_str [] = None"
| "dec_str [b] = (if b = 0 then Some ([], []) else None)"
| "dec_str (b # b' # bs) =
     (if b = 0 then Some ([], b' # bs) else map_option (\<lambda>(x, r). (b' # x, r)) (dec_str bs))"

lemma dec_enc_str: "dec_str (enc_str bs @ r) = Some (bs, r)"
  by (induction bs) (cases r; simp add: enc_str_def)+

fun enc_field :: "bytes field \<Rightarrow> bytes" where
  "enc_field Missing = [0]"
| "enc_field WrongType = [1]"
| "enc_field (Present bs) = 2 # enc_str bs"

fun dec_field :: "bytes \<Rightarrow> (bytes field \<times> bytes) option" where
  "dec_field [] = None"
| "dec_field (b # bs) =
     (if b = 0 then Some (Missing, bs) else if b = 1 then Some (WrongType, bs)
      else map_option (\<lambda>(x, r). (Present x, r)) (dec_str bs))"

lemma dec_enc_field: "dec_field (enc_field x @ r) = Some (x, r)"
  by (cases x) (simp_all add: dec_enc_str)

fun example_rpc_dumps :: "RpcMsg \<Rightarrow> bytes" where
  "example_rpc_dumps RpcOther = []"
| "example_rpc_dumps (RpcInvoke a m) =
     enc_field a @ enc_field (call_method m) @ enc_field (call_args m) @ enc_field (call_kwargs m) @ enc_field (call_result_oid m)"

definition example_rpc_loads :: "bytes \<Rightarrow> RpcMsg option" where
  "example_rpc_loads bs =
     (if bs = [] then Some RpcOther
      else
        Option.bind (dec_field bs) (\<lambda>(a, r).
        Option.bind (dec_field r) (\<lambda>(f, r).
        Option.bind (dec_field r) (\<lambda>(x, r).
        Option.bind (dec_field r) (\<lambda>(k, r).
        Option.bind (dec_field r) (\<lambda>(oid, r).
          Some (RpcInvoke a \<lparr>call_method = f, call_args = x, call_kwargs = k, call_result_oid = oid\<rparr>)))))))"

lemma enc_field_nonempty: "enc_field x \<noteq> []"
  by (cases x) simp_all

lemma example_rpc_round_trip: "example_rpc_loads (example_rpc_dumps m) = Some m"
proof (cases m)
  case (RpcInvoke a x)
  have last: "dec_field (enc_field y) = Some (y, [])" for y using dec_enc_field [of y "[]"] by simp
  show ?thesis by (simp add: RpcInvoke example_rpc_loads_def enc_field_nonempty dec_enc_field last)
qed (simp add: example_rpc_loads_def)

fun example_reply_dumps :: "WireReply \<Rightarrow> bytes" where
  "example_reply_dumps WireAck = [0]"
| "example_reply_dumps (WireReject why) = 1 # why"
| "example_reply_dumps (WireOther k) = 2 # k"

fun example_reply_loads :: "bytes \<Rightarrow> WireReply option" where
  "example_reply_loads [] = None"
| "example_reply_loads (b # bs) = (if b = 0 then Some WireAck else if b = 1 then Some (WireReject bs) else Some (WireOther bs))"

definition example_codec :: RpcCodec where
  "example_codec =
     \<lparr>rpc_dumps = example_rpc_dumps, rpc_loads = example_rpc_loads, reply_dumps = example_reply_dumps,
      reply_loads = example_reply_loads, py_repr = (\<lambda>x. x)\<rparr>"

lemma example_codec_ok: "rpc_codec example_codec"
proof -
  have "example_reply_loads (example_reply_dumps r) = Some r" for r by (cases r) simp_all
  then show ?thesis by (simp add: rpc_codec_def example_codec_def example_rpc_round_trip)
qed

text \<open>Example processes: the owner of an actor, attached as node 3, and a driver attached as node 2.\<close>

definition example_host :: "fs_manager Session" where
  "example_host = example_peer\<lparr>ses_gcs := Some (example_binding\<lparr>gb_node_id := replicate 16 2\<rparr>)\<rparr>"

definition example_home :: "fs_manager Process" where
  "example_home =
     \<lparr>pr_actors = [(replicate 16 9, new_actor 0 None (Some example_peer))], pr_partial = {}, pr_rpc = Some (ascii ''h'', 5),
      pr_session = Some example_peer\<rparr>"

definition example_away :: "fs_manager Process" where
  "example_away = \<lparr>pr_actors = [], pr_partial = {}, pr_rpc = None, pr_session = Some example_host\<rparr>"

lemma length_enc_str: "length (enc_str bs) = 2 * length bs + 1"
  by (induction bs) (simp_all add: enc_str_def)

lemma example_minted: "length (minted_oid example_host) = 28" "length (minted_oid example_peer) = 28"
  by (simp_all add: minted_oid_def next_task_id_def example_host_def example_peer_def example_session_def new_local_def CoreWorker_new_def
      for_return_def del: replicate.simps)

lemma example_fits: "length oid = 28 \<Longrightarrow> fits example_codec (replicate 16 9) f [] None oid \<longleftrightarrow> 97 + 2 * length f \<le> MAX_FRAME_BYTES"
  by (simp add: fits_def example_codec_def call_message_def length_enc_str)

lemma example_host_ok: "session_ok [] example_host"
  using example_peer_ok by (simp add: session_ok_def example_host_def example_peer_def)

lemma example_call_served:
  assumes "length oid = 28"
  obtains ws ds r ob st where
    "execute_call example_env example_methods manager_hook (call_message (ascii ''f'') [] None oid) ((), Some example_process) =
      (((), Some ws), Inr \<lparr>done_oid = oid, done_metadata = [1, 0], done_data_size = 1\<rparr>)"
    "record_plasma_seal example_env oid [1, 0] 1 (Some (set_worker (hand_over (ses_worker ws) (ses_worker example_host)) example_host)) = (Some ds, r)"
    "ses_gcs ds = Some ob" "own_raylet ds ob ((example_raylet st)\<lparr>rl_directory := gb_directory ob\<rparr>)"
proof -
  have pm: "parse_call (call_message (ascii ''f'') [] None oid) =
      (Inr (ascii ''f'', [], None, oid) :: (bytes WorkerCrash, bytes \<times> bytes \<times> bytes option \<times> bytes) result)"
    by (simp add: call_message_parses)
  have m: "example_methods (ascii ''f'') [] None () = ((), Some (MethodPickled [7]))"
    "\<forall>md d. method_result (MethodPickled [7]) = Some (md, d) \<longrightarrow> rust_slice d"
    by (simp_all add: example_methods_def method_result_def rust_slice_def)
  obtain ws0 n where w: "worker_seal example_env manager_hook oid [1, 0] [7] (Some example_process) = (Some ws0, Inr n)"
    by (rule example_worker_seal [OF assms])
  have x: "execute_call example_env example_methods manager_hook (call_message (ascii ''f'') [] None oid) ((), Some example_process) =
      (((), Some ws0), Inr \<lparr>done_oid = oid, done_metadata = [1, 0], done_data_size = 1\<rparr>)"
    using w by (simp add: execute_call_def pm example_methods_def call_payload_def encode_pickle5_metadata_def)
  have wp: "worker_process ws0"
    by (rule execute_call_leaves [where methods = example_methods, OF example_process_ok(1) pm assms m x]) simp
  have e: "encode (Pickle5 False) = [1, 0]" by (simp add: DISCRIMINATOR_PICKLE5_def)
  have pl: "cw_plasma (ses_worker example_host) = Some (\<lparr>cached_arenas = [], mmap_ok = True\<rparr>, example_server)"
    by (simp add: example_host_def example_peer_def example_conn_def)
  obtain g r where s: "record_plasma_seal example_env oid (encode (Pickle5 False)) 1
      (Some (set_worker (hand_over (ses_worker ws0) (ses_worker example_host)) example_host)) = (g, r)" by fastforce
  obtain ds client srv where d: "g = Some ds" "session_ok [] ds" "cw_plasma (ses_worker ds) = Some (client, srv)"
    by (rule record_foreign_seal [OF example_host_ok pl wp assms s])
  have ob: "ses_gcs ds = Some (register_self_local oid (example_binding\<lparr>gb_node_id := replicate 16 2\<rparr>))"
    using seal_registers [OF s [unfolded d(1)] assms] by (simp add: set_worker_def example_host_def)
  have ci: "conn_inv (client, srv)" using d(2,3) by (simp add: session_ok_def cw_ok_def)
  have own: "own_raylet ds b ((example_raylet (client, srv))\<lparr>rl_directory := gb_directory b\<rparr>)" for b
    using ci d(3) by (simp add: own_raylet_def example_raylet_def plasma_view_def)
  show thesis by (rule that [OF x s [unfolded d(1) e] ob own])
qed

section \<open>Properties\<close>

text \<open>C20. A pickled actor handle means the same actor everywhere: unpickled in the driver that owns the actor it is again
  a local handle, unpickled in any other attached driver it is a remote handle with the owner's node id and listener, and
  a remote handle pickles to the same arguments, so it can be passed on and comes back as a local handle at its owner. A
  handle of a driver without a listener cannot be rebuilt elsewhere.\<close>

theorem actor_handle_round_trip:
  assumes "pr_session pr = Some s" and "ses_gcs s = Some b" and "is_registered pr aid"
    and "length aid = 16" and "length (gb_node_id b) = 16"
    and "\<not> is_registered qr aid" and "local_node qr = Some nid" and "nid \<noteq> gb_node_id b"
  shows "\<exists>hst prt. reduce_handle (LocalHandle aid) pr = Inr (aid, gb_node_id b, hst, prt) \<and>
    rebuild_actor_handle (aid, gb_node_id b, hst, prt) pr = Inr (LocalHandle aid) \<and>
    (if hst \<noteq> [] \<and> 0 < prt
     then rebuild_actor_handle (aid, gb_node_id b, hst, prt) qr = Inr (RemoteHandle aid (gb_node_id b) hst prt) \<and>
       reduce_handle (RemoteHandle aid (gb_node_id b) hst prt) qr = Inr (aid, gb_node_id b, hst, prt)
     else \<exists>msg. rebuild_actor_handle (aid, gb_node_id b, hst, prt) qr = Inl (HandleLookupError msg))"
proof -
  obtain hst prt where a: "advertised pr = (hst, prt)" by fastforce
  have r: "reduce_handle (LocalHandle aid) pr = Inr (aid, gb_node_id b, hst, prt)"
    using assms(1,2) a by (simp add: reduce_handle_def py_node_id_def with_gcs_def require_def)
  show ?thesis
    by (intro exI [of _ hst] exI [of _ prt] conjI r)
      (use assms(3-8) in \<open>auto simp: rebuild_actor_handle_def remote_handle_new_def reduce_handle_def
         ACTOR_ID_SIZE_def NODE_ID_SIZE_def\<close>)
qed

theorem actor_handle_round_trip_witness:
  "reduce_handle (LocalHandle (replicate 16 9)) example_home = (Inr (replicate 16 9, replicate 16 3, ascii ''h'', 5) :: (unit HandleErr, _) result) \<and>
    rebuild_actor_handle (replicate 16 9, replicate 16 3, ascii ''h'', 5) example_away =
      (Inr (RemoteHandle (replicate 16 9) (replicate 16 3) (ascii ''h'') 5) :: (unit HandleErr, _) result)"
proof -
  have h: "pr_session example_home = Some example_peer" "ses_gcs example_peer = Some example_binding"
      "is_registered example_home (replicate 16 9)" "length (replicate 16 9 :: bytes) = 16" "length (gb_node_id example_binding) = 16"
      "\<not> is_registered example_away (replicate 16 9)" "local_node example_away = Some (replicate 16 2)"
      "replicate 16 2 \<noteq> gb_node_id example_binding" and n: "gb_node_id example_binding = replicate 16 3"
    by (simp_all add: example_home_def example_away_def example_peer_def example_binding_def local_node_def example_host_def
        is_registered_def hm_contains_def replicate_eq_byte del: replicate.simps)
  have r: "reduce_handle (LocalHandle (replicate 16 9)) example_home =
      (Inr (replicate 16 9, gb_node_id example_binding, ascii ''h'', 5) :: (unit HandleErr, _) result)"
    by (rule reduce_local [OF h(1,2)]) (simp add: example_home_def)
  have ne: "ascii ''h'' \<noteq> []" by (simp add: ascii_def)
  from actor_handle_round_trip [OF h] r obtain hst prt where
    "Inr (replicate 16 9, gb_node_id example_binding, ascii ''h'', 5) =
      (Inr (replicate 16 9, gb_node_id example_binding, hst, prt) :: (unit HandleErr, bytes \<times> bytes \<times> bytes \<times> nat) result)"
    "hst \<noteq> [] \<and> 0 < prt \<longrightarrow> rebuild_actor_handle (replicate 16 9, gb_node_id example_binding, hst, prt) example_away =
      (Inr (RemoteHandle (replicate 16 9) (gb_node_id example_binding) hst prt) :: (unit HandleErr, _) result)"
    by metis
  then show ?thesis using r ne unfolding n by simp
qed

text \<open>C19. A named actor is found from every driver: once its owner has created it under a free name, \<open>get_actor\<close> gives the
  owner a local handle and every other attached driver a remote handle with the owner's node and listener. A second
  actor under that name is refused and leaves the control store as it was.\<close>

theorem named_actor_is_found:
  assumes "pr_session pr = Some s" and "ses_gcs s = Some b" and "length (gb_node_id b) = 16"
    and "pr_rpc pr = Some (hst, prt)" and "hst \<noteq> []" and "0 < prt" and "prt < 65536"
    and "name \<noteq> []" and "hm_get (actors reg) name = None"
    and "create_actor shown dbg True now pid aid n (Some name) spawn_error (pr, reg) = ((pr', reg'), Inr h :: ('v HandleErr, _) result)"
    and "pr_session qr = Some t" and "ses_gcs t = Some b'" and "length (gb_node_id b') = 16" and "\<not> is_registered qr aid"
    and "length aid' = 16" and "aid' \<noteq> aid"
  shows "h = LocalHandle aid \<and>
    get_actor_handle shown dbg rep True name reg' pr' = (Inr (LocalHandle aid) :: ('v HandleErr, _) result) \<and>
    get_actor_handle shown dbg rep True name reg' qr = (Inr (RemoteHandle aid (gb_node_id b) hst prt) :: ('v HandleErr, _) result) \<and>
    (\<exists>qr' e. create_actor shown dbg True now' pid' aid' n' (Some name) spawn_error' (qr, reg') =
       ((qr', reg'), Inl e :: ('v HandleErr, _) result))"
proof -
  note c = created_actor [OF assms(4,10)]
  then have reg: "register_named_actor shown dbg True now pid name aid hst (of_nat prt) (pr_session pr) reg =
      (reg', Inr () :: ('v PyErr, unit) result)" by simp
  have aid: "length aid = 16" using reg by (auto simp: register_named_actor_def parse_node_id_16_def split: if_splits)
  obtain info where i: "(lookup_named_actor shown dbg True name (pr_session pr') reg' :: ('v PyErr, PyActorInfo option) result) = Inr (Some info)"
      "pa_actor_id info = aid"
    by (rule registered_name_is_found [OF assms(1,2) _ assms(2,8) reg]) (use assms(1) c in auto)
  obtain info' where j: "(lookup_named_actor shown dbg True name (pr_session qr) reg' :: ('v PyErr, PyActorInfo option) result) = Inr (Some info')"
      "pa_actor_id info' = aid" "pa_owner_node_id info' = gb_node_id b" "pa_driver_actor_host info' = hst"
      "pa_driver_actor_port info' = ucast (of_nat prt :: u16)"
    by (rule registered_name_is_found [OF assms(1,2,11,12,8) reg]) (use assms(9) in auto)
  have port: "unat (ucast (of_nat prt :: u16) :: u32) = prt"
    using assms(7) by (simp add: unsigned_ucast_eq unsigned_of_nat take_bit_nat_eq_self)
  obtain e where "hm_get (actors reg') name = Some e \<and> ai_actor_id e = aid"
    using i assms(1,2,8) c
    by (auto simp: lookup_named_actor_def gcs_call_attached gcs_client_get_actor_def get_actor_def convert_actor_def map_ok_def map_err_def
        split: option.splits sum.splits if_splits)
  then show ?thesis
    using c i j port aid assms(3,5,6,14-16)
      create_clash [where 'v = 'v, OF assms(11,12,8,15,13), of reg' e shown dbg now' pid' n' spawn_error']
    by (auto simp: get_actor_handle_def remote_handle_new_def ACTOR_ID_SIZE_def NODE_ID_SIZE_def)
qed

theorem named_actor_is_found_witness:
  "\<exists>pr reg. create_actor (\<lambda>_. []) (\<lambda>n. n) True 5 1 (replicate 16 8) 0 (Some [110]) None (example_home, ActorsRegistry_new None) =
      ((pr, reg), Inr (LocalHandle (replicate 16 8)) :: (unit HandleErr, _) result) \<and>
    get_actor_handle (\<lambda>_. []) (\<lambda>n. n) (\<lambda>n. n) True [110] reg example_away =
      (Inr (RemoteHandle (replicate 16 8) (replicate 16 3) (ascii ''h'') 5) :: (unit HandleErr, _) result)"
proof -
  have h: "pr_session example_home = Some example_peer" "ses_gcs example_peer = Some example_binding"
      "length (gb_node_id example_binding) = 16" "pr_rpc example_home = Some (ascii ''h'', 5)" "ascii ''h'' \<noteq> []"
      "0 < (5 :: nat)" "5 < (65536 :: nat)" "[110 :: byte] \<noteq> []" "hm_get (actors (ActorsRegistry_new None)) [110] = None"
    and q: "pr_session example_away = Some example_host" "ses_gcs example_host = Some (example_binding\<lparr>gb_node_id := replicate 16 2\<rparr>)"
      "length (gb_node_id (example_binding\<lparr>gb_node_id := replicate 16 2\<rparr>)) = 16" "\<not> is_registered example_away (replicate 16 8)"
      "length (replicate 16 7 :: bytes) = 16" "replicate 16 7 \<noteq> (replicate 16 8 :: bytes)"
    and n: "gb_node_id example_binding = replicate 16 3"
    by (simp_all add: example_home_def example_away_def example_peer_def example_host_def example_binding_def ascii_def
        ActorsRegistry_new_def is_registered_def hm_contains_def replicate_eq_byte del: replicate.simps)
  have "register_named_actor (\<lambda>_. []) (\<lambda>n. n) True 5 1 [110] (replicate 16 8) (ascii ''h'') 5 (Some example_peer) (ActorsRegistry_new None)
      = (reg, r) \<Longrightarrow> r = (Inr () :: (unit PyErr, unit) result)" for reg r
    using h(3,9)
    by (auto simp: register_named_actor_def parse_node_id_16_def gcs_call_attached [OF refl h(2)] binding_register_actor_def
        gcs_client_register_actor_def rpc_def register_actor_def parse_id_def map_err_def Let_def simp del: replicate.simps)
  then obtain reg0 where "register_named_actor (\<lambda>_. []) (\<lambda>n. n) True 5 1 [110] (replicate 16 8) (ascii ''h'') 5 (Some example_peer)
      (ActorsRegistry_new None) = (reg0, Inr () :: (unit PyErr, unit) result)"
    by (metis prod.exhaust)
  then obtain pr reg where c: "create_actor (\<lambda>_. []) (\<lambda>n. n) True 5 1 (replicate 16 8) 0 (Some [110]) None (example_home, ActorsRegistry_new None) =
      ((pr, reg), Inr (LocalHandle (replicate 16 8)) :: (unit HandleErr, _) result)"
    using h(1,4) by (simp add: create_actor_def advertised_def Let_def)
  from named_actor_is_found [OF h c q] c show ?thesis unfolding n by blast
qed





end
