(* ===== verification/Node_Lifecycle.thy ===== *)
theory Node_Lifecycle
imports Raylet Node_Index Gcs_Directory Driver_Session
begin

text \<open>
  The life of a node: starting and stopping a raylet and its heartbeat loop (\<open>rayd-raylet/src/lifecycle.rs\<close>) and
  attaching a driver to the control store (\<open>connect_and_register\<close> and \<open>shutdown\<close> of \<open>rayd-py/src/gcs.rs\<close>), against the
  node registry with its sweeper.  What the operating system and the transport answer at each step are
  arguments.  Times are milliseconds of the clock of the control store.
\<close>

section \<open>Configuration\<close>

datatype RayletStartError =
    StartBind bytes
  | StartGcs GcsClientError
  | StartPlasma PlasmaError
  | StartMetrics bytes

record RayletConfig =
  cfg_gcs_address :: SocketAddr
  cfg_bind :: SocketAddr
  cfg_advertise_host :: bytes
  cfg_plasma_socket :: bytes
  cfg_resources :: Resources
  cfg_heartbeat_interval :: nat
  cfg_owner_sink :: bool
  cfg_object_manager :: "fs_manager option"
  cfg_metrics_bind :: "SocketAddr option"

definition RayletConfig_defaults :: RayletConfig where
  "RayletConfig_defaults =
     \<lparr>cfg_gcs_address = SockV4 [127, 0, 0, 1] 60000, cfg_bind = SockV4 [0, 0, 0, 0] 0,
      cfg_advertise_host = ascii ''127.0.0.1'', cfg_plasma_socket = ascii ''/tmp/rayd-raylet.sock'',
      cfg_resources = \<lparr>num_cpus = 1, num_gpus = 0, memory_bytes = 0\<rparr>, cfg_heartbeat_interval = 2000,
      cfg_owner_sink = False, cfg_object_manager = None, cfg_metrics_bind = None\<rparr>"

section \<open>Starting a raylet\<close>

text \<open>The answers of the outside: binding, the plasma connection, the two halves of the metrics endpoint, the channel.\<close>

record StartEnv =
  se_bind :: "(bytes, SocketAddr) result"
  se_plasma :: "(PlasmaError, conn) result"
  se_metrics :: "(bytes, unit) result"
  se_connect :: "(GcsClientError, unit) result"
  se_serve_metrics :: "(bytes, SocketAddr) result"

record RayletHandle =
  rh_local_addr :: SocketAddr
  rh_node_id :: bytes
  rh_cluster_session_id :: bytes
  rh_raylet :: Raylet
  rh_node_index :: NodeIndex
  rh_lookups :: "(nat \<times> nat) option"
  rh_metrics_addr :: "SocketAddr option"

fun port_of :: "SocketAddr \<Rightarrow> nat" where
  "port_of (SockV4 _ p) = p"
| "port_of (SockV6 _ _ p) = p"

definition RayletMetrics_new :: RayletMetrics where
  "RayletMetrics_new =
     \<lparr>pull_total = 0, push_total = 0, register_object_total = 0, directory_entries = 0,
      get_object_locations_total = 0, spill_restore_total = 0\<rparr>"

definition raylet_start ::
  "bytes \<Rightarrow> u64 \<Rightarrow> StartEnv \<Rightarrow> RayletConfig \<Rightarrow> Registry \<Rightarrow> Registry \<times> (RayletStartError, RayletHandle) result" where
  "raylet_start fresh now_ms se cfg r =
     (case se_bind se of
        Inl e \<Rightarrow> (r, Inl (StartBind e))
      | Inr local_addr \<Rightarrow>
          (case se_plasma se of
             Inl e \<Rightarrow> (r, Inl (StartPlasma e))
           | Inr plasma \<Rightarrow>
               (case (if cfg_metrics_bind cfg = None then Inr None else map_ok (\<lambda>_. Some RayletMetrics_new) (se_metrics se)) of
                  Inl e \<Rightarrow> (r, Inl (StartMetrics e))
                | Inr bag \<Rightarrow>
                    (let svc = \<lparr>rl_plasma = plasma, rl_directory = [], sink_calls = (if cfg_owner_sink cfg then Some [] else None),
                                object_manager = cfg_object_manager cfg, rl_metrics = bag\<rparr>
                     in case se_connect se of
                          Inl e \<Rightarrow> (r, Inl (StartGcs e))
                        | Inr _ \<Rightarrow>
                            (case gcs_client_register fresh now_ms (cfg_advertise_host cfg) (of_nat (port_of local_addr))
                                    (cfg_plasma_socket cfg) (cfg_resources cfg) r of
                               (r', Inl e) \<Rightarrow> (r', Inl (StartGcs e))
                             | (r', Inr outcome) \<Rightarrow>
                                 (r',
                                  map_err StartMetrics
                                    (map_ok (\<lambda>maddr.
                                       \<lparr>rh_local_addr = local_addr, rh_node_id = out_node_id outcome,
                                        rh_cluster_session_id = out_cluster_session_id outcome, rh_raylet = svc,
                                        rh_node_index = [], rh_lookups = map_option (\<lambda>_. (0, 0)) bag,
                                        rh_metrics_addr = maddr\<rparr>)
                                     (if bag = None then Inr None else map_ok Some (se_serve_metrics se)))))))))"

section \<open>The handle\<close>

definition register_self :: "bytes \<Rightarrow> RayletHandle \<Rightarrow> RayletHandle" where
  "register_self oid h =
     h\<lparr>rh_raylet := (rh_raylet h)\<lparr>rl_directory := directory_register oid (rh_node_id h) (rl_directory (rh_raylet h))\<rparr>\<rparr>"

definition handle_deregister_self :: "bytes \<Rightarrow> RayletHandle \<Rightarrow> RayletHandle" where
  "handle_deregister_self oid h =
     h\<lparr>rh_raylet := (rh_raylet h)\<lparr>rl_directory := directory_remove oid (rh_node_id h) (rl_directory (rh_raylet h))\<rparr>\<rparr>"

text \<open>The counter of lookups has the labels \<open>hit\<close> and \<open>miss\<close>.\<close>

definition handle_node_status :: "bytes \<Rightarrow> RayletHandle \<Rightarrow> RayletHandle \<times> NodeStatus option" where
  "handle_node_status nid h =
     (let x = status_of (rh_node_index h) nid
      in (h\<lparr>rh_lookups := map_option (\<lambda>(hit, miss). if x \<noteq> None then (hit + 1, miss) else (hit, miss + 1)) (rh_lookups h)\<rparr>, x))"

datatype StopStep = StopMetrics | StopWatch | StopHeartbeat | DrainNode | StopServer

text \<open>Stopping: the steps in their order and the registry afterwards; a failing drain is logged only.\<close>

definition raylet_shutdown :: "bool \<Rightarrow> RayletHandle \<Rightarrow> Registry \<Rightarrow> Registry \<times> StopStep list" where
  "raylet_shutdown reach h r =
     (if reach then fst (gcs_client_drain (rh_node_id h) r) else r,
      (if rh_metrics_addr h = None then [] else [StopMetrics]) @ [StopWatch, StopHeartbeat, DrainNode, StopServer])"

text \<open>Dropping the handle signals the tasks, without the request.\<close>

definition raylet_drop :: "RayletHandle \<Rightarrow> Registry \<Rightarrow> Registry \<times> StopStep list" where
  "raylet_drop h r = (r, [StopHeartbeat, StopWatch, StopServer])"

section \<open>Heartbeats\<close>

text \<open>
  What the loop observes after the tick it skips: a tick of the interval, with the time at which its request is
  handled or \<open>None\<close> when the request is lost, or the shutdown signal.
\<close>

datatype HbObs = HbTick "u64 option" | HbShutdown

fun run_heartbeat :: "bytes \<Rightarrow> HbObs list \<Rightarrow> Registry \<Rightarrow> Registry \<times> bool" where
  "run_heartbeat nid [] r = (r, False)"
| "run_heartbeat nid (HbShutdown # _) r = (r, True)"
| "run_heartbeat nid (HbTick t # obs) r =
     run_heartbeat nid obs (case t of None \<Rightarrow> r | Some now \<Rightarrow> fst (gcs_client_heartbeat nid now r))"

section \<open>Attaching a driver\<close>

datatype GcsBindingError =
    InvalidAddress bytes
  | BindingRuntime bytes
  | BindingGcs GcsClientError
  | BindingRaylet RayletStartError
  | BindingSpill SpillError
  | SpillTempDir bytes

text \<open>Rust's \<open>str::parse\<close> for \<open>u64\<close>: an optional plus sign and at least one digit, without overflow.\<close>

fun parse_digits :: "nat \<Rightarrow> bytes \<Rightarrow> nat option" where
  "parse_digits acc [] = Some acc"
| "parse_digits acc (b # bs) =
     (if 48 \<le> b \<and> b \<le> 57 \<and> acc * 10 + unat (b - 48) < 2 ^ 64 then parse_digits (acc * 10 + unat (b - 48)) bs else None)"

definition parse_u64 :: "bytes \<Rightarrow> nat option" where
  "parse_u64 bs =
     (let ds = (case bs of [] \<Rightarrow> [] | b # r \<Rightarrow> if b = 43 then r else bs)
      in if ds = [] then None else parse_digits 0 ds)"

definition DEFAULT_HEARTBEAT_INTERVAL :: nat where
  "DEFAULT_HEARTBEAT_INTERVAL = 2000"

text \<open>The argument is the value of \<open>RAYD_HEARTBEAT_INTERVAL_MS\<close>.\<close>

definition heartbeat_interval :: "bytes option \<Rightarrow> nat" where
  "heartbeat_interval env =
     (case Option.bind env parse_u64 of
        Some ms \<Rightarrow> if 0 < ms then ms else DEFAULT_HEARTBEAT_INTERVAL
      | None \<Rightarrow> DEFAULT_HEARTBEAT_INTERVAL)"

definition raylet_metrics_bind :: "bytes option \<Rightarrow> SocketAddr option" where
  "raylet_metrics_bind env = Option.bind env parse_socket_addr"

definition default_resources :: "nat \<Rightarrow> Resources" where
  "default_resources cpus =
     \<lparr>num_cpus = (if cpus < 2 ^ 32 then of_nat cpus else 1), num_gpus = 0, memory_bytes = 0\<rparr>"

text \<open>The answers of the outside; a host name that is not UTF-8 is \<open>None\<close>.\<close>

record AttachEnv =
  ae_runtime :: "(bytes, unit) result"
  ae_host :: "bytes option"
  ae_pid :: u32
  ae_cpus :: nat
  ae_spill_dir :: "(bytes, bytes) result"
  ae_create_dir :: "bytes \<Rightarrow> (bytes, unit) result"
  ae_canonicalize :: "bytes \<Rightarrow> (bytes, bytes) result"
  ae_disk :: LocalFsBackend
  ae_heartbeat_env :: "bytes option"
  ae_metrics_env :: "bytes option"
  ae_start :: StartEnv
  ae_connect :: "(GcsClientError, unit) result"

record ControlStore =
  cs_nodes :: Registry
  cs_jobs :: JobsRegistry

definition binding_of :: "bytes \<Rightarrow> RayletHandle \<Rightarrow> GcsBinding" where
  "binding_of job h =
     \<lparr>gb_node_id = rh_node_id h, gb_job_id = job, gb_session_id = rh_cluster_session_id h,
      gb_directory = rl_directory (rh_raylet h)\<rparr>"

definition driver_config :: "AttachEnv \<Rightarrow> SocketAddr \<Rightarrow> bytes \<Rightarrow> bytes \<Rightarrow> fs_manager \<Rightarrow> RayletConfig" where
  "driver_config ae addr driver_host plasma_socket mgr =
     \<lparr>cfg_gcs_address = addr, cfg_bind = SockV4 [0, 0, 0, 0] 0, cfg_advertise_host = driver_host,
      cfg_plasma_socket = plasma_socket, cfg_resources = default_resources (ae_cpus ae),
      cfg_heartbeat_interval = heartbeat_interval (ae_heartbeat_env ae), cfg_owner_sink = True,
      cfg_object_manager = Some mgr, cfg_metrics_bind = raylet_metrics_bind (ae_metrics_env ae)\<rparr>"

text \<open>
  \<open>err\<close> is the text of an address that does not parse; \<open>fresh_node\<close> and \<open>fresh_job\<close> are the ids that the control store
  draws.
\<close>

definition connect_and_register ::
  "bytes \<Rightarrow> AttachEnv \<Rightarrow> bytes \<Rightarrow> u64 \<Rightarrow> bytes \<Rightarrow> u64 \<Rightarrow> bytes \<Rightarrow> bytes \<Rightarrow> ControlStore \<Rightarrow>
     ControlStore \<times> (GcsBindingError, GcsBinding \<times> RayletHandle \<times> fs_manager) result" where
  "connect_and_register err ae fresh_node now_ms fresh_job now_job gcs_address plasma_socket cs =
     (case parse_socket_addr gcs_address of
        None \<Rightarrow> (cs, Inl (InvalidAddress (gcs_address @ ascii '': '' @ err)))
      | Some addr \<Rightarrow>
          (case ae_runtime ae of
             Inl e \<Rightarrow> (cs, Inl (BindingRuntime e))
           | Inr _ \<Rightarrow>
               (let driver_host = (case ae_host ae of None \<Rightarrow> ascii ''localhost'' | Some hst \<Rightarrow> hst) in
                case ae_spill_dir ae of
                  Inl e \<Rightarrow> (cs, Inl (SpillTempDir e))
                | Inr dir \<Rightarrow>
                    (case LocalFsBackend_new (ae_create_dir ae) (ae_canonicalize ae) dir (ae_disk ae) of
                       Inl e \<Rightarrow> (cs, Inl (BindingSpill e))
                     | Inr b \<Rightarrow>
                         (let mgr = LocalObjectManager_new b in
                          case raylet_start fresh_node now_ms (ae_start ae) (driver_config ae addr driver_host plasma_socket mgr) (cs_nodes cs) of
                            (r, Inl e) \<Rightarrow> (cs\<lparr>cs_nodes := r\<rparr>, Inl (BindingRaylet e))
                          | (r, Inr h) \<Rightarrow>
                              (let cs1 = cs\<lparr>cs_nodes := r\<rparr> in
                               case ae_connect ae of
                                 Inl e \<Rightarrow> (cs1\<lparr>cs_nodes := fst (raylet_drop h (cs_nodes cs1))\<rparr>, Inl (BindingGcs e))
                               | Inr _ \<Rightarrow>
                                   (case gcs_client_add_job fresh_job now_job driver_host (ae_pid ae) (Some (rh_node_id h)) (cs_jobs cs1) of
                                      (js, Inl e) \<Rightarrow>
                                        (cs1\<lparr>cs_jobs := js, cs_nodes := fst (raylet_drop h (cs_nodes cs1))\<rparr>, Inl (BindingGcs e))
                                    | (js, Inr job) \<Rightarrow> (cs1\<lparr>cs_jobs := js\<rparr>, Inr (binding_of job h, h, mgr)))))))))"

text \<open>Detaching: the job first, then the raylet; a request that is lost is logged only.\<close>

definition binding_shutdown :: "bool \<Rightarrow> bool \<Rightarrow> u64 \<Rightarrow> GcsBinding \<times> RayletHandle \<Rightarrow> ControlStore \<Rightarrow> ControlStore \<times> StopStep list" where
  "binding_shutdown reach_job reach_node now_ms bh cs =
     (let js = (if reach_job then fst (gcs_client_mark_job_finished (gb_job_id (fst bh)) [] now_ms (cs_jobs cs)) else cs_jobs cs)
      in case raylet_shutdown reach_node (snd bh) (cs_nodes cs) of
           (r, steps) \<Rightarrow> (cs\<lparr>cs_jobs := js, cs_nodes := r\<rparr>, steps))"

section \<open>Who counts as alive\<close>

text \<open>
  The requests that the control store handles, with the last heartbeat of the node so far: every sweep comes in
  time, and nobody drains the node.
\<close>

fun beats_in_time :: "bytes \<Rightarrow> u64 \<Rightarrow> GcsOp list \<Rightarrow> bool" where
  "beats_in_time n t [] \<longleftrightarrow> True"
| "beats_in_time n t (GcsRegister m now req # ops) \<longleftrightarrow> beats_in_time n t ops"
| "beats_in_time n t (GcsHeartbeat m now # ops) \<longleftrightarrow> beats_in_time n (if m = n then now else t) ops"
| "beats_in_time n t (GcsDrain m # ops) \<longleftrightarrow> m \<noteq> n \<and> beats_in_time n t ops"
| "beats_in_time n t (GcsSweep now timeout # ops) \<longleftrightarrow> unat now \<le> unat t + unat timeout \<and> beats_in_time n t ops"

definition is_alive :: "Registry \<Rightarrow> bytes \<Rightarrow> bool" where
  "is_alive r n \<longleftrightarrow> (\<exists>info. hm_get (nodes r) n = Some info \<and> ni_status info = as_i32 Alive)"

lemma nodes_register:
  "m \<noteq> n \<Longrightarrow> hm_get (nodes (fst (register_node m now req r))) n = hm_get (nodes r) n"
  by (simp add: register_node_def Let_def)

lemma nodes_heartbeat:
  "hm_get (nodes (fst (heartbeat m now r))) n =
     (if m = n \<and> length m = 16 then map_option (\<lambda>i. i\<lparr>ni_last_heartbeat := now\<rparr>) (hm_get (nodes r) n) else hm_get (nodes r) n)"
  by (auto simp: heartbeat_def parse_node_id_def split: option.split)

lemma nodes_drain:
  "hm_get (nodes (fst (drain m r))) n =
     (if m = n \<and> length m = 16 then map_option (\<lambda>i. i\<lparr>ni_status := as_i32 Draining\<rparr>) (hm_get (nodes r) n) else hm_get (nodes r) n)"
  by (auto simp: drain_def parse_node_id_def Let_def split: option.split)

lemma nodes_sweep:
  "hm_get (nodes (fst (sweep_tick now timeout r))) n =
     map_option (\<lambda>i. if is_stale (saturating_sub now timeout) i then mark_dead i else i) (hm_get (nodes r) n)"
  by (simp add: sweep_tick_def expire_stale_eq hm_get_sweep)

lemmas nodes_after = nodes_register nodes_heartbeat nodes_drain nodes_sweep

definition leaves_node :: "bytes \<Rightarrow> GcsOp \<Rightarrow> bool" where
  "leaves_node n op = (case op of GcsRegister m _ _ \<Rightarrow> m \<noteq> n | _ \<Rightarrow> True)"

text \<open>A node that is not alive never becomes alive again, whatever heartbeats arrive.\<close>

lemma not_alive_stays:
  "\<forall>op\<in>set ops. leaves_node n op \<Longrightarrow> \<not> is_alive r n \<Longrightarrow> \<not> is_alive (fold gcs_step ops r) n"
proof (induction ops arbitrary: r)
  case (Cons op ops)
  have "\<not> is_alive (gcs_step op r) n"
    using Cons.prems
    by (cases op) (auto simp: is_alive_def leaves_node_def nodes_after mark_dead_def split: if_splits)
  then show ?case using Cons by simp
qed simp

lemma alive_iff_beats:
  assumes "length n = 16" and "\<forall>op\<in>set ops. leaves_node n op"
    and "hm_get (nodes r) n = Some info" and "ni_status info = as_i32 Alive"
  shows "is_alive (fold gcs_step ops r) n \<longleftrightarrow> beats_in_time n (ni_last_heartbeat info) ops"
  using assms(2-4)
proof (induction ops arbitrary: r info)
  case Nil
  then show ?case by (simp add: is_alive_def)
next
  case (Cons op ops)
  note IH = Cons.IH [OF _ _ _]
  have rest: "\<forall>op\<in>set ops. leaves_node n op" using Cons.prems(1) by simp
  show ?case
  proof (cases op)
    case (GcsRegister m now req)
    then show ?thesis using Cons.prems IH [OF rest, of "gcs_step op r" info] by (simp add: leaves_node_def nodes_register)
  next
    case (GcsDrain m)
    show ?thesis
    proof (cases "m = n")
      case True
      then have "\<not> is_alive (gcs_step op r) n" using GcsDrain Cons.prems(2) assms(1) by (simp add: is_alive_def nodes_drain)
      then show ?thesis using True GcsDrain not_alive_stays [OF rest, of "gcs_step op r"] by simp
    next
      case False
      then have "hm_get (nodes (gcs_step op r)) n = Some info" using GcsDrain Cons.prems(2) by (simp add: nodes_drain)
      from IH [OF rest this Cons.prems(3)] show ?thesis using False GcsDrain by simp
    qed
  next
    case (GcsHeartbeat m now)
    let ?info = "if m = n then info\<lparr>ni_last_heartbeat := now\<rparr> else info"
    have "hm_get (nodes (gcs_step op r)) n = Some ?info" "ni_status ?info = as_i32 Alive"
      using GcsHeartbeat Cons.prems(2,3) assms(1) by (simp_all add: nodes_heartbeat)
    from IH [OF rest this] show ?thesis using GcsHeartbeat by (cases "m = n") simp_all
  next
    case (GcsSweep now timeout)
    show ?thesis
    proof (cases "unat now \<le> unat (ni_last_heartbeat info) + unat timeout")
      case True
      then show ?thesis using Cons.prems GcsSweep IH [OF rest, of "gcs_step op r" info] by (simp add: nodes_sweep stale_unat)
    next
      case False
      then have "\<not> is_alive (gcs_step op r) n"
        using Cons.prems GcsSweep by (simp add: is_alive_def nodes_sweep stale_unat mark_dead_def)
      then show ?thesis using False GcsSweep not_alive_stays [OF rest, of "gcs_step op r"] by simp
    qed
  qed
qed

section \<open>The schedule of the heartbeat loop\<close>

fun op_times :: "GcsOp \<Rightarrow> nat list" where
  "op_times (GcsRegister m now req) = [unat now]"
| "op_times (GcsHeartbeat m now) = [unat now]"
| "op_times (GcsDrain m) = []"
| "op_times (GcsSweep now timeout) = [unat now]"

definition chronological :: "GcsOp list \<Rightarrow> bool" where
  "chronological ops \<longleftrightarrow> sorted (concat (map op_times ops))"

fun beat_times :: "bytes \<Rightarrow> GcsOp list \<Rightarrow> nat list" where
  "beat_times n [] = []"
| "beat_times n (GcsHeartbeat m now # ops) = (if m = n then unat now # beat_times n ops else beat_times n ops)"
| "beat_times n (op # ops) = beat_times n ops"

fun arrivals :: "HbObs list \<Rightarrow> nat list" where
  "arrivals [] = []"
| "arrivals (HbTick (Some t) # obs) = unat t # arrivals obs"
| "arrivals (HbTick None # obs) = arrivals obs"
| "arrivals (HbShutdown # obs) = []"

text \<open>
  The ticks fire every \<open>i\<close> milliseconds from \<open>b\<close> on, the next one as number \<open>k\<close>, and a request that is not lost is
  handled within \<open>d\<close> milliseconds; at most \<open>l\<close> requests in a row are lost, \<open>c\<close> of them so far.
\<close>

fun on_schedule :: "nat \<Rightarrow> nat \<Rightarrow> nat \<Rightarrow> nat \<Rightarrow> HbObs list \<Rightarrow> bool" where
  "on_schedule b i d k [] \<longleftrightarrow> True"
| "on_schedule b i d k (HbTick (Some t) # obs) \<longleftrightarrow>
     b + k * i \<le> unat t \<and> unat t \<le> b + k * i + d \<and> on_schedule b i d (Suc k) obs"
| "on_schedule b i d k (HbTick None # obs) \<longleftrightarrow> on_schedule b i d (Suc k) obs"
| "on_schedule b i d k (HbShutdown # obs) \<longleftrightarrow> True"

fun few_losses :: "nat \<Rightarrow> nat \<Rightarrow> HbObs list \<Rightarrow> bool" where
  "few_losses l c [] \<longleftrightarrow> True"
| "few_losses l c (HbTick (Some t) # obs) \<longleftrightarrow> few_losses l 0 obs"
| "few_losses l c (HbTick None # obs) \<longleftrightarrow> c < l \<and> few_losses l (Suc c) obs"
| "few_losses l c (HbShutdown # obs) \<longleftrightarrow> True"

text \<open>No two arrivals, and no arrival and the end, are more than \<open>g\<close> apart.\<close>

fun gaps :: "nat \<Rightarrow> nat \<Rightarrow> nat list \<Rightarrow> nat \<Rightarrow> bool" where
  "gaps g t [] e \<longleftrightarrow> e \<le> t + g"
| "gaps g t (u # us) e \<longleftrightarrow> u \<le> t + g \<and> gaps g u us e"

lemma late_arrival:
  assumes "c \<le> l" and "b + j * i \<le> t + d"
  shows "b + Suc (j + c) * i + d \<le> t + (Suc l * i + 2 * d)"
proof -
  have "Suc (j + c) * i = i + j * i + c * i" "Suc l * i = i + l * i" "c * i \<le> l * i"
    using assms(1) by (simp_all add: algebra_simps mult_le_mono2)
  then show ?thesis using assms(2) by linarith
qed

lemma schedule_gaps:
  assumes "on_schedule b i d (Suc (j + c)) obs" and "few_losses l c obs" and "HbShutdown \<notin> set obs"
    and "b + j * i \<le> t + d" and "c \<le> l"
  shows "gaps (Suc l * i + 2 * d) t (arrivals obs) (b + (Suc (j + c) + length obs) * i)"
  using assms
proof (induction obs arbitrary: j c t)
  case Nil
  show ?case using late_arrival [OF Nil.prems(5,4)] by simp
next
  case (Cons ob obs)
  then obtain x where x: "ob = HbTick x" by (cases ob) auto
  show ?case
  proof (cases x)
    case None
    have "gaps (Suc l * i + 2 * d) t (arrivals obs) (b + (Suc (j + Suc c) + length obs) * i)"
      by (rule Cons.IH) (use Cons.prems x None in auto)
    then show ?thesis using x None by simp
  next
    case (Some u)
    have "unat u \<le> t + (Suc l * i + 2 * d)" using late_arrival [OF Cons.prems(5,4)] Cons.prems(1) x Some by simp
    moreover have "gaps (Suc l * i + 2 * d) (unat u) (arrivals obs) (b + (Suc (Suc (j + c) + 0) + length obs) * i)"
      by (rule Cons.IH) (use Cons.prems x Some in auto)
    ultimately show ?thesis using x Some by simp
  qed
qed

lemma gaps_in_time:
  assumes "gaps g (unat t) (beat_times n ops) e" and "chronological ops"
    and "\<forall>now timeout. GcsSweep now timeout \<in> set ops \<longrightarrow> g \<le> unat timeout \<and> unat now \<le> e" and "GcsDrain n \<notin> set ops"
  shows "beats_in_time n t ops"
  using assms
proof (induction ops arbitrary: t)
  case (Cons op ops)
  have chr: "chronological ops" using Cons.prems(2) by (cases op) (simp_all add: chronological_def)
  show ?case
  proof (cases op)
    case (GcsSweep now timeout)
    have in_ops: "u \<in> set (beat_times n ops) \<Longrightarrow> u \<in> set (concat (map op_times ops))" for u
      by (induction n ops rule: beat_times.induct) (auto split: if_splits)
    have "unat now \<le> unat t + g"
    proof (cases "beat_times n ops")
      case Nil
      then show ?thesis using Cons.prems(1,3) GcsSweep by fastforce
    next
      case (Cons u us)
      then have "unat now \<le> u" using \<open>chronological (op # ops)\<close> GcsSweep in_ops [of u] by (auto simp: chronological_def)
      then show ?thesis using Cons \<open>gaps g (unat t) (beat_times n (op # ops)) e\<close> GcsSweep by simp
    qed
    moreover have "g \<le> unat timeout" using Cons.prems(3) GcsSweep by auto
    ultimately show ?thesis using Cons.IH [OF _ chr, of t] Cons.prems(1,3,4) GcsSweep by auto
  next
    case (GcsHeartbeat m now)
    then show ?thesis using Cons.IH [OF _ chr, of "if m = n then now else t"] Cons.prems(1,3,4) by (auto split: if_splits)
  qed (use Cons.IH [OF _ chr, of t] Cons.prems(1,3,4) in auto)
qed simp

text \<open>A driver that is attached, and its listing.\<close>

lemma raylet_start_registers:
  assumes "raylet_start fresh now se cfg r = (r', Inr h)"
  shows "rh_node_id h = fresh \<and> length fresh = 16 \<and> rh_cluster_session_id h = cluster_session_id r \<and>
    rl_directory (rh_raylet h) = [] \<and>
    (\<exists>info. hm_get (nodes r') fresh = Some info \<and> ni_status info = as_i32 Alive \<and> ni_last_heartbeat info = now \<and>
       ni_address info = Some \<lparr>addr_host = cfg_advertise_host cfg, addr_port = ucast (of_nat (port_of (rh_local_addr h)) :: u16),
         addr_node_id = fresh, addr_plasma_socket = cfg_plasma_socket cfg\<rparr>)"
  using assms
  by (auto simp: raylet_start_def gcs_client_register_def register_node_def gcs_client_parse_id_def map_ok_def map_err_def Let_def
      split: sum.splits if_splits prod.splits)

lemma raylet_start_fails:
  assumes "raylet_start fresh now se cfg r = (r', Inl e)" and "length fresh = 16" and "length (cluster_session_id r) = 16"
  shows "(case e of StartMetrics _ \<Rightarrow> r' = r \<or> is_alive r' fresh | _ \<Rightarrow> r' = r)"
  using assms
  by (auto simp: raylet_start_def gcs_client_register_def register_node_def gcs_client_parse_id_def map_ok_def map_err_def Let_def
      is_alive_def split: sum.splits if_splits prod.splits)

lemma connect_succeeds:
  assumes "connect_and_register err ae n now j now_j addr sock cs = (cs', Inr (b, h, mgr))"
  obtains dir disk hst a where "LocalFsBackend_new (ae_create_dir ae) (ae_canonicalize ae) dir (ae_disk ae) = Inr disk"
    "mgr = LocalObjectManager_new disk"
    "raylet_start n now (ae_start ae) (driver_config ae a hst sock mgr) (cs_nodes cs) = (cs_nodes cs', Inr h)"
    "b = binding_of j h" "length j = 16"
    "gcs_client_add_job j now_j hst (ae_pid ae) (Some (rh_node_id h)) (cs_jobs cs) = (cs_jobs cs', Inr j)"
proof -
  obtain a where a: "parse_socket_addr addr = Some a"
    using assms by (cases "parse_socket_addr addr") (simp_all add: connect_and_register_def)
  obtain dir where d: "ae_runtime ae = Inr ()" "ae_spill_dir ae = Inr dir"
    using assms a by (auto simp: connect_and_register_def Let_def split: sum.splits)
  obtain disk where k: "LocalFsBackend_new (ae_create_dir ae) (ae_canonicalize ae) dir (ae_disk ae) = Inr disk"
    using assms a d by (cases "LocalFsBackend_new (ae_create_dir ae) (ae_canonicalize ae) dir (ae_disk ae)")
      (simp_all add: connect_and_register_def Let_def)
  let ?hst = "case ae_host ae of None \<Rightarrow> ascii ''localhost'' | Some hst \<Rightarrow> hst"
  obtain r x where x: "raylet_start n now (ae_start ae) (driver_config ae a ?hst sock (LocalObjectManager_new disk)) (cs_nodes cs) = (r, x)"
    by fastforce
  then obtain h' where h': "x = Inr h'" using assms a d k by (cases x) (simp_all add: connect_and_register_def Let_def)
  obtain js y where y: "gcs_client_add_job j now_j ?hst (ae_pid ae) (Some (rh_node_id h')) (cs_jobs cs) = (js, y)" by fastforce
  then obtain job where job: "ae_connect ae = Inr ()" "y = Inr job"
    using assms a d k x h' by (cases "ae_connect ae"; cases y) (simp_all add: connect_and_register_def Let_def)
  have id: "job = j" "length j = 16"
    using y job(2) by (auto simp: gcs_client_add_job_def gcs_client_parse_id_def add_job_def Let_def split: if_splits)
  have all: "b = binding_of j h" "h' = h" "mgr = LocalObjectManager_new disk" "cs_nodes cs' = r" "cs_jobs cs' = js"
    using assms a d k x h' y job id by (auto simp: connect_and_register_def Let_def)
  show thesis by (rule that [OF k all(3), of a ?hst]) (use x h' y job id all in simp_all)
qed

lemma job_added:
  assumes "gcs_client_add_job j now hst pid (Some n) g = (g', Inr j)"
  shows "\<exists>e. hm_get (jobs g') j = Some e \<and> ji_status (je_info e) = job_status_i32 Running \<and> ji_node_id (je_info e) = n"
  using assms by (auto simp: gcs_client_add_job_def add_job_def Let_def split: if_splits)

lemma drained:
  "length n = 16 \<Longrightarrow> \<not> is_alive (fst (gcs_client_drain n r)) n"
  using nodes_drain [of n r n] by (cases "drain n r") (auto simp: gcs_client_drain_def is_alive_def)

text \<open>An attach that fails after the raylet has registered leaves the node alive in the control store, and nobody beats for it.\<close>

lemma failed_attach_leaves_node:
  assumes "connect_and_register err ae n now j now_j addr sock cs = (cs', Inl (BindingGcs e))"
  shows "is_alive (cs_nodes cs') n"
proof -
  obtain a where a: "parse_socket_addr addr = Some a"
    using assms by (cases "parse_socket_addr addr") (simp_all add: connect_and_register_def)
  obtain dir where d: "ae_runtime ae = Inr ()" "ae_spill_dir ae = Inr dir"
    using assms a by (auto simp: connect_and_register_def Let_def split: sum.splits)
  obtain disk where k: "LocalFsBackend_new (ae_create_dir ae) (ae_canonicalize ae) dir (ae_disk ae) = Inr disk"
    using assms a d by (cases "LocalFsBackend_new (ae_create_dir ae) (ae_canonicalize ae) dir (ae_disk ae)")
      (simp_all add: connect_and_register_def Let_def)
  let ?hst = "case ae_host ae of None \<Rightarrow> ascii ''localhost'' | Some hst \<Rightarrow> hst"
  obtain r x where x: "raylet_start n now (ae_start ae) (driver_config ae a ?hst sock (LocalObjectManager_new disk)) (cs_nodes cs) = (r, x)"
    by fastforce
  then obtain h where h: "x = Inr h" using assms a d k by (cases x) (simp_all add: connect_and_register_def Let_def)
  have "cs_nodes cs' = r"
    using assms a d k x h by (auto simp: connect_and_register_def raylet_drop_def Let_def split: sum.splits prod.splits)
  then show ?thesis using raylet_start_registers [OF x [unfolded h]] by (auto simp: is_alive_def)
qed

text \<open>An example: a node registered at time 0.\<close>

definition example_info :: NodeInfo where
  "example_info =
     \<lparr>ni_address = Some \<lparr>addr_host = [104], addr_port = 7, addr_node_id = replicate 16 1, addr_plasma_socket = []\<rparr>,
      ni_resources = None, ni_status = as_i32 Alive, ni_registered_at = 0, ni_last_heartbeat = 0\<rparr>"

definition example_member :: Registry where
  "example_member =
     fst (register_node (replicate 16 1) 0 \<lparr>rr_host = [104], rr_port = 7, rr_plasma_socket = [], rr_resources = None\<rparr>
       (Registry_new (replicate 16 5) None))"

lemma example_member:
  "hm_get (nodes example_member) (replicate 16 1) = Some example_info" "ni_status example_info = as_i32 Alive"
  by (simp_all add: example_member_def example_info_def register_node_def Let_def del: replicate.simps)

text \<open>An example: every step of attaching succeeds.\<close>

definition example_attach :: AttachEnv where
  "example_attach =
     \<lparr>ae_runtime = Inr (), ae_host = Some [104], ae_pid = 1, ae_cpus = 4, ae_spill_dir = Inr [115],
      ae_create_dir = (\<lambda>_. Inr ()), ae_canonicalize = Inr, ae_disk = \<lparr>root = [], files = [], tmp_counter = 0, fault = NoFault\<rparr>,
      ae_heartbeat_env = None, ae_metrics_env = None,
      ae_start = \<lparr>se_bind = Inr (SockV4 [0, 0, 0, 0] 7), se_plasma = Inr example_conn, se_metrics = Inr (), se_connect = Inr (),
                  se_serve_metrics = Inl []\<rparr>,
      ae_connect = Inr ()\<rparr>"

definition example_control :: ControlStore where
  "example_control = \<lparr>cs_nodes = Registry_new (replicate 16 5) None, cs_jobs = JobsRegistry_new None\<rparr>"

definition example_gcs_address :: bytes where
  "example_gcs_address =
     dec_digits 10 @ [46] @ dec_digits 0 @ [46] @ dec_digits 0 @ [46] @ dec_digits 1 @ [58] @ dec_digits 60000"

lemma example_attaches:
  obtains cs b h mgr where
    "connect_and_register [] example_attach (replicate 16 1) 0 (replicate 16 2) 0 example_gcs_address [] example_control = (cs, Inr (b, h, mgr))"
proof -
  have a: "parse_socket_addr example_gcs_address = Some (SockV4 [10, 0, 0, 1] 60000)"
    unfolding example_gcs_address_def by (rule parse_dotted) simp_all
  have "\<exists>cs b h mgr. connect_and_register [] example_attach (replicate 16 1) 0 (replicate 16 2) 0 example_gcs_address [] example_control =
      (cs, Inr (b, h, mgr))"
    by (simp add: connect_and_register_def a example_attach_def LocalFsBackend_new_def raylet_start_def driver_config_def
        raylet_metrics_bind_def example_control_def gcs_client_register_def register_node_def gcs_client_parse_id_def map_ok_def map_err_def
        gcs_client_add_job_def add_job_def Registry_new_def Let_def del: replicate.simps)
  then show thesis using that by blast
qed

section \<open>Properties\<close>

text \<open>C28. A registered node is alive exactly as long as it is not drained and every sweep of the control store comes at most
  the timeout after the last heartbeat that was handled before it, whatever other requests are handled in
  between. A node that missed one sweep never becomes alive again: later heartbeats are accepted and ignored.\<close>

theorem node_alive_iff_beats:
  assumes "length n = 16" and "\<forall>op\<in>set ops. leaves_node n op"
    and "hm_get (nodes r) n = Some info" and "ni_status info = as_i32 Alive"
  shows "is_alive (fold gcs_step ops r) n \<longleftrightarrow> beats_in_time n (ni_last_heartbeat info) ops"
  by (rule alive_iff_beats [OF assms])

theorem node_alive_iff_beats_witness:
  "is_alive (fold gcs_step [GcsHeartbeat (replicate 16 1) 2000, GcsSweep 11000 10000] example_member) (replicate 16 1) \<and>
   \<not> is_alive (fold gcs_step [GcsSweep 11000 10000, GcsHeartbeat (replicate 16 1) 12000] example_member) (replicate 16 1)"
proof -
  have n: "length (replicate 16 1 :: bytes) = 16" by simp
  note iff = node_alive_iff_beats [OF n _ example_member]
  show ?thesis
    using iff [of "[GcsHeartbeat (replicate 16 1) 2000, GcsSweep 11000 10000]"]
      iff [of "[GcsSweep 11000 10000, GcsHeartbeat (replicate 16 1) 12000]"]
    by (simp add: leaves_node_def example_info_def del: fold_simps replicate.simps)
qed



text \<open>C30. Attaching and detaching a driver: after a successful attach the control store lists the node as alive and the
  driver's job as running under it, with the ids that the binding reports; whatever is handled in between, detaching
  finishes the job and drains the node before the raylet stops serving, and the node is never alive again.\<close>

theorem attach_then_detach:
  assumes "connect_and_register err ae n now j now_j addr sock cs = (cs1, Inr (b, h, mgr))"
    and "cs_nodes cs2 = fold gcs_step ops (cs_nodes cs1)" and "\<forall>op\<in>set (ops @ ops'). leaves_node n op"
    and "hm_get (jobs (cs_jobs cs2)) j = hm_get (jobs (cs_jobs cs1)) j"
    and "binding_shutdown True True now' (b, h') cs2 = (cs3, steps)" and "rh_node_id h' = rh_node_id h"
  shows "gb_node_id b = n \<and> gb_job_id b = j \<and> is_alive (cs_nodes cs1) n \<and>
    (\<exists>e. hm_get (jobs (cs_jobs cs1)) j = Some e \<and> ji_status (je_info e) = job_status_i32 Running \<and> ji_node_id (je_info e) = n) \<and>
    \<not> is_alive (fold gcs_step ops' (cs_nodes cs3)) n \<and>
    (\<exists>e. hm_get (jobs (cs_jobs cs3)) j = Some e \<and> ji_status (je_info e) = job_status_i32 Finished) \<and>
    (\<exists>before. steps = before @ [StopHeartbeat, DrainNode, StopServer])"
proof -
  obtain dir disk hst a where c:
    "raylet_start n now (ae_start ae) (driver_config ae a hst sock mgr) (cs_nodes cs) = (cs_nodes cs1, Inr h)"
    "b = binding_of j h" "length j = 16"
    "gcs_client_add_job j now_j hst (ae_pid ae) (Some (rh_node_id h)) (cs_jobs cs) = (cs_jobs cs1, Inr j)"
    by (rule connect_succeeds [OF assms(1)])
  note reg = raylet_start_registers [OF c(1)]
  have n: "rh_node_id h = n" "length n = 16" using reg by simp_all
  obtain e where e: "hm_get (jobs (cs_jobs cs1)) j = Some e" "ji_status (je_info e) = job_status_i32 Running" "ji_node_id (je_info e) = n"
    using job_added [OF c(4)] n by auto
  have jobs: "\<exists>e. hm_get (jobs (cs_jobs cs3)) j = Some e \<and> ji_status (je_info e) = job_status_i32 Finished"
    using assms(4,5) e(1) c(2,3)
    by (auto simp: binding_shutdown_def binding_of_def gcs_client_mark_job_finished_def mark_job_finished_def parse_job_id_def
        finish_entry_def Let_def split: prod.splits)
  have "cs_nodes cs3 = fst (gcs_client_drain n (cs_nodes cs2))"
    using assms(5,6) n by (auto simp: binding_shutdown_def raylet_shutdown_def Let_def)
  then have "\<not> is_alive (fold gcs_step ops' (cs_nodes cs3)) n"
    using not_alive_stays [of ops' n "cs_nodes cs3"] drained [OF n(2)] assms(3) by simp
  moreover have "\<exists>before. steps = before @ [StopHeartbeat, DrainNode, StopServer]"
    using assms(5) by (auto simp: binding_shutdown_def raylet_shutdown_def Let_def)
  ultimately show ?thesis using reg e jobs c(2) n by (auto simp: binding_of_def is_alive_def)
qed

theorem attach_then_detach_witness:
  "\<exists>cs b h mgr cs' steps.
    connect_and_register [] example_attach (replicate 16 1) 0 (replicate 16 2) 0 example_gcs_address [] example_control = (cs, Inr (b, h, mgr)) \<and>
    is_alive (cs_nodes cs) (replicate 16 1) \<and>
    binding_shutdown True True 3 (b, h) cs = (cs', steps) \<and>
    \<not> is_alive (fold gcs_step [GcsHeartbeat (replicate 16 1) 9] (cs_nodes cs')) (replicate 16 1)"
proof -
  obtain cs b h mgr where c:
    "connect_and_register [] example_attach (replicate 16 1) 0 (replicate 16 2) 0 example_gcs_address [] example_control = (cs, Inr (b, h, mgr))"
    by (rule example_attaches)
  obtain cs' steps where d: "binding_shutdown True True 3 (b, h) cs = (cs', steps)" by fastforce
  have ops: "cs_nodes cs = fold gcs_step [] (cs_nodes cs)"
      "\<forall>op\<in>set ([] @ [GcsHeartbeat (replicate 16 1) 9]). leaves_node (replicate 16 1) op"
    by (simp_all add: leaves_node_def)
  from attach_then_detach [OF c ops refl d refl] c d show ?thesis by blast
qed

end
