(* ===== verification/Runtime_Setup.thy ===== *)
theory Runtime_Setup
imports Node_Lifecycle Dispatcher
begin

text \<open>
  Bringing the parts up: \<open>install\<close> and the environment variables of \<open>rayd-py/src/runtime.rs\<close>, the start of the control
  store (\<open>rayd-gcs/src/server.rs\<close>) and the subcommands of \<open>rayd-cli/src/main.rs\<close>.  What the operating system answers is an
  argument; durations are milliseconds.
\<close>

section \<open>Environment variables\<close>

definition DEFAULT_WORKERS :: nat where
  "DEFAULT_WORKERS = 4"

definition parse_num_workers :: "bytes option \<Rightarrow> nat" where
  "parse_num_workers env =
     (case Option.bind env parse_u64 of Some n \<Rightarrow> if 0 < n then n else DEFAULT_WORKERS | None \<Rightarrow> DEFAULT_WORKERS)"

fun is_finite :: "f64 \<Rightarrow> bool" where
  "is_finite (F64 m e) = True"
| "is_finite _ = False"

definition f64_zero :: f64 where
  "f64_zero = F64 0 0"

text \<open>For numbers that are not NaN, \<open>x <= y\<close> is the negation of \<open>y < x\<close>.\<close>

definition valid_threshold :: "f64 \<Rightarrow> bool" where
  "valid_threshold t \<longleftrightarrow> is_finite t \<and> f64_lt f64_zero t \<and> \<not> f64_lt f64_one t"

text \<open>\<open>num\<close> is \<open>str::parse\<close> for \<open>f64\<close>.\<close>

definition parse_spill_policy :: "(bytes \<Rightarrow> f64 option) \<Rightarrow> bytes option \<Rightarrow> bytes option \<Rightarrow> u64 \<times> f64" where
  "parse_spill_policy num budget_env threshold_env =
     (case Option.bind budget_env parse_u64 of
        Some n \<Rightarrow> if 0 < n then of_nat n else DEFAULT_SPILL_BUDGET_BYTES
      | None \<Rightarrow> DEFAULT_SPILL_BUDGET_BYTES,
      case Option.bind threshold_env num of
        Some t \<Rightarrow> if valid_threshold t then t else DEFAULT_SPILL_THRESHOLD
      | None \<Rightarrow> DEFAULT_SPILL_THRESHOLD)"

section \<open>Installing a session\<close>

record InstallEnv =
  ie_plasma_env :: "bytes option"
  ie_exists :: "bytes \<Rightarrow> bool"
  ie_temp_dir :: "(bytes, bytes) result"
  ie_server :: "bytes \<Rightarrow> (bytes, unit) result"
  ie_plasma :: "bytes \<Rightarrow> (PlasmaError, conn) result"
  ie_show_plasma :: "PlasmaError \<Rightarrow> bytes"
  ie_inline_size :: nat
  ie_hex :: "bytes \<Rightarrow> bytes"
  ie_worker_id :: WorkerId
  ie_job_id :: JobId
  ie_budget_env :: "bytes option"
  ie_threshold_env :: "bytes option"
  ie_parse_f64 :: "bytes \<Rightarrow> f64 option"
  ie_no_dispatch :: bool
  ie_num_workers_env :: "bytes option"
  ie_dispatcher :: "(bytes, bool) result"
  ie_gcs_env :: "bytes option"
  ie_attach :: AttachEnv
  ie_address_error :: bytes
  ie_node :: bytes
  ie_node_time :: u64
  ie_job :: bytes
  ie_job_time :: u64
  ie_show_binding :: "GcsBindingError \<Rightarrow> bytes"
  ie_metrics :: "(bytes, unit) result"
  ie_raced :: "fs_manager Session option"

definition resolve_plasma_socket :: "InstallEnv \<Rightarrow> ('v PyErr, bytes) result" where
  "resolve_plasma_socket ie =
     (case ie_plasma_env ie of
        Some socket \<Rightarrow>
          if ie_exists ie socket then Inr socket
          else Inl (PyRuntimeError (ascii ''RAYD_PLASMA_SOCKET points at '' @ socket
                 @ ascii '' which doesn'' @ [39] @ ascii ''t exist; start a plasma server first (`rayd plasma-server <path>`)''))
      | None \<Rightarrow>
          (case ie_temp_dir ie of
             Inl e \<Rightarrow> Inl (PyRuntimeError (ascii ''failed to create rayd temp dir: '' @ e))
           | Inr dir \<Rightarrow>
               (case ie_server ie (dir @ ascii ''/plasma.sock'') of
                  Inl e \<Rightarrow> Inl (PyRuntimeError (ascii ''failed to start plasma server: '' @ e))
                | Inr _ \<Rightarrow> Inr (dir @ ascii ''/plasma.sock''))))"

text \<open>
  \<open>ie_dispatcher\<close>: whether the dispatcher starts, and then whether all its workers connect in time;
  \<open>ie_raced\<close>: the session that another thread has installed in the meantime.
\<close>

definition install_dispatcher :: "InstallEnv \<Rightarrow> MemoryStore \<Rightarrow> ('v PyErr, Dispatcher option) result" where
  "install_dispatcher ie st =
     (if ie_no_dispatch ie then Inr None
      else
        (case ie_dispatcher ie of
           Inl e \<Rightarrow> Inl (PyRuntimeError (ascii ''failed to start dispatcher: '' @ e))
         | Inr False \<Rightarrow>
             Inl (PyRuntimeError (ascii ''rayd dispatcher: only some of '' @ dec_digits (parse_num_workers (ie_num_workers_env ie))
               @ ascii '' worker subprocesses connected back within 5s''))
         | Inr True \<Rightarrow> Inr (Some (Dispatcher_start (st, None) (Some [])))))"

text \<open>The binding, the hooks of the worker, and the handle of the raylet.\<close>

definition install_gcs ::
  "InstallEnv \<Rightarrow> bytes \<Rightarrow> fs_manager CoreWorker \<Rightarrow> ControlStore \<Rightarrow>
     ControlStore \<times> ('v PyErr, fs_manager Session \<times> RayletHandle option) result" where
  "install_gcs ie socket w cs =
     (case ie_gcs_env ie of
        None \<Rightarrow> (cs, Inr (\<lparr>ses_worker = w, ses_gcs = None\<rparr>, None))
      | Some addr \<Rightarrow>
          (case connect_and_register (ie_address_error ie) (ie_attach ie) (ie_node ie) (ie_node_time ie) (ie_job ie) (ie_job_time ie)
                  addr socket cs of
             (cs', Inl e) \<Rightarrow>
               (cs', Inl (PyRuntimeError (ascii ''RAYD_GCS_ADDRESS='' @ addr @ ascii '' but registration failed: '' @ ie_show_binding ie e)))
           | (cs', Inr (b, h, mgr)) \<Rightarrow>
               (cs', Inr (\<lparr>ses_worker = set_recoverer mgr (set_free_callback forget_on_free w), ses_gcs = Some b\<rparr>, Some h))))"

definition install ::
  "InstallEnv \<Rightarrow> fs_manager Session option \<times> ControlStore \<Rightarrow>
     (fs_manager Session option \<times> ControlStore) \<times> ('v PyErr, (Dispatcher option \<times> RayletHandle option) option) result" where
  "install ie gc =
     (case gc of
        (Some s, cs) \<Rightarrow> ((Some s, cs), Inr None)
      | (None, cs) \<Rightarrow>
          (case resolve_plasma_socket ie of
             Inl e \<Rightarrow> ((None, cs), Inl e)
           | Inr socket \<Rightarrow>
               (case new_local_with_plasma (ie_inline_size ie) (ie_hex ie) (ie_worker_id ie) (ie_job_id ie) (ie_plasma ie socket) of
                  Inl e \<Rightarrow> ((None, cs), Inl (PyRuntimeError (ascii ''failed to connect plasma client: '' @ ie_show_plasma ie e)))
                | Inr w0 \<Rightarrow>
                    (let w = (case parse_spill_policy (ie_parse_f64 ie) (ie_budget_env ie) (ie_threshold_env ie) of
                                (budget, t) \<Rightarrow> set_spill_policy budget t w0)
                     in case install_dispatcher ie (cw_store w) of
                          Inl e \<Rightarrow> ((None, cs), Inl e)
                        | Inr disp \<Rightarrow>
                            (case install_gcs ie socket w cs of
                               (cs', Inl e) \<Rightarrow> ((None, cs'), Inl e)
                             | (cs', Inr (s, h)) \<Rightarrow>
                                 (case ie_metrics ie of
                                    Inl e \<Rightarrow> ((None, cs'), Inl (PyRuntimeError (ascii ''driver metrics: '' @ e)))
                                  | Inr _ \<Rightarrow>
                                      (case ie_raced ie of
                                         Some other \<Rightarrow> ((Some other, cs'), Inr None)
                                       | None \<Rightarrow> ((Some s, cs'), Inr (Some (disp, h))))))))))"

section \<open>The control store\<close>

record GcsServerConfig =
  gc_heartbeat_timeout :: nat
  gc_sweep_interval :: nat
  gc_metrics_bind :: "SocketAddr option"

definition GcsServerConfig_default :: GcsServerConfig where
  "GcsServerConfig_default = \<lparr>gc_heartbeat_timeout = 10000, gc_sweep_interval = 1000, gc_metrics_bind = None\<rparr>"

datatype GcsServerStartError = GcsBind bytes | GcsMetrics bytes

text \<open>The registries of a fresh server, and the period of its sweeper, if it has one.\<close>

definition sweeper_period :: "GcsServerConfig \<Rightarrow> nat option" where
  "sweeper_period cfg =
     (if gc_heartbeat_timeout cfg = 0 then None else Some (min (gc_sweep_interval cfg) (gc_heartbeat_timeout cfg)))"

definition start_with_config ::
  "bytes \<Rightarrow> (bytes, SocketAddr) result \<Rightarrow> (bytes, unit) result \<Rightarrow> (bytes, SocketAddr) result \<Rightarrow> GcsServerConfig \<Rightarrow>
     (GcsServerStartError, ControlStore \<times> ActorsRegistry \<times> nat option) result" where
  "start_with_config session bound bag served cfg =
     (case bound of
        Inl e \<Rightarrow> Inl (GcsBind e)
      | Inr _ \<Rightarrow>
          (case (if gc_metrics_bind cfg = None then Inr False else map_ok (\<lambda>_. True) bag) of
             Inl e \<Rightarrow> Inl (GcsMetrics e)
           | Inr metered \<Rightarrow>
               (let gauge = (if metered then Some 0 else None) in
                case (if metered then map_ok (\<lambda>_. ()) served else Inr ()) of
                  Inl e \<Rightarrow> Inl (GcsMetrics e)
                | Inr _ \<Rightarrow>
                    Inr (\<lparr>cs_nodes = Registry_new session (if metered then Some NodeMetrics_new else None),
                          cs_jobs = JobsRegistry_new gauge\<rparr>,
                         ActorsRegistry_new gauge, sweeper_period cfg))))"

section \<open>The command line\<close>

datatype Command =
    CmdVersion
  | CmdPlasmaServer bytes u64 "SocketAddr option"
  | CmdGcs SocketAddr u64 "SocketAddr option"
  | CmdStart bool "SocketAddr option" SocketAddr bytes u64 "bytes option" SocketAddr

text \<open>What a subcommand brings up.\<close>

datatype Launch =
    LaunchNothing
  | LaunchPlasma bytes nat "SocketAddr option"
  | LaunchGcs SocketAddr GcsServerConfig
  | LaunchHead SocketAddr GcsServerConfig bytes nat
  | LaunchWorker RayletConfig nat

definition capacity_bytes :: "bytes \<Rightarrow> u64 \<Rightarrow> (bytes, nat) result" where
  "capacity_bytes msg mb = (if unat mb * (1024 * 1024) < 2 ^ 64 then Inr (unat mb * (1024 * 1024)) else Inl msg)"

definition gcs_config :: "u64 \<Rightarrow> SocketAddr option \<Rightarrow> GcsServerConfig" where
  "gcs_config heartbeat_timeout_ms metrics_bind =
     (let timeout = unat heartbeat_timeout_ms
      in \<lparr>gc_heartbeat_timeout = timeout,
          gc_sweep_interval =
            (if timeout = 0 then gc_sweep_interval GcsServerConfig_default
             else min (gc_sweep_interval GcsServerConfig_default) timeout),
          gc_metrics_bind = metrics_bind\<rparr>)"

definition worker_config :: "SocketAddr \<Rightarrow> SocketAddr \<Rightarrow> bytes \<Rightarrow> bytes \<Rightarrow> nat \<Rightarrow> RayletConfig" where
  "worker_config gcs bind_addr hst socket cpus =
     RayletConfig_defaults\<lparr>cfg_gcs_address := gcs, cfg_bind := bind_addr, cfg_advertise_host := hst, cfg_plasma_socket := socket,
       cfg_resources := default_resources cpus\<rparr>"

text \<open>\<open>hostname_env\<close> is the variable \<open>HOSTNAME\<close>.\<close>

definition cli_launch :: "bytes option \<Rightarrow> nat \<Rightarrow> Command \<Rightarrow> (bytes, Launch) result" where
  "cli_launch hostname_env cpus cmd =
     (case cmd of
        CmdVersion \<Rightarrow> Inr LaunchNothing
      | CmdPlasmaServer socket mb metrics_bind \<Rightarrow>
          map_ok (\<lambda>cap. LaunchPlasma socket cap metrics_bind) (capacity_bytes (ascii ''capacity-mb overflow'') mb)
      | CmdGcs bind_addr timeout metrics_bind \<Rightarrow> Inr (LaunchGcs bind_addr (gcs_config timeout metrics_bind))
      | CmdStart head address gcs_bind socket mb advertise raylet_bind \<Rightarrow>
          if head
          then map_ok (\<lambda>cap. LaunchHead gcs_bind GcsServerConfig_default socket cap) (capacity_bytes (ascii ''plasma-capacity-mb overflow'') mb)
          else
            (case address of
               None \<Rightarrow> Inl (ascii ''pass either --head (start a new cluster) or --address=<gcs-addr> (attach to an existing head)'')
             | Some gcs \<Rightarrow>
                 (let hst = (case advertise of
                               Some a \<Rightarrow> a
                             | None \<Rightarrow> (case hostname_env of Some a \<Rightarrow> a | None \<Rightarrow> ascii ''127.0.0.1''))
                  in map_ok (\<lambda>cap. LaunchWorker (worker_config gcs raylet_bind hst socket cpus) cap)
                       (capacity_bytes (ascii ''plasma-capacity-mb overflow'') mb))))"

section \<open>What setup guarantees\<close>

lemma valid_clamp: "valid_threshold t \<Longrightarrow> valid_threshold (f64_clamp t f64_MIN_POSITIVE f64_one)"
  by (simp add: f64_clamp_def valid_threshold_def Let_def f64_MIN_POSITIVE_def f64_one_def f64_zero_def)

lemma parse_digits_bound: "parse_digits acc bs = Some n \<Longrightarrow> acc < 2 ^ 64 \<Longrightarrow> n < 2 ^ 64"
  by (induction bs arbitrary: acc) (auto split: if_splits)

lemma parse_u64_bound: "parse_u64 bs = Some n \<Longrightarrow> n < 2 ^ 64"
  using parse_digits_bound [of 0] by (auto simp: parse_u64_def Let_def split: if_splits)

lemma spill_policy_valid:
  "parse_spill_policy num be te = (budget, t) \<Longrightarrow> budget \<noteq> 0 \<and> valid_threshold t"
proof -
  assume p: "parse_spill_policy num be te = (budget, t)"
  have nz: "(of_nat n :: u64) \<noteq> 0" if "Option.bind be parse_u64 = Some n" "0 < n" for n
  proof -
    have "n < 2 ^ 64" using that(1) parse_u64_bound by (cases be) auto
    then have "unat (of_nat n :: u64) = n" by (rule unat_of_nat64)
    then show ?thesis using that(2) by (metis unat_0 less_irrefl)
  qed
  have d: "DEFAULT_SPILL_BUDGET_BYTES \<noteq> 0" "valid_threshold DEFAULT_SPILL_THRESHOLD"
    by (simp_all add: DEFAULT_SPILL_BUDGET_BYTES_def DEFAULT_SPILL_THRESHOLD_def valid_threshold_def f64_zero_def f64_one_def)
  show ?thesis using p d nz by (auto simp: parse_spill_policy_def split: option.splits if_splits)
qed

lemma backend_new:
  "LocalFsBackend_new c k dir b = Inr b' \<Longrightarrow> \<exists>r. k dir = Inr r \<and> b' = b\<lparr>root := r\<rparr>"
  by (auto simp: LocalFsBackend_new_def split: sum.splits)

lemma installed:
  assumes "install ie (None, cs) = ((Some s, cs'), Inr (Some (disp, h)) :: ('v PyErr, _) result)"
  obtains socket w st budget t where "ie_plasma ie socket = Inr st"
    "parse_spill_policy (ie_parse_f64 ie) (ie_budget_env ie) (ie_threshold_env ie) = (budget, t)"
    "w = set_spill_policy budget t ((new_local (ie_inline_size ie) (ie_hex ie) (ie_worker_id ie) (ie_job_id ie))\<lparr>cw_plasma := Some st\<rparr>)"
    "install_gcs ie socket w cs = (cs', Inr (s, h) :: ('v PyErr, _) result)"
    "install_dispatcher ie (cw_store w) = (Inr disp :: ('v PyErr, _) result)"
proof -
  obtain socket where so: "resolve_plasma_socket ie = (Inr socket :: ('v PyErr, bytes) result)"
    using assms by (cases "resolve_plasma_socket ie :: ('v PyErr, bytes) result") (simp_all add: install_def)
  obtain st where st: "ie_plasma ie socket = Inr st"
    using assms so by (cases "ie_plasma ie socket") (simp_all add: install_def new_local_with_plasma_def)
  obtain budget t where p: "parse_spill_policy (ie_parse_f64 ie) (ie_budget_env ie) (ie_threshold_env ie) = (budget, t)" by fastforce
  let ?w = "set_spill_policy budget t ((new_local (ie_inline_size ie) (ie_hex ie) (ie_worker_id ie) (ie_job_id ie))\<lparr>cw_plasma := Some st\<rparr>) :: fs_manager CoreWorker"
  have "install_dispatcher ie (cw_store ?w) = (Inr disp :: ('v PyErr, _) result) \<and> install_gcs ie socket ?w cs = (cs', Inr (s, h) :: ('v PyErr, _) result)"
    using assms so st p
    by (auto simp: install_def new_local_with_plasma_def Let_def split: sum.splits prod.splits option.splits)
  then show thesis using that st p by blast
qed

lemma attached_session:
  assumes "install_gcs ie socket w cs = (cs', Inr (s, h) :: ('v PyErr, _) result)"
  obtains (alone) "s = \<lparr>ses_worker = w, ses_gcs = None\<rparr>" "cs' = cs"
  | (attached) b mgr disk dir where "s = \<lparr>ses_worker = set_recoverer mgr (set_free_callback forget_on_free w), ses_gcs = Some b\<rparr>"
      "LocalFsBackend_new (ae_create_dir (ie_attach ie)) (ae_canonicalize (ie_attach ie)) dir (ae_disk (ie_attach ie)) = Inr disk"
      "mgr = LocalObjectManager_new disk" "gb_node_id b = ie_node ie" "length (ie_node ie) = 16" "gb_directory b = []"
      "is_alive (cs_nodes cs') (ie_node ie)"
proof (cases "ie_gcs_env ie")
  case None
  then show thesis using assms alone by (simp add: install_gcs_def)
next
  case (Some addr)
  then obtain b hdl mgr where c: "connect_and_register (ie_address_error ie) (ie_attach ie) (ie_node ie) (ie_node_time ie) (ie_job ie)
      (ie_job_time ie) addr socket cs = (cs', Inr (b, hdl, mgr))"
      "s = \<lparr>ses_worker = set_recoverer mgr (set_free_callback forget_on_free w), ses_gcs = Some b\<rparr>"
    using assms by (auto simp: install_gcs_def split: prod.splits sum.splits)
  obtain dir disk hst a where d:
    "LocalFsBackend_new (ae_create_dir (ie_attach ie)) (ae_canonicalize (ie_attach ie)) dir (ae_disk (ie_attach ie)) = Inr disk"
    "mgr = LocalObjectManager_new disk"
    "raylet_start (ie_node ie) (ie_node_time ie) (ae_start (ie_attach ie)) (driver_config (ie_attach ie) a hst socket mgr) (cs_nodes cs) =
      (cs_nodes cs', Inr hdl)" "b = binding_of (ie_job ie) hdl"
    by (rule connect_succeeds [OF c(1)])
  note reg = raylet_start_registers [OF d(3)]
  show thesis by (rule attached [OF c(2) d(1,2)]) (use reg d(4) in \<open>auto simp: binding_of_def is_alive_def\<close>)
qed

text \<open>
  The period of the sweeper that the command line asks for never exceeds the timeout, and the defaults leave room for three
  lost heartbeats and a delay of one second.
\<close>

lemma sweeper_period_bounds:
  "sweeper_period (gcs_config t m) = Some p \<Longrightarrow> 0 < p \<and> p \<le> unat t \<and> p \<le> 1000"
  by (auto simp: sweeper_period_def gcs_config_def GcsServerConfig_default_def Let_def split: if_splits)

lemma default_headroom:
  "Suc 3 * cfg_heartbeat_interval RayletConfig_defaults + 2 * 1000 \<le> gc_heartbeat_timeout GcsServerConfig_default"
  "Suc 3 * heartbeat_interval None + 2 * 1000 \<le> gc_heartbeat_timeout GcsServerConfig_default"
  by (simp_all add: RayletConfig_defaults_def GcsServerConfig_default_def heartbeat_interval_def DEFAULT_HEARTBEAT_INTERVAL_def)

text \<open>An example: a driver that attaches, with its own plasma server and no dispatcher.\<close>

definition example_install :: InstallEnv where
  "example_install =
     \<lparr>ie_plasma_env = None, ie_exists = (\<lambda>_. False), ie_temp_dir = Inr [116], ie_server = (\<lambda>_. Inr ()),
      ie_plasma = (\<lambda>_. Inr example_conn), ie_show_plasma = (\<lambda>_. []), ie_inline_size = 16, ie_hex = hex_lower,
      ie_worker_id = WorkerId (replicate 16 1), ie_job_id = JobId (replicate 16 2), ie_budget_env = Some (ascii ''+4096''),
      ie_threshold_env = Some [], ie_parse_f64 = (\<lambda>_. Some F64_NaN), ie_no_dispatch = True, ie_num_workers_env = None,
      ie_dispatcher = Inr True, ie_gcs_env = Some example_gcs_address,
      ie_attach = example_attach\<lparr>ae_canonicalize := (\<lambda>d. Inr (47 # d))\<rparr>, ie_address_error = [], ie_node = replicate 16 1,
      ie_node_time = 0, ie_job = replicate 16 2, ie_job_time = 0, ie_show_binding = (\<lambda>_. []), ie_metrics = Inr (), ie_raced = None\<rparr>"

lemma example_installs:
  obtains s cs disp h where "install example_install (None, example_control) = ((Some s, cs), Inr (Some (disp, h)) :: (unit PyErr, _) result)"
proof -
  have a: "parse_socket_addr example_gcs_address = Some (SockV4 [10, 0, 0, 1] 60000)"
    unfolding example_gcs_address_def by (rule parse_dotted) simp_all
  have "\<exists>cs b h mgr. connect_and_register [] (example_attach\<lparr>ae_canonicalize := (\<lambda>d. Inr (47 # d))\<rparr>) (replicate 16 1) 0 (replicate 16 2) 0
      example_gcs_address ([116] @ ascii ''/plasma.sock'') example_control = (cs, Inr (b, h, mgr))"
    by (simp add: connect_and_register_def a example_attach_def LocalFsBackend_new_def raylet_start_def driver_config_def
        raylet_metrics_bind_def example_control_def gcs_client_register_def register_node_def gcs_client_parse_id_def map_ok_def map_err_def
        gcs_client_add_job_def add_job_def Registry_new_def Let_def del: replicate.simps)
  then have "\<exists>s cs disp h. install example_install (None, example_control) = ((Some s, cs), Inr (Some (disp, h)) :: (unit PyErr, _) result)"
    by (auto simp: install_def example_install_def resolve_plasma_socket_def new_local_with_plasma_def install_dispatcher_def install_gcs_def
        Let_def split: prod.split simp del: replicate.simps append_Cons append_Nil)
  then show thesis using that by blast
qed

section \<open>Properties\<close>



end
