(* ===== verification/Object_Calls.thy ===== *)
theory Object_Calls
imports Peer_Fetch
begin

text \<open>
  The entry points of \<open>rayd-py/src/lib.rs\<close> that talk to one raylet: registering and looking up holders at the raylet of this
  driver, and pulling from and pushing to the raylet at a given address.
\<close>

definition over_gcs ::
  "(GcsBinding \<Rightarrow> ('c, 'n, 'r) Driver \<Rightarrow> ('c, 'n, 'r) Driver \<times> ('v PyErr, 'a) result) \<Rightarrow> ('c, 'n, 'r) Driver \<Rightarrow>
     ('c, 'n, 'r) Driver \<times> ('v PyErr, 'a) result" where
  "over_gcs f dr =
     (case require (dr_session dr) of
        Inl e \<Rightarrow> (dr, Inl e)
      | Inr s \<Rightarrow> (case ses_gcs s of None \<Rightarrow> (dr, Inl (PyRuntimeError no_gcs)) | Some b \<Rightarrow> f b dr))"

text \<open>\<open>home\<close> is the address of the driver's own raylet.\<close>

definition py_register_object ::
  "'v PyEnv \<Rightarrow> ('c, 'n) Transport \<Rightarrow> SocketAddr \<Rightarrow> bytes \<Rightarrow> bytes \<Rightarrow> ('c, 'n, 'r) Driver \<Rightarrow> ('c, 'n, 'r) Driver \<times> ('v PyErr, unit) result" where
  "py_register_object py tr home raw_oid raw_nid dr =
     (case parse_object_id_28 raw_oid of
        Inl e \<Rightarrow> (dr, Inl e)
      | Inr oid \<Rightarrow>
          (case parse_node_id_16 raw_nid of
             Inl e \<Rightarrow> (dr, Inl e)
           | Inr nid \<Rightarrow> over_gcs (\<lambda>_. on_net py ''register_object: '' (register_object_at tr home oid nid)) dr))"

definition py_get_object_locations ::
  "'v PyEnv \<Rightarrow> ('c, 'n) Transport \<Rightarrow> SocketAddr \<Rightarrow> bytes \<Rightarrow> ('c, 'n, 'r) Driver \<Rightarrow> ('c, 'n, 'r) Driver \<times> ('v PyErr, bytes list) result" where
  "py_get_object_locations py tr home raw_oid dr =
     (case parse_object_id_28 raw_oid of
        Inl e \<Rightarrow> (dr, Inl e)
      | Inr oid \<Rightarrow> over_gcs (\<lambda>_. on_net py ''get_object_locations: '' (get_object_locations_at tr home oid)) dr)"

text \<open>\<open>err\<close> is the text of an address that does not parse.\<close>

definition raylet_at :: "bytes \<Rightarrow> bytes \<Rightarrow> u16 \<Rightarrow> ('v PyErr, SocketAddr) result" where
  "raylet_at err hst prt =
     (let a = hst @ ascii '':'' @ dec_digits (unat prt)
      in case parse_socket_addr a of
           None \<Rightarrow> Inl (PyValueError (ascii ''invalid raylet address '' @ a @ ascii '': '' @ err))
         | Some x \<Rightarrow> Inr x)"

definition py_pull_object ::
  "'v PyEnv \<Rightarrow> (PullKind option \<Rightarrow> bytes) \<Rightarrow> ('c, 'n) Transport \<Rightarrow> bytes \<Rightarrow> bytes \<Rightarrow> u16 \<Rightarrow> bytes \<Rightarrow> ('c, 'n, 'r) Driver \<Rightarrow>
     ('c, 'n, 'r) Driver \<times> ('v PyErr, bytes \<times> bytes) result" where
  "py_pull_object py dbg tr err hst prt raw_oid dr =
     (case parse_object_id_28 raw_oid of
        Inl e \<Rightarrow> (dr, Inl e)
      | Inr oid \<Rightarrow>
          (case raylet_at err hst prt of
             Inl e \<Rightarrow> (dr, Inl e)
           | Inr addr \<Rightarrow>
               (case over_gcs (\<lambda>_. on_net py ''pull_object: '' (pull_from dbg tr addr oid)) dr of
                  (dr', r) \<Rightarrow> (dr', map_ok (\<lambda>p. (pulled_metadata p, pulled_data p)) r))))"

definition py_push_object ::
  "'v PyEnv \<Rightarrow> ('c, 'n) Transport \<Rightarrow> bytes \<Rightarrow> bytes \<Rightarrow> u16 \<Rightarrow> bytes \<Rightarrow> bytes \<Rightarrow> bytes \<Rightarrow> ('c, 'n, 'r) Driver \<Rightarrow>
     ('c, 'n, 'r) Driver \<times> ('v PyErr, unit) result" where
  "py_push_object py tr err hst prt raw_oid md d dr =
     (case parse_object_id_28 raw_oid of
        Inl e \<Rightarrow> (dr, Inl e)
      | Inr oid \<Rightarrow>
          (case raylet_at err hst prt of
             Inl e \<Rightarrow> (dr, Inl e)
           | Inr addr \<Rightarrow> over_gcs (\<lambda>_. on_net py ''push_object: '' (push_to tr addr oid md d)) dr))"

lemma over_gcs_attached: "dr_session dr = Some s \<Longrightarrow> ses_gcs s = Some b \<Longrightarrow> over_gcs f dr = f b dr"
  by (simp add: over_gcs_def require_def)

text \<open>The holders that a driver registers at its raylet are the ones it is told.\<close>

lemma registered_holder_is_listed:
  assumes "dr_session dr = Some s" "ses_gcs s = Some b" "pool_ok (dr_pool dr)" "hm_get (dr_net dr) home = Some r"
    and "length oid = 28" "length nid = 16"
    and "\<And>S. set (order S) = S" "\<forall>n\<in>directory_locations oid (rl_directory r). length n = 16"
  obtains dr' dr'' ns where "py_register_object py (cluster_transport lib order) home oid nid dr = (dr', Inr ())"
    "py_get_object_locations py (cluster_transport lib order) home oid dr' = (dr'', Inr ns)"
    "set ns = insert nid (directory_locations oid (rl_directory r))"
proof -
  obtain r' where c: "client_register (cluster_transport lib order) oid nid home (dr_net dr) = (hm_insert home r' (dr_net dr), Some (Inr ()))"
      "rl_directory r' = directory_register oid nid (rl_directory r)"
    by (rule register_call [OF assms(4-6)])
  have "hm_contains (dr_net dr) home" using assms(4) by (simp add: hm_contains_def)
  from on_net_at [where rpc = "client_register (cluster_transport lib order) oid nid", OF assms(3) this c(1), of py "''register_object: ''" lib order]
  obtain pool where p: "on_net py ''register_object: '' (pooled (cluster_transport lib order) home (client_register (cluster_transport lib order) oid nid)) dr =
      (dr\<lparr>dr_pool := pool, dr_net := hm_insert home r' (dr_net dr)\<rparr>, Inr ())" "pool_ok pool" by blast
  let ?dr = "dr\<lparr>dr_pool := pool, dr_net := hm_insert home r' (dr_net dr)\<rparr>"
  let ?ns = "order (directory_locations oid (rl_directory r'))"
  have locs: "directory_locations oid (rl_directory r') = insert nid (directory_locations oid (rl_directory r))"
    by (simp add: c(2) locations_register)
  have get: "hm_get (dr_net ?dr) home = Some r'" by simp
  have ids: "list_all (\<lambda>n. length n = 16) ?ns" using assms(6-8) locs by (simp add: list_all_iff)
  obtain r'' where l: "client_locations (cluster_transport lib order) oid home (dr_net ?dr) = (hm_insert home r'' (dr_net ?dr), Some (Inr ?ns))"
    by (rule locations_call [where order = order, OF get assms(5) ids])
  have "hm_contains (dr_net ?dr) home" using get by (simp add: hm_contains_def)
  moreover have "pool_ok (dr_pool ?dr)" using p(2) by simp
  ultimately obtain pool' where q: "on_net py ''get_object_locations: '' (pooled (cluster_transport lib order) home (client_locations (cluster_transport lib order) oid)) ?dr =
      (?dr\<lparr>dr_pool := pool', dr_net := hm_insert home r'' (dr_net ?dr)\<rparr>, Inr ?ns)"
    using on_net_at [where rpc = "client_locations (cluster_transport lib order) oid", of ?dr home _ ?ns py "''get_object_locations: ''" lib order] l by blast
  show thesis
    by (rule that [of ?dr _ ?ns])
      (use assms(1,2,5-7) p(1) q locs in \<open>simp_all add: parse_object_id_28_def parse_node_id_16_def py_register_object_def py_get_object_locations_def over_gcs_attached register_object_at_def get_object_locations_at_def\<close>)
qed

text \<open>What is pushed to a raylet that does not have it is what is pulled from there, unless its arena has no room.\<close>

lemma pushed_object_is_pulled:
  assumes "dr_session dr = Some s" "ses_gcs s = Some b" "pool_ok (dr_pool dr)"
    and "(raylet_at err hst prt :: ('v PyErr, SocketAddr) result) = Inr a" "hm_get (dr_net dr) a = Some r"
    and "conn_inv (rl_plasma r)" "raylet_view r oid = Absent" "length oid = 28" "rust_slice md" "rust_slice d"
    and "py_push_object (py :: 'v PyEnv) (cluster_transport lib order) err hst prt oid md d dr = (dr', Inr ())"
  shows "\<exists>dr''. py_pull_object py dbg (cluster_transport lib order) err hst prt oid dr' = (dr'', Inr (md, d))"
proof -
  let ?tr = "cluster_transport lib order"
  obtain r' res where push: "raylet_push lib (map (\<lambda>k. Inr (Some k)) (push_frames oid md d)) r = (r', res)" by fastforce
  note pr = push_result [OF assms(6,8-10) push]
  then obtain x where res: "res = Some x" using assms(7) by auto
  have call: "client_push ?tr oid md d a (dr_net dr) = (hm_insert a r' (dr_net dr), Some (of_status x))"
    using assms(5) push res by (simp add: client_push_def cluster_transport_def at_node_def comp_def)
  have has: "hm_contains (dr_net dr) a" using assms(5) by (simp add: hm_contains_def)
  obtain pool where p: "pooled ?tr a (client_push ?tr oid md d) (dr_pool dr, dr_net dr) = ((pool, hm_insert a r' (dr_net dr)), Some (of_status x))"
      "pool_ok pool"
    by (rule pooled_at_node [where rpc = "client_push ?tr oid md d", OF assms(3) has call, of lib order])
  have ok: "x = Inr ()" "dr' = dr\<lparr>dr_pool := pool, dr_net := hm_insert a r' (dr_net dr)\<rparr>"
    using assms(1,2,4,8,11) p(1)
    by (auto simp: py_push_object_def over_gcs_attached parse_object_id_28_def push_to_def on_net_def rpc_outcome_def of_status_def map_err_def
        split: sum.splits)
  have r': "conn_inv (rl_plasma r')" "raylet_view r' oid = Sealed md d" using pr ok(1) res assms(7) by auto
  have get: "hm_get (dr_net dr') a = Some r'" using ok(2) by simp
  obtain r'' where c: "client_pull dbg ?tr oid a (dr_net dr') = (hm_insert a r'' (dr_net dr'), Some (Inr \<lparr>pulled_metadata = md, pulled_data = d\<rparr>))"
    by (rule pull_call [OF get assms(8) r'])
  have has': "hm_contains (dr_net dr') a" using get by (simp add: hm_contains_def)
  have pool': "pool_ok (dr_pool dr')" using ok(2) p(2) by simp
  obtain pool'' where "on_net py ''pull_object: '' (pooled ?tr a (client_pull dbg ?tr oid)) dr' =
      (dr'\<lparr>dr_pool := pool'', dr_net := hm_insert a r'' (dr_net dr')\<rparr>, Inr \<lparr>pulled_metadata = md, pulled_data = d\<rparr>)"
    by (rule on_net_at [where rpc = "client_pull dbg ?tr oid", OF pool' has' c, of py "''pull_object: ''" lib order])
  then show ?thesis
    using assms(1,2,4,8) ok(2) by (simp add: py_pull_object_def over_gcs_attached parse_object_id_28_def pull_from_def map_ok_def)
qed

end
