(* ===== verification/Spec2Isabelle.thy ===== *)
theory Spec2Isabelle
imports Core_Runs Watch_Nodes Plasma_Wire Remote_Actor Runtime_Setup Object_Calls
begin

text \<open>
  Verification of rayd, a runtime for distributed tasks, actors and objects written in Rust with a Python API.

  \<^bold>\<open>The program.\<close>  A driver process keeps an index of objects (\<open>rayd-core\<close>): small values inline, large ones in
  a shared-memory server (\<open>rayd-plasma\<close>), and under pressure in files below a spill directory (\<open>rayd-raylet\<close>).
  Reference counts decide when an object is freed everywhere.  The driver's dispatcher hands tasks to worker
  processes and each actor has a process of its own; both seal results into the shared memory and report them
  over a socket (\<open>rayd-py\<close>, \<open>python/rayd\<close>).  A raylet per node serves objects to other nodes and keeps the
  directory of holders.  The global control store (\<open>rayd-gcs\<close>) keeps the registries of nodes, jobs and named
  actors, expires nodes without heartbeats and publishes node events, which the raylets follow.

  \<^bold>\<open>Conventions.\<close>  Rust's \<open>Result\<close> is the sum type with \<open>Inl\<close> the error; \<open>Option\<close> is \<open>option\<close>; integers keep their
  width as words; a hash map is an association list with distinct keys (\<open>Rayd_Prelude\<close>); strings are their UTF-8
  bytes.  A mutex-protected structure is a record and each critical section one function on it.  A panic and an
  uncaught Python exception are values (\<open>None\<close>, \<open>PyPanic\<close>, \<open>WorkerCrash\<close>).  Blocking calls take the list of
  states they observe, so that \<open>None\<close> is a call that is still waiting.  Clocks, random ids, the operating
  system's answers and every third-party codec (bincode, pickle, the hex crate, tonic) are arguments; what is
  assumed of them is a hypothesis of the theorem that needs it.  A definition that holds only a piece of a function of the
  source stands beside the definition of that function.

  \<^bold>\<open>Theories.\<close>
  \<^item> \<open>Rayd_Prelude\<close>: bytes, words, UTF-8, hash maps (locale \<open>hash_map\<close>), codecs (locales \<open>codec\<close>, \<open>prefix_codec\<close>,
    \<open>strict_codec\<close>).  \<open>F64\<close>: the floating-point operations of the spill threshold.
  \<^item> \<open>Ids\<close>: \<open>rayd-core/src/id.rs\<close>, \<open>object_ref.rs\<close>.  \<open>Metadata_Codec\<close>: \<open>metadata.rs\<close>, \<open>error_info.rs\<close>,
    \<open>error_payload.rs\<close>, \<open>ray_object.rs\<close>; the decoders accept exactly the encodings.
  \<^item> \<open>Memory_Store\<close>: \<open>store.rs\<close>, with the blocking calls and the condition variable as a step relation; exact
    accounting, no lost wake-up, \<open>wait\<close> returns and partitions.
  \<^item> \<open>Ref_Counter\<close>: \<open>ref_counter.rs\<close>; refinement of the reference model of its property tests, and exactly one
    freeing release in any interleaving (locale \<open>release_once\<close>).
  \<^item> \<open>Plasma_Arena\<close>, \<open>Plasma_Server\<close>, \<open>Plasma_Client\<close>, \<open>Plasma_Wire\<close>: the crate \<open>rayd-plasma\<close>; slots in range and
    disjoint for any client input, refinement of a map of sealed objects (locale \<open>plasma_store\<close>), stable read
    handles, typed replies, frames with descriptors over short reads and writes.
  \<^item> \<open>Spill\<close>: \<open>rayd-raylet/src/spill\<close> and \<open>object_manager.rs\<close> over a map of files with faults at every step
    (locales \<open>spill_backend\<close>, \<open>object_recoverer\<close>, \<open>freeing_recoverer\<close>); atomic spills, refinement of a map.
  \<^item> \<open>Core_Worker\<close>, \<open>Core_Runs\<close>: \<open>core_worker.rs\<close> and its runs with the object manager as recovery hook; every run
    is a map of values with a reference counter, and the last release frees everywhere.
  \<^item> \<open>Gcs_Nodes\<close>, \<open>Gcs_Directory\<close>: the services of \<open>rayd-gcs\<close> and its client; registry, event log, replay buffer and
    gauges agree, sweeps expire exactly the stale nodes, names stay with their actor.
  \<^item> \<open>Node_Index\<close>, \<open>Watch_Nodes\<close>: the subscription of a raylet; convergence to the registry and reported deaths.
  \<^item> \<open>Raylet\<close>: \<open>service.rs\<close>, \<open>client.rs\<close>, \<open>directory.rs\<close> of \<open>rayd-raylet\<close> and the owner sink (locale
    \<open>borrower_sink\<close>); transfers reproduce objects, directory and borrower counts agree.
  \<^item> \<open>Task_Manager\<close>, \<open>Dispatcher\<close>: lineage and the dispatcher of \<open>rayd-py\<close>; bounded resubmission, no job lost or
    duplicated beyond the named causes, draining on shutdown.
  \<^item> \<open>Driver_Session\<close>: the session of \<open>runtime.rs\<close> and the entry points of \<open>lib.rs\<close>; put and get are inverse.
  \<^item> \<open>Peer_Fetch\<close>, \<open>Object_Calls\<close>: \<open>fetch_object\<close>, \<open>gcs.rs\<close>, \<open>raylet_pool.rs\<close> and the entry points that register, locate,
    pull and push single objects, against a cluster of modelled raylets; a fetch makes a readable, listed replica.
  \<^item> \<open>Task_Worker\<close>, \<open>Actor\<close>: the Python processes; results and exceptions of tasks and methods reach the driver,
    calls of actors settle under crashes and restarts.
  \<^item> \<open>Py_Directory\<close>: the entry points of \<open>lib.rs\<close> for nodes, jobs and named actors.  \<open>Remote_Get\<close>: \<open>get\<close> of
    \<open>python/rayd/__init__.py\<close> with the liveness gate, the fetch loop and the resubmission of lost objects; it returns
    the value of the owner or names the reason.
  \<^item> \<open>Remote_Actor\<close>: creation, handles and names of actors (\<open>_actor.py\<close>) and the connection loop of \<open>_actor_rpc.py\<close>; a
    call from another driver is accepted or refused by the state of the actor, and its result reaches the caller.
  \<^item> \<open>Node_Lifecycle\<close>: \<open>lifecycle.rs\<close> of \<open>rayd-raylet\<close> and the attachment of a driver in \<open>gcs.rs\<close>; a node is alive exactly
    as long as its heartbeats arrive and it is not drained.
  \<^item> \<open>Runtime_Setup\<close>: \<open>install\<close> of \<open>runtime.rs\<close> with its environment variables, the start of the control store, and
    what each subcommand of \<open>rayd-cli\<close> starts.

  \<^bold>\<open>Bounds.\<close>  Every function is total.  Loops over input recurse on it; the loops of plasma frames recurse on the
  bytes left, since every answer of the kernel makes progress or ends the loop.  The fetch loop and the heartbeat loop
  recurse on the list of what they observe, one element for each round.  Counters that wrap are stated
  with the number of operations below \<open>2 ^ 64\<close>.  Sizes obey \<open>isize::MAX\<close> where the code allocates.

  \<^bold>\<open>Not modelled.\<close>  Metrics endpoints and logging (they do not influence the modelled state; the gauges that carry
  state are fields), the text of log lines, generated protobuf and stub code, the start of threads and processes and the
  accept loops (what they answer is an argument), the handling of signals and the parsing of command lines (a library),
  Python class wrappers that only expose a field, decorators, the pickling shims, the benchmark and release scripts.
\<close>

end
